(* ===== verification/Prelude.thy ===== *)
theory Prelude
  imports Complex_Main "HOL-Library.List_Lexorder" "HOL-Library.Char_ord"
begin

text \<open>
  Shared vocabulary of the parking development: the Python built-ins the two
  programs call (\<open>round(x, 2)\<close>, \<open>str(i)\<close>), the clock and random draws that
  the environment supplies, and generic lemmas on lists and rounding that the
  component theories use. Python floats are modelled as \<open>real\<close> (exact
  arithmetic, no binary rounding); Python integers as \<open>int\<close>; strings as
  \<open>string\<close> (byte lists, which is what SQLite's BINARY collation compares).
\<close>

named_theorems parking_simps "evaluation rules of the model's helpers"

type_synonym zone = string
type_synonym topic = string
type_synonym iso_time = string

section \<open>Python's \<open>round(x, 2)\<close>\<close>

text \<open>
  Python rounds half to even. \<open>round_half_even x\<close> is the integer nearest to
  \<open>x\<close>, ties going to the even neighbour; \<open>py_round2\<close> rounds to two decimals.
\<close>

definition round_half_even :: "real \<Rightarrow> int" where
  "round_half_even x =
     (let f = \<lfloor>x\<rfloor>; d = x - of_int f in
      if d < 1/2 then f
      else if 1/2 < d then f + 1
      else if even f then f else f + 1)"

definition py_round2 :: "real \<Rightarrow> real" where
  "py_round2 x = of_int (round_half_even (x * 100)) / 100"

text \<open>
  \<open>random.uniform(a, b)\<close> is \<open>a + (b - a) * random()\<close> (CPython's
  \<open>Lib/random.py\<close>); the draw \<open>random()\<close> in \<open>[0, 1)\<close> is an input.
\<close>

definition py_uniform :: "real \<Rightarrow> real \<Rightarrow> real \<Rightarrow> real" where
  "py_uniform a b r = a + (b - a) * r"

section \<open>Python's \<open>str(i)\<close> on integers\<close>

definition digit_chars :: string where
  "digit_chars = ''0123456789''"

fun nat_digits :: "nat \<Rightarrow> string" where
  "nat_digits n =
     (if n < 10 then [digit_chars ! n]
      else nat_digits (n div 10) @ [digit_chars ! (n mod 10)])"

declare nat_digits.simps [simp del]

definition py_str_int :: "int \<Rightarrow> string" where
  "py_str_int i = (if i < 0 then CHR ''-'' # nat_digits (nat (- i)) else nat_digits (nat i))"

definition is_digit :: "char \<Rightarrow> bool" where
  "is_digit c \<longleftrightarrow> c \<in> set digit_chars"

text \<open>
  Python's \<open>int(s)\<close> on a string of decimal digits, and the round trip
  \<open>int(str(n)) = n\<close> on naturals, which makes \<open>str\<close> injective.
\<close>

definition digits_val :: "string \<Rightarrow> nat" where
  "digits_val cs = foldl (\<lambda>acc c. 10 * acc + (of_char c - 48)) 0 cs"

text \<open>
  Decoding the text \<open>str(i)\<close> prints: an optional minus sign, then a
  non-empty run of decimal digits.
\<close>

definition parse_nat :: "string \<Rightarrow> nat option" where
  "parse_nat ds = (if ds \<noteq> [] \<and> list_all is_digit ds then Some (digits_val ds) else None)"

definition parse_int :: "string \<Rightarrow> int option" where
  "parse_int s =
     (if s \<noteq> [] \<and> hd s = CHR ''-'' then map_option (\<lambda>n. - int n) (parse_nat (tl s))
      else map_option int (parse_nat s))"

section \<open>Lists\<close>

text \<open>
  Evaluating a list of fallible Python expressions left to right: the first
  exception wins, as in a tuple display or an argument list.
\<close>

primrec seq_sum :: "('e + 'a) list \<Rightarrow> 'e + 'a list" where
  "seq_sum [] = Inr []"
| "seq_sum (x # xs) =
     (case x of
        Inl e \<Rightarrow> Inl e
      | Inr y \<Rightarrow> (case seq_sum xs of Inl e \<Rightarrow> Inl e | Inr ys \<Rightarrow> Inr (y # ys)))"

declare seq_sum.simps(2) [simp del]

text \<open>
  Number of changes along a sequence of values, as the hourly watermark sees it:
  \<open>changes w xs\<close> counts the positions where \<open>xs\<close> differs from the value before
  it, the first element being compared with \<open>w\<close>.
\<close>

fun changes :: "'a \<Rightarrow> 'a list \<Rightarrow> nat" where
  "changes w [] = 0"
| "changes w (x # xs) = (if x \<noteq> w then Suc (changes x xs) else changes x xs)"

section \<open>Properties of the helpers\<close>

subsection \<open>Rounding\<close>

lemma round_half_even_cases [parking_simps]:
  "round_half_even x = \<lfloor>x\<rfloor> \<or> (round_half_even x = \<lfloor>x\<rfloor> + 1 \<and> of_int \<lfloor>x\<rfloor> < x)"
proof -
  have "x - of_int \<lfloor>x\<rfloor> \<ge> 1/2 \<Longrightarrow> of_int \<lfloor>x\<rfloor> < x" by linarith
  then show ?thesis by (auto simp: round_half_even_def Let_def)
qed

lemma round_half_even_int [simp]: "round_half_even (of_int k) = k"
  by (simp add: round_half_even_def)

lemma round_half_even_bounds:
  assumes "of_int a \<le> x" and "x \<le> of_int b"
  shows "a \<le> round_half_even x \<and> round_half_even x \<le> b"
proof -
  have lo: "a \<le> \<lfloor>x\<rfloor>" using assms(1) by (simp add: le_floor_iff)
  have hi: "\<lfloor>x\<rfloor> \<le> b" using assms(2) by (simp add: floor_le_iff)
  have "of_int \<lfloor>x\<rfloor> < x \<Longrightarrow> \<lfloor>x\<rfloor> < b"
    using assms(2) by (metis floor_less_iff floor_of_int less_le_trans not_less_iff_gr_or_eq floor_mono)
  with lo hi round_half_even_cases [of x] show ?thesis by auto
qed

lemma py_round2_bounds:
  assumes "of_int a / 100 \<le> x" and "x \<le> of_int b / 100"
  shows "of_int a / 100 \<le> py_round2 x \<and> py_round2 x \<le> of_int b / 100"
proof -
  from assms have "of_int a \<le> x * 100" and "x * 100 \<le> of_int b" by simp_all
  then have "a \<le> round_half_even (x * 100) \<and> round_half_even (x * 100) \<le> b"
    by (rule round_half_even_bounds)
  then show ?thesis by (simp add: py_round2_def divide_right_mono)
qed

subsection \<open>Decimal strings\<close>

lemma nat_digits_digits: "\<forall>c \<in> set (nat_digits n). is_digit c"
proof (induction n rule: nat_digits.induct)
  case (1 n)
  have dig: "\<And>k::nat. k < 10 \<Longrightarrow> is_digit (digit_chars ! k)"
    unfolding is_digit_def by (rule nth_mem) (simp add: digit_chars_def)
  show ?case
    using "1.IH" dig [of n] dig [of "n mod 10"]
    by (subst nat_digits.simps) auto
qed

lemma nat_digits_nonempty: "nat_digits n \<noteq> []"
  by (subst nat_digits.simps) simp

lemma digit_chars_of_char: "k < 10 \<Longrightarrow> of_char (digit_chars ! k) = 48 + k"
proof -
  assume "k < 10"
  then have "k \<in> {0,1,2,3,4,5,6,7,8,9}" by auto
  then show ?thesis by (auto simp: digit_chars_def)
qed

lemma digits_val_nat_digits: "digits_val (nat_digits n) = n"
proof (induction n rule: nat_digits.induct)
  case (1 n)
  show ?case
  proof (cases "n < 10")
    case True
    then show ?thesis
      by (subst nat_digits.simps) (simp add: digits_val_def digit_chars_of_char)
  next
    case False
    then have "digits_val (nat_digits (n div 10)) = n div 10" using "1.IH" by simp
    with False show ?thesis
      by (subst nat_digits.simps) (simp add: digits_val_def digit_chars_of_char)
  qed
qed

lemma nat_digits_inj: "nat_digits m = nat_digits n \<Longrightarrow> m = n"
  by (metis digits_val_nat_digits)

lemma nat_digits_hd_digit: "is_digit (hd (nat_digits n))"
  using nat_digits_digits [of n] nat_digits_nonempty [of n] by simp

lemma py_str_int_inj: "py_str_int i = py_str_int j \<Longrightarrow> i = j"
proof -
  assume eq: "py_str_int i = py_str_int j"
  have minus: "\<not> is_digit CHR ''-''" by (simp add: is_digit_def digit_chars_def)
  show "i = j"
  proof (cases "i < 0"; cases "j < 0")
    assume "i < 0" "j < 0"
    with eq show ?thesis by (auto simp: py_str_int_def dest: nat_digits_inj)
  next
    assume "\<not> i < 0" "\<not> j < 0"
    with eq show ?thesis by (auto simp: py_str_int_def dest: nat_digits_inj)
  next
    assume "i < 0" "\<not> j < 0"
    with eq have "CHR ''-'' # nat_digits (nat (- i)) = nat_digits (nat j)"
      by (simp add: py_str_int_def)
    then have "CHR ''-'' = hd (nat_digits (nat j))" by (metis list.sel(1))
    with minus nat_digits_hd_digit show ?thesis by metis
  next
    assume "\<not> i < 0" "j < 0"
    with eq have "CHR ''-'' # nat_digits (nat (- j)) = nat_digits (nat i)"
      by (simp add: py_str_int_def)
    then have "CHR ''-'' = hd (nat_digits (nat i))" by (metis list.sel(1))
    with minus nat_digits_hd_digit show ?thesis by metis
  qed
qed

lemma py_str_int_no_slash: "CHR ''/'' \<notin> set (py_str_int i)"
proof -
  have "\<not> is_digit CHR ''/''" by (simp add: is_digit_def digit_chars_def)
  then show ?thesis
    using nat_digits_digits [of "nat (- i)"] nat_digits_digits [of "nat i"]
    by (auto simp: py_str_int_def)
qed

lemma py_str_int_nonempty: "py_str_int i \<noteq> []"
  by (simp add: py_str_int_def nat_digits_nonempty)

lemma parse_nat_nat_digits [simp]: "parse_nat (nat_digits n) = Some n"
  using nat_digits_digits [of n] nat_digits_nonempty [of n]
  by (simp add: parse_nat_def digits_val_nat_digits list_all_iff)

lemma parse_int_py_str_int: "parse_int (py_str_int i) = Some i"
proof (cases "i < 0")
  case True
  then show ?thesis by (simp add: parse_int_def py_str_int_def)
next
  case False
  have "\<not> is_digit CHR ''-''" by (simp add: is_digit_def digit_chars_def)
  then have "hd (nat_digits (nat i)) \<noteq> CHR ''-''" using nat_digits_hd_digit [of "nat i"] by metis
  with False show ?thesis by (simp add: parse_int_def py_str_int_def)
qed

subsection \<open>Lists\<close>

lemma seq_sum_map_Inr [simp]: "seq_sum (map Inr ys) = Inr ys"
  by (induction ys) (auto simp: seq_sum.simps)

lemma seq_sum_Inl_iff: "(\<exists>e. seq_sum xs = Inl e) \<longleftrightarrow> (\<exists>x \<in> set xs. \<exists>e. x = Inl e)"
proof (induction xs)
  case Nil
  then show ?case by simp
next
  case (Cons x xs)
  then show ?case by (cases x) (auto simp: seq_sum.simps split: sum.splits)
qed

lemma seq_sum_Inr_iff [parking_simps]:
  "seq_sum xs = Inr ys \<longleftrightarrow> xs = map Inr ys"
proof (induction xs arbitrary: ys)
  case Nil
  then show ?case by auto
next
  case (Cons x xs)
  then show ?case by (cases x) (auto simp: seq_sum.simps split: sum.splits)
qed

lemma seq_sum_Inr_ex: "(\<exists>ys. seq_sum xs = Inr ys) \<longleftrightarrow> (\<forall>x \<in> set xs. \<exists>y. x = Inr y)"
  using seq_sum_Inl_iff [of xs] by (metis Inl_Inr_False sum.exhaust)

lemma map_Inr_exists:
  "(\<forall>k \<in> set ks. \<exists>j. f k = Inr j \<and> P j) \<longleftrightarrow> (\<exists>js. map f ks = map Inr js \<and> (\<forall>j \<in> set js. P j))"
proof (induction ks)
  case Nil
  then show ?case by simp
next
  case (Cons k ks)
  show ?case
  proof
    assume "\<forall>k' \<in> set (k # ks). \<exists>j. f k' = Inr j \<and> P j"
    then obtain j js where "f k = Inr j" "P j" "map f ks = map Inr js" "\<forall>j \<in> set js. P j"
      using Cons.IH by auto
    then show "\<exists>js. map f (k # ks) = map Inr js \<and> (\<forall>j \<in> set js. P j)"
      by (intro exI [of _ "j # js"]) simp
  next
    assume "\<exists>js. map f (k # ks) = map Inr js \<and> (\<forall>j \<in> set js. P j)"
    then obtain js where js: "map f (k # ks) = map Inr js" "\<forall>j \<in> set js. P j" by blast
    then obtain j js' where "js = j # js'" by (cases js) auto
    with js Cons.IH show "\<forall>k' \<in> set (k # ks). \<exists>j. f k' = Inr j \<and> P j" by auto
  qed
qed

text \<open>A string splits uniquely at its last separator.\<close>

lemma split_last_sep:
  assumes "a @ c # b = a' @ c # b'" and "c \<notin> set b" and "c \<notin> set b'"
  shows "a = a' \<and> b = b'"
proof -
  have tw: "\<And>u v. c \<notin> set v \<Longrightarrow> takeWhile (\<lambda>x. x \<noteq> c) (rev (u @ c # v)) = rev v"
  proof -
    fix u v assume "c \<notin> set v"
    then have "takeWhile (\<lambda>x. x \<noteq> c) (rev v @ c # rev u) =
        rev v @ takeWhile (\<lambda>x. x \<noteq> c) (c # rev u)"
      by (intro takeWhile_append2) auto
    then show "takeWhile (\<lambda>x. x \<noteq> c) (rev (u @ c # v)) = rev v" by simp
  qed
  have "rev b = rev b'"
    using tw [of b a] tw [of b' a'] assms by simp
  then have "b = b'" by simp
  with assms(1) show ?thesis by simp
qed

lemma take_rev_prefix [parking_simps]:
  "take n (rev (xs @ [x])) = (if n = 0 then [] else x # take (n - 1) (rev xs))"
  by (cases n) auto

text \<open>
  Strings of equal length compare as text at their first difference:
  \<open>a @ x < b @ y\<close> is decided by \<open>a\<close> and \<open>b\<close> unless they are equal.
\<close>

lemma list_less_append_iff:
  fixes a b :: "'a :: linorder list"
  assumes "length a = length b"
  shows "a @ x < b @ y \<longleftrightarrow> a < b \<or> a = b \<and> x < y"
proof (cases a b rule: linorder_cases)
  case less
  then show ?thesis using assms unfolding list_less_def by (auto intro: lexord_sufI)
next
  case equal
  then show ?thesis unfolding list_less_def by (simp add: lexord_same_pref_iff lexord_irreflexive)
next
  case greater
  then have "b @ y < a @ x" using assms unfolding list_less_def by (auto intro: lexord_sufI)
  then show ?thesis using greater by (auto dest: order.asym)
qed

end
