(* ===== verification/Values.thy ===== *)
theory Values
  imports Prelude
begin

text \<open>
  The dynamic values that cross the component boundaries: a JSON value as
  \<open>json.loads\<close> returns it (\<open>dict\<close>, \<open>list\<close>, \<open>str\<close>, \<open>int\<close>,
  \<open>float\<close>, \<open>bool\<close>, \<open>None\<close>), the Python exceptions the handlers can raise,
  Python's two ways of reading a key of a decoded payload (\<open>data.get(k)\<close> and
  \<open>data[k]\<close>), the SQLite value a Python object is bound to, and the MQTT
  message as the backend's \<open>on_message\<close> callback receives it.
\<close>

datatype json =
    JNull
  | JBool bool
  | JInt int
  | JFloat real
  | JStr string
  | JArr "json list"
  | JObj "(string \<times> json) list"

text \<open>The exceptions raised on the paths the model follows.\<close>

datatype exc =
    JSONDecodeError
  | UnicodeDecodeError
  | KeyError string
  | TypeError
  | AttributeError
  | IntegrityError string
  | BindError
  | ZeroDivisionError
  | ConnectError

section \<open>Reading a decoded payload\<close>

text \<open>
  \<open>json.loads\<close> keeps the last of duplicate keys, so a key is looked up from
  the end of the association list.
\<close>

definition obj_lookup :: "(string \<times> json) list \<Rightarrow> string \<Rightarrow> json option" where
  "obj_lookup kvs k = map_of (rev kvs) k"

text \<open>
  \<open>data.get(k)\<close>: \<open>None\<close> for a missing key; only a \<open>dict\<close> has \<open>get\<close>,
  any other value raises \<open>AttributeError\<close>.
\<close>

fun py_get :: "json \<Rightarrow> string \<Rightarrow> exc + json" where
  "py_get (JObj kvs) k = Inr (case obj_lookup kvs k of None \<Rightarrow> JNull | Some v \<Rightarrow> v)"
| "py_get _ k = Inl AttributeError"

text \<open>
  \<open>data[k]\<close>: \<open>KeyError\<close> for a missing key of a \<open>dict\<close>; a list or a
  string indexed by a string, and \<open>None\<close> or a number, raise \<open>TypeError\<close>.
\<close>

fun py_subscript :: "json \<Rightarrow> string \<Rightarrow> exc + json" where
  "py_subscript (JObj kvs) k = (case obj_lookup kvs k of None \<Rightarrow> Inl (KeyError k) | Some v \<Rightarrow> Inr v)"
| "py_subscript _ k = Inl TypeError"

section \<open>SQLite values\<close>

text \<open>
  The storage classes of SQLite, and the binding of a Python parameter by the
  \<open>sqlite3\<close> module: \<open>None\<close> to \<open>NULL\<close>, \<open>bool\<close> and \<open>int\<close> to
  \<open>INTEGER\<close>, \<open>float\<close> to \<open>REAL\<close>, \<open>str\<close> to \<open>TEXT\<close>; a \<open>list\<close> or a
  \<open>dict\<close> is not a supported parameter type and raises.
\<close>

datatype sqlval = SNull | SInt int | SReal real | SText string

fun bind :: "json \<Rightarrow> exc + sqlval" where
  "bind JNull = Inr SNull"
| "bind (JBool b) = Inr (SInt (if b then 1 else 0))"
| "bind (JInt i) = Inr (SInt i)"
| "bind (JFloat r) = Inr (SReal r)"
| "bind (JStr s) = Inr (SText s)"
| "bind (JArr _) = Inl BindError"
| "bind (JObj _) = Inl BindError"

text \<open>
  The storage class of a stored value, as SQLite's \<open>typeof()\<close> reports it;
  the \<open>CREATE TABLE\<close> statements declare one of them for each column.
\<close>

datatype sqltype = TNull | TInteger | TReal | TText

fun sql_type :: "sqlval \<Rightarrow> sqltype" where
  "sql_type SNull = TNull"
| "sql_type (SInt i) = TInteger"
| "sql_type (SReal r) = TReal"
| "sql_type (SText s) = TText"

text \<open>The storage class a value read from a payload gets when it is bound.\<close>

definition bound_type :: "exc + json \<Rightarrow> sqltype option" where
  "bound_type r = (case r of Inl e \<Rightarrow> None | Inr j \<Rightarrow> (case bind j of Inl e \<Rightarrow> None | Inr v \<Rightarrow> Some (sql_type v)))"

section \<open>MQTT messages\<close>

text \<open>
  The backend's \<open>on_message\<close> decodes the payload bytes as UTF-8 and parses the
  text with \<open>json.loads\<close>. The payload is modelled by what those two library
  calls make of it: undecodable bytes, or decoded text together with the
  result of parsing it (\<open>None\<close> when \<open>json.loads\<close> raises).
\<close>

datatype payload = BadUtf8 | Utf8Text "json option"

record mqtt_msg =
  msg_topic :: topic
  msg_payload :: payload

text \<open>
  A message published with \<open>json.dumps(d)\<close> arrives as text that parses back
  to \<open>d\<close>: the bus is the identity on the payloads the simulator builds.
\<close>

definition summary_topic :: topic where
  "summary_topic = ''parking/summary''"

definition deliver :: "topic \<Rightarrow> json \<Rightarrow> mqtt_msg" where
  "deliver t j = \<lparr>msg_topic = t, msg_payload = Utf8Text (Some j)\<rparr>"

end
