(* ===== verification/Sensor.thy ===== *)
theory Sensor
  imports Values
begin

text \<open>
  One parking space: \<open>ParkingSensor\<close> of \<open>src/sensors/sensor_simulator.py\<close>.
  Its random draws are inputs: \<open>detect_change\<close> takes the value of
  \<open>random.random()\<close>, \<open>get_status\<close> the clock reading and the value of
  \<open>random.uniform(0.85, 1.0)\<close>.
\<close>

record sensor =
  sensor_id :: int
  sensor_zone :: zone
  is_occupied :: bool
  sensor_topic :: topic

definition sensor_topic_of :: "zone \<Rightarrow> int \<Rightarrow> topic" where
  "sensor_topic_of z i = ''parking/'' @ z @ ''/place_'' @ py_str_int i"

definition new_sensor :: "int \<Rightarrow> zone \<Rightarrow> sensor" where
  "new_sensor i z =
     \<lparr>sensor_id = i, sensor_zone = z, is_occupied = False, sensor_topic = sensor_topic_of z i\<rparr>"

definition detect_change :: "real \<Rightarrow> sensor \<Rightarrow> bool \<times> sensor" where
  "detect_change r s =
     (if r < 1/10 then (True, s\<lparr>is_occupied := \<not> is_occupied s\<rparr>) else (False, s))"

definition status_text :: "bool \<Rightarrow> string" where
  "status_text occ = (if occ then ''occupied'' else ''free'')"

definition get_status :: "iso_time \<Rightarrow> real \<Rightarrow> sensor \<Rightarrow> json" where
  "get_status now u s =
     JObj [(''sensor_id'', JInt (sensor_id s)),
           (''zone'', JStr (sensor_zone s)),
           (''status'', JStr (status_text (is_occupied s))),
           (''timestamp'', JStr now),
           (''confidence'', JFloat (py_round2 (py_uniform (85/100) 1 u)))]"

text \<open>
  Reading a sensor topic back: strip \<open>parking/\<close>, split at the last
  \<open>/\<close>, and decode the id after \<open>place_\<close>. The zone is everything in
  between, so it may itself contain \<open>/\<close>.
\<close>

definition parse_sensor_topic :: "topic \<Rightarrow> (zone \<times> int) option" where
  "parse_sensor_topic t =
     (if take 8 t = ''parking/'' then
        (let r = drop 8 t; place = rev (takeWhile (\<lambda>c. c \<noteq> CHR ''/'') (rev r)) in
         if length place < length r \<and> take 6 place = ''place_'' then
           map_option (\<lambda>i. (take (length r - length place - 1) r, i)) (parse_int (drop 6 place))
         else None)
      else None)"

text \<open>The identity of a sensor: the fields no operation writes.\<close>

definition sensor_ident :: "sensor \<Rightarrow> int \<times> zone \<times> topic" where
  "sensor_ident s = (sensor_id s, sensor_zone s, sensor_topic s)"

section \<open>Lemmas\<close>

lemma detect_change_ident [simp]: "sensor_ident (snd (detect_change r s)) = sensor_ident s"
  by (simp add: detect_change_def sensor_ident_def)

lemma get_status_get [parking_simps]:
  "py_get (get_status now u s) ''sensor_id'' = Inr (JInt (sensor_id s))"
  "py_get (get_status now u s) ''zone'' = Inr (JStr (sensor_zone s))"
  "py_get (get_status now u s) ''status'' = Inr (JStr (status_text (is_occupied s)))"
  "py_get (get_status now u s) ''timestamp'' = Inr (JStr now)"
  "py_get (get_status now u s) ''confidence'' = Inr (JFloat (py_round2 (py_uniform (85/100) 1 u)))"
  by (simp_all add: get_status_def obj_lookup_def)

lemma sensor_topic_of_split:
  "sensor_topic_of z i = (''parking/'' @ z) @ CHR ''/'' # (''place_'' @ py_str_int i)"
  by (simp add: sensor_topic_of_def)

text \<open>
  The topic \<open>parking/{zone}/place_{id}\<close> determines both the zone and the
  id, because the id's decimal text contains no slash.
\<close>

lemma sensor_topic_of_inj:
  assumes "sensor_topic_of z i = sensor_topic_of z' i'"
  shows "z = z' \<and> i = i'"
proof -
  have nslash: "CHR ''/'' \<notin> set (''place_'' @ py_str_int j)" for j
    using py_str_int_no_slash [of j] by simp
  from assms have "(''parking/'' @ z) @ CHR ''/'' # (''place_'' @ py_str_int i) =
      (''parking/'' @ z') @ CHR ''/'' # (''place_'' @ py_str_int i')"
    by (simp only: sensor_topic_of_split)
  then have "''parking/'' @ z = ''parking/'' @ z' \<and>
      ''place_'' @ py_str_int i = ''place_'' @ py_str_int i'"
    by (rule split_last_sep) (rule nslash)+
  then show ?thesis by (auto dest: py_str_int_inj)
qed

lemma takeWhile_rev_sep:
  "c \<notin> set b \<Longrightarrow> rev (takeWhile (\<lambda>x. x \<noteq> c) (rev (a @ c # b))) = b"
proof -
  assume "c \<notin> set b"
  then have "takeWhile (\<lambda>x. x \<noteq> c) (rev b @ c # rev a) = rev b @ takeWhile (\<lambda>x. x \<noteq> c) (c # rev a)"
    by (intro takeWhile_append2) auto
  then show ?thesis by simp
qed

text \<open>No sensor topic is the summary topic.\<close>

lemma sensor_topic_of_neq_summary: "sensor_topic_of z i \<noteq> summary_topic"
proof
  assume "sensor_topic_of z i = summary_topic"
  then have "length (sensor_topic_of z i) = length summary_topic" by simp
  moreover have "length (sensor_topic_of z i) \<ge> 16"
    using py_str_int_nonempty [of i]
    by (cases "py_str_int i") (simp_all add: sensor_topic_of_def)
  ultimately show False by (simp add: summary_topic_def)
qed

section \<open>Properties\<close>

text \<open>
  C15. Round trip of the topic of a sensor: reading back the topic
  \<open>parking/{zone}/place_{id}\<close> that \<open>ParkingSensor.__init__\<close> builds gives
  the zone and the id it was built from, for every zone and every integer id.
\<close>

theorem sensor_topic_roundtrip: "parse_sensor_topic (sensor_topic_of z i) = Some (z, i)"
proof -
  let ?p = "''place_'' @ py_str_int i"
  have t8: "take 8 (sensor_topic_of z i) = ''parking/''" by (simp add: sensor_topic_of_def)
  have r: "drop 8 (sensor_topic_of z i) = z @ CHR ''/'' # ?p" by (simp add: sensor_topic_of_def)
  have "CHR ''/'' \<notin> set ?p" using py_str_int_no_slash [of i] by simp
  then have place: "rev (takeWhile (\<lambda>c. c \<noteq> CHR ''/'') (rev (z @ CHR ''/'' # ?p))) = ?p"
    by (rule takeWhile_rev_sep)
  have "parse_sensor_topic (sensor_topic_of z i) =
      (if length ?p < length (z @ CHR ''/'' # ?p) \<and> take 6 ?p = ''place_'' then
         map_option (\<lambda>j. (take (length (z @ CHR ''/'' # ?p) - length ?p - 1) (z @ CHR ''/'' # ?p), j))
           (parse_int (drop 6 ?p))
       else None)"
    by (simp only: parse_sensor_topic_def Let_def t8 r place refl if_True)
  then show ?thesis by (simp add: parse_int_py_str_int)
qed


text \<open>
  \<open>detect_change\<close> is the sole state transition of a sensor: it reports a
  change exactly when the draw is below 0.1, and then the occupancy is flipped;
  otherwise the sensor is returned unchanged.
\<close>

lemma detect_change_spec:
  "fst (detect_change r s) = (r < 1/10) \<and>
   snd (detect_change r s) =
     (if fst (detect_change r s) then s\<lparr>is_occupied := \<not> is_occupied s\<rparr> else s)"
  by (simp add: detect_change_def)

text \<open>
  C26. The confidence a status report carries lies in [0.85, 1.0]: the code
  draws it with \<open>random.uniform(0.85, 1.0)\<close> from a \<open>random()\<close> draw in
  [0, 1), and rounding to two decimals keeps the bounds.
\<close>

theorem get_status_confidence_bounds:
  assumes "0 \<le> r" and "r < 1"
  shows "\<exists>c. py_get (get_status now r s) ''confidence'' = Inr (JFloat c) \<and> 17/20 \<le> c \<and> c \<le> 1"
proof -
  have "17/20 \<le> py_uniform (85/100) 1 r" "py_uniform (85/100) 1 r \<le> 1"
    using assms by (simp_all add: py_uniform_def)
  then have "of_int 85 / 100 \<le> py_uniform (85/100) 1 r" "py_uniform (85/100) 1 r \<le> of_int 100 / 100"
    by simp_all
  then have "of_int 85 / 100 \<le> py_round2 (py_uniform (85/100) 1 r) \<and>
             py_round2 (py_uniform (85/100) 1 r) \<le> of_int 100 / 100"
    by (rule py_round2_bounds)
  then show ?thesis by (simp add: get_status_get)
qed

theorem get_status_confidence_bounds_witness:
  "(0 :: real) \<le> 1/2 \<and> (1/2 :: real) < 1 \<and>
   (\<exists>c. py_get (get_status ''2025-01-01T10:00:00'' (1/2) (new_sensor 1 ''Zone_A'')) ''confidence''
          = Inr (JFloat c) \<and> 17/20 \<le> c \<and> c \<le> 1)"
  using get_status_confidence_bounds [of "1/2"] by simp

end
