(* ===== verification/Simulator.thy ===== *)
theory Simulator
  imports Sensor
begin

text \<open>
  The fleet simulator: \<open>ParkingSystem\<close> of \<open>src/sensors/sensor_simulator.py\<close>
  and its main program. The MQTT client is a record of the flags the code
  drives (\<open>loop_start\<close>/\<open>loop_stop\<close>, \<open>connect\<close>/\<open>disconnect\<close>) and of the
  messages it accepted for delivery. Everything the environment decides is an
  input: the \<open>random.choice\<close> of each new sensor, and for every tick the
  \<open>random.random()\<close> draw of each sensor, the clock, the confidence draw and
  the return code of each \<open>publish\<close>, the time elapsed after the sleep, and
  whether Ctrl+C arrives during the sleep.
\<close>

record mqtt_client =
  connected :: bool
  loop_running :: bool
  disconnects :: nat
  outbox :: "mqtt_msg list"

record parking_system =
  client :: mqtt_client
  sensors :: "sensor list"

text \<open>
  The environment of one \<open>publish\<close> call, and of one tick of the loop.
  \<open>pub_conf\<close> is the \<open>random()\<close> draw behind \<open>get_status\<close>'s confidence;
  \<open>pub_ok\<close> is whether \<open>publish\<close> returned \<open>MQTT_ERR_SUCCESS\<close>, and a
  publish that did not is modelled as dropped (paho's queue-full case).
\<close>

record pub_env =
  pub_time :: iso_time
  pub_conf :: real
  pub_ok :: bool

record tick_env =
  draw :: "nat \<Rightarrow> real"
  status_pub :: "nat \<Rightarrow> pub_env"
  summary_pub :: pub_env
  elapsed :: real
  interrupted :: bool

datatype loop_exit = DurationElapsed | Interrupted

text \<open>
  Outcome of \<open>run_simulation\<close>: still in the loop after the ticks the
  environment supplied, left the loop (and ran the \<open>finally\<close> clause), or an
  exception escaped with the state at that point.
\<close>

datatype sim_result =
    Running parking_system
  | Stopped loop_exit parking_system
  | Raised exc parking_system

section \<open>Construction and connection\<close>

definition init_client :: mqtt_client where
  "init_client = \<lparr>connected = False, loop_running = False, disconnects = 0, outbox = []\<rparr>"

definition init_system :: parking_system where
  "init_system = \<lparr>client = init_client, sensors = []\<rparr>"

text \<open>
  \<open>create_parking_lot\<close>: for each zone in the dictionary's order, places
  \<open>1 .. num_places\<close> (none when \<open>num_places < 1\<close>); the initial occupancy of
  the sensor created when \<open>sensor_count = k\<close> is the coin \<open>coin k\<close>.
\<close>

definition zone_sensors :: "(nat \<Rightarrow> bool) \<Rightarrow> zone \<Rightarrow> int \<Rightarrow> nat \<Rightarrow> sensor list" where
  "zone_sensors coin z n k =
     map (\<lambda>i. (new_sensor i z)\<lparr>is_occupied := coin (k + nat (i - 1))\<rparr>) [1..n]"

fun create_sensors :: "(nat \<Rightarrow> bool) \<Rightarrow> (zone \<times> int) list \<Rightarrow> nat \<Rightarrow> sensor list" where
  "create_sensors coin [] k = []"
| "create_sensors coin ((z, n) # cfg) k = zone_sensors coin z n k @ create_sensors coin cfg (k + nat n)"

definition create_parking_lot ::
  "(nat \<Rightarrow> bool) \<Rightarrow> (zone \<times> int) list \<Rightarrow> parking_system \<Rightarrow> parking_system" where
  "create_parking_lot coin cfg ps = ps\<lparr>sensors := sensors ps @ create_sensors coin cfg 0\<rparr>"

text \<open>\<open>connect\<close>: a failing \<open>client.connect\<close> ends the process (\<open>exit(1)\<close>).\<close>

definition connect :: "bool \<Rightarrow> parking_system \<Rightarrow> exc + parking_system" where
  "connect ok ps =
     (if ok then Inr (ps\<lparr>client := (client ps)\<lparr>connected := True, loop_running := True\<rparr>\<rparr>)
      else Inl ConnectError)"

section \<open>Publishing\<close>

definition publish :: "bool \<Rightarrow> topic \<Rightarrow> json \<Rightarrow> mqtt_client \<Rightarrow> mqtt_client" where
  "publish ok t j c = (if ok then c\<lparr>outbox := outbox c @ [deliver t j]\<rparr> else c)"

definition publish_status :: "pub_env \<Rightarrow> sensor \<Rightarrow> mqtt_client \<Rightarrow> bool \<times> mqtt_client" where
  "publish_status pe s c =
     (pub_ok pe, publish (pub_ok pe) (sensor_topic s) (get_status (pub_time pe) (pub_conf pe) s) c)"

definition count_occupied :: "sensor list \<Rightarrow> nat" where
  "count_occupied ss = length (filter is_occupied ss)"

definition summary_json :: "iso_time \<Rightarrow> sensor list \<Rightarrow> json" where
  "summary_json now ss =
     (let total = int (length ss); occ = int (count_occupied ss) in
      JObj [(''total_places'', JInt total),
            (''occupied'', JInt occ),
            (''free'', JInt (total - occ)),
            (''occupancy_rate'', JFloat (py_round2 (of_int occ / of_int total * 100))),
            (''timestamp'', JStr now)])"

text \<open>
  \<open>publish_summary\<close>: the division \<open>occupied / total\<close> raises
  \<open>ZeroDivisionError\<close> on an empty fleet before anything is published; the
  return code of the summary's \<open>publish\<close> is not looked at.
\<close>

definition publish_summary :: "pub_env \<Rightarrow> parking_system \<Rightarrow> exc + parking_system" where
  "publish_summary pe ps =
     (if sensors ps = [] then Inl ZeroDivisionError
      else Inr (ps\<lparr>client := publish (pub_ok pe) summary_topic
                                (summary_json (pub_time pe) (sensors ps)) (client ps)\<rparr>))"

section \<open>The simulation loop\<close>

text \<open>
  The initial \<open>for sensor in self.sensors: self.publish_status(sensor)\<close>,
  sensor \<open>i\<close> of the fleet with environment \<open>pe i\<close>.
\<close>

fun publish_all :: "(nat \<Rightarrow> pub_env) \<Rightarrow> nat \<Rightarrow> sensor list \<Rightarrow> mqtt_client \<Rightarrow> mqtt_client" where
  "publish_all pe i [] c = c"
| "publish_all pe i (s # ss) c = publish_all pe (Suc i) ss (snd (publish_status (pe i) s c))"

text \<open>
  The inner loop of one tick: every sensor, in fleet order, draws; a changed
  sensor is published, and \<open>changes\<close> counts the publishes that succeeded.
\<close>

fun check_sensors ::
  "tick_env \<Rightarrow> nat \<Rightarrow> sensor list \<Rightarrow> mqtt_client \<Rightarrow> sensor list \<times> mqtt_client \<times> nat" where
  "check_sensors te i [] c = ([], c, 0)"
| "check_sensors te i (s # ss) c =
     (let (changed, s') = detect_change (draw te i) s in
      if changed then
        (let (ok, c') = publish_status (status_pub te i) s' c;
             (ss', c'', n) = check_sensors te (Suc i) ss c'
         in (s' # ss', c'', if ok then Suc n else n))
      else
        (let (ss', c'', n) = check_sensors te (Suc i) ss c
         in (s' # ss', c'', n)))"

text \<open>One iteration of \<open>while True\<close> up to the sleep.\<close>

definition tick :: "tick_env \<Rightarrow> parking_system \<Rightarrow> (exc \<times> parking_system) + parking_system" where
  "tick te ps =
     (let (ss', c', n) = check_sensors te 0 (sensors ps) (client ps);
          ps' = ps\<lparr>sensors := ss', client := c'\<rparr>
      in if 0 < n then
           (case publish_summary (summary_pub te) ps' of Inl e \<Rightarrow> Inl (e, ps') | Inr ps'' \<Rightarrow> Inr ps'')
         else Inr ps')"

text \<open>
  \<open>if duration_seconds and elapsed >= duration_seconds\<close>: Python's truth test
  makes both \<open>None\<close> and \<open>0\<close> mean "no limit".
\<close>

definition duration_hit :: "real option \<Rightarrow> real \<Rightarrow> bool" where
  "duration_hit dur t = (case dur of None \<Rightarrow> False | Some d \<Rightarrow> d \<noteq> 0 \<and> d \<le> t)"

fun run_loop :: "real option \<Rightarrow> tick_env list \<Rightarrow> parking_system \<Rightarrow> sim_result" where
  "run_loop dur [] ps = Running ps"
| "run_loop dur (te # tes) ps =
     (case tick te ps of
        Inl (e, ps') \<Rightarrow> Raised e ps'
      | Inr ps' \<Rightarrow>
          if interrupted te then Stopped Interrupted ps'
          else if duration_hit dur (elapsed te) then Stopped DurationElapsed ps'
          else run_loop dur tes ps')"

definition cleanup :: "parking_system \<Rightarrow> parking_system" where
  "cleanup ps =
     ps\<lparr>client := (client ps)\<lparr>loop_running := False, connected := False,
                              disconnects := Suc (disconnects (client ps))\<rparr>\<rparr>"

text \<open>
  \<open>run_simulation\<close>: the initial publishes and summary run before the
  \<open>try\<close>; the \<open>finally\<close> clause runs \<open>cleanup\<close> on every exit of the loop,
  normal, by Ctrl+C, or by an exception that then propagates.
\<close>

definition run_simulation ::
  "(nat \<Rightarrow> pub_env) \<Rightarrow> pub_env \<Rightarrow> real option \<Rightarrow> tick_env list \<Rightarrow> parking_system \<Rightarrow> sim_result" where
  "run_simulation pe0 se0 dur tes ps =
     (let ps1 = ps\<lparr>client := publish_all pe0 0 (sensors ps) (client ps)\<rparr> in
      case publish_summary se0 ps1 of
        Inl e \<Rightarrow> Raised e ps1
      | Inr ps2 \<Rightarrow>
          (case run_loop dur tes ps2 of
             Running ps3 \<Rightarrow> Running ps3
           | Stopped x ps3 \<Rightarrow> Stopped x (cleanup ps3)
           | Raised e ps3 \<Rightarrow> Raised e (cleanup ps3)))"

text \<open>The main program: the three zones of the source, then connect, then run.\<close>

definition default_zones :: "(zone \<times> int) list" where
  "default_zones = [(''Zone_A'', 8), (''Zone_B'', 6), (''Zone_C'', 10)]"

definition simulator_main ::
  "(nat \<Rightarrow> bool) \<Rightarrow> bool \<Rightarrow> (nat \<Rightarrow> pub_env) \<Rightarrow> pub_env \<Rightarrow> tick_env list \<Rightarrow> sim_result" where
  "simulator_main coin conn_ok pe0 se0 tes =
     (let ps1 = create_parking_lot coin default_zones init_system in
      case connect conn_ok ps1 of
        Inl e \<Rightarrow> Raised e ps1
      | Inr ps2 \<Rightarrow> run_simulation pe0 se0 None tes ps2)"

text \<open>A sensor is well formed when its topic is the one its identity gives.\<close>

definition wf_sensor :: "sensor \<Rightarrow> bool" where
  "wf_sensor s \<longleftrightarrow> sensor_topic s = sensor_topic_of (sensor_zone s) (sensor_id s)"

text \<open>The system state a run ends in, whatever the outcome.\<close>

fun sim_state :: "sim_result \<Rightarrow> parking_system" where
  "sim_state (Running ps) = ps"
| "sim_state (Stopped x ps) = ps"
| "sim_state (Raised e ps) = ps"

section \<open>Lemmas: one tick\<close>

lemmas tick_unfold = detect_change_def publish_status_def publish_def Let_def split_def

lemma check_sensors_sensors:
  "fst (check_sensors te i ss c) = map (\<lambda>(j, s). snd (detect_change (draw te j) s)) (zip [i..<i + length ss] ss)"
proof (induction ss arbitrary: i c)
  case Nil
  then show ?case by simp
next
  case (Cons s ss)
  have "[i..<i + length (s # ss)] = i # [Suc i..<Suc i + length ss]"
    by (simp add: upt_conv_Cons del: upt_Suc)
  with Cons.IH show ?case by (simp add: tick_unfold)
qed

lemma check_sensors_length [simp]: "length (fst (check_sensors te i ss c)) = length ss"
  by (simp add: check_sensors_sensors)

lemma check_sensors_ident:
  "map sensor_ident (fst (check_sensors te i ss c)) = map sensor_ident ss"
proof -
  have "map sensor_ident (map (\<lambda>(j, s). snd (detect_change (draw te j) s)) (zip js ss)) =
        map sensor_ident ss" if "length js = length ss" for js
    using that by (induction js ss rule: list_induct2) auto
  then show ?thesis by (simp add: check_sensors_sensors)
qed

lemma check_sensors_count:
  "snd (snd (check_sensors te i ss c)) =
     length (filter (\<lambda>j. draw te j < 1/10 \<and> pub_ok (status_pub te j)) [i..<i + length ss])"
proof (induction ss arbitrary: i c)
  case Nil
  then show ?case by simp
next
  case (Cons s ss)
  have "[i..<i + length (s # ss)] = i # [Suc i..<Suc i + length ss]"
    by (simp add: upt_conv_Cons del: upt_Suc)
  with Cons.IH show ?case by (simp add: tick_unfold)
qed

text \<open>
  The inner loop appends only status messages, each on the topic of a sensor
  whose publish succeeded.
\<close>

lemma check_sensors_appends:
  "\<exists>ms. outbox (fst (snd (check_sensors te i ss c))) = outbox c @ ms \<and>
        (\<forall>m \<in> set ms. \<exists>k < length ss. msg_topic m = sensor_topic (ss ! k) \<and> pub_ok (status_pub te (i + k)))"
proof (induction ss arbitrary: i c)
  case Nil
  then show ?case by simp
next
  case (Cons s ss)
  let ?s' = "snd (detect_change (draw te i) s)"
  let ?c' = "snd (publish_status (status_pub te i) ?s' c)"
  have shift: "\<exists>k < length (s # ss). msg_topic m = sensor_topic ((s # ss) ! k) \<and> pub_ok (status_pub te (i + k))"
    if "\<exists>k < length ss. msg_topic m = sensor_topic (ss ! k) \<and> pub_ok (status_pub te (Suc i + k))" for m
    using that by (metis Suc_less_eq add_Suc_shift length_Cons nth_Cons_Suc add_Suc_right)
  have here: "\<exists>k < length (s # ss). sensor_topic s = sensor_topic ((s # ss) ! k) \<and> pub_ok (status_pub te (i + k))"
    if "pub_ok (status_pub te i)"
    using that by (intro exI [of _ 0]) simp
  obtain ms where ms: "outbox (fst (snd (check_sensors te (Suc i) ss c))) = outbox c @ ms"
      "\<forall>m \<in> set ms. \<exists>k < length ss. msg_topic m = sensor_topic (ss ! k) \<and> pub_ok (status_pub te (Suc i + k))"
    using Cons.IH by blast
  obtain ms' where ms': "outbox (fst (snd (check_sensors te (Suc i) ss ?c'))) = outbox ?c' @ ms'"
      "\<forall>m \<in> set ms'. \<exists>k < length ss. msg_topic m = sensor_topic (ss ! k) \<and> pub_ok (status_pub te (Suc i + k))"
    using Cons.IH by blast
  show ?case
  proof (cases "draw te i < 1/10")
    case True
    then show ?thesis
      using ms' shift here by (auto simp: tick_unfold deliver_def)
  next
    case False
    then show ?thesis using ms shift by (auto simp: tick_unfold)
  qed
qed

lemma check_sensors_flags:
  "connected (fst (snd (check_sensors te i ss c))) = connected c \<and>
   loop_running (fst (snd (check_sensors te i ss c))) = loop_running c \<and>
   disconnects (fst (snd (check_sensors te i ss c))) = disconnects c"
  by (induction ss arbitrary: i c) (simp_all add: tick_unfold)

lemma wf_sensor_detect_change [simp]: "wf_sensor (snd (detect_change r s)) = wf_sensor s"
  by (simp add: wf_sensor_def detect_change_def)

lemma check_sensors_wf:
  "\<forall>s \<in> set ss. wf_sensor s \<Longrightarrow> \<forall>s \<in> set (fst (check_sensors te i ss c)). wf_sensor s"
proof -
  assume wf: "\<forall>s \<in> set ss. wf_sensor s"
  have "\<forall>s \<in> set (map (\<lambda>(j, s). snd (detect_change (draw te j) s)) (zip js ss)). wf_sensor s"
    for js :: "nat list"
    using wf by (auto dest: set_zip_rightD)
  then show ?thesis by (simp add: check_sensors_sensors)
qed

text \<open>A tick never raises: a summary is only computed after a change, so on a non-empty fleet.\<close>

lemma tick_Inr: "\<exists>ps'. tick te ps = Inr ps'"
proof -
  obtain ss' c' n where cs: "check_sensors te 0 (sensors ps) (client ps) = (ss', c', n)"
    by (cases "check_sensors te 0 (sensors ps) (client ps)") auto
  have "0 < n \<Longrightarrow> ss' \<noteq> []"
    using cs check_sensors_count [of te 0 "sensors ps" "client ps"]
      check_sensors_length [of te 0 "sensors ps" "client ps"] by auto
  then show ?thesis
    using cs by (auto simp: tick_def publish_summary_def Let_def)
qed

lemma tick_cases:
  assumes "tick te ps = Inr ps'"
  obtains ss' c' n where "check_sensors te 0 (sensors ps) (client ps) = (ss', c', n)"
    and "sensors ps' = ss'"
    and "0 < n \<Longrightarrow> ss' \<noteq> [] \<and> client ps' = publish (pub_ok (summary_pub te)) summary_topic
                                     (summary_json (pub_time (summary_pub te)) ss') c'"
    and "\<not> 0 < n \<Longrightarrow> client ps' = c'"
proof -
  obtain ss' c' n where cs: "check_sensors te 0 (sensors ps) (client ps) = (ss', c', n)"
    by (cases "check_sensors te 0 (sensors ps) (client ps)") auto
  have ne: "0 < n \<Longrightarrow> ss' \<noteq> []"
    using cs check_sensors_count [of te 0 "sensors ps" "client ps"]
      check_sensors_length [of te 0 "sensors ps" "client ps"] by auto
  show ?thesis
    by (rule that [OF cs]) (use assms cs ne in \<open>auto simp: tick_def publish_summary_def Let_def split: if_splits\<close>)
qed

lemma tick_ident:
  "tick te ps = Inr ps' \<Longrightarrow> map sensor_ident (sensors ps') = map sensor_ident (sensors ps)"
  by (erule tick_cases) (metis check_sensors_ident fst_conv)

lemma publish_flags [simp]:
  "connected (publish ok t j c) = connected c"
  "loop_running (publish ok t j c) = loop_running c"
  "disconnects (publish ok t j c) = disconnects c"
  by (simp_all add: publish_def)

lemma tick_flags:
  "tick te ps = Inr ps' \<Longrightarrow>
   connected (client ps') = connected (client ps) \<and>
   loop_running (client ps') = loop_running (client ps) \<and>
   disconnects (client ps') = disconnects (client ps)"
  by (erule tick_cases) (metis check_sensors_flags fst_conv snd_conv publish_flags)

section \<open>Lemmas: the loop and the run\<close>

lemma run_loop_preserves:
  "map sensor_ident (sensors (sim_state (run_loop dur tes ps))) = map sensor_ident (sensors ps) \<and>
   connected (client (sim_state (run_loop dur tes ps))) = connected (client ps) \<and>
   loop_running (client (sim_state (run_loop dur tes ps))) = loop_running (client ps) \<and>
   disconnects (client (sim_state (run_loop dur tes ps))) = disconnects (client ps)"
proof (induction tes arbitrary: ps)
  case Nil
  then show ?case by simp
next
  case (Cons te tes)
  obtain ps1 where t: "tick te ps = Inr ps1" using tick_Inr by blast
  from tick_ident [OF t] tick_flags [OF t] Cons.IH [of ps1] show ?case
    using t by simp
qed

lemma publish_all_flags:
  "connected (publish_all pe i ss c) = connected c \<and>
   loop_running (publish_all pe i ss c) = loop_running c \<and>
   disconnects (publish_all pe i ss c) = disconnects c"
  by (induction ss arbitrary: i c) (simp_all add: publish_status_def)

lemma publish_summary_Inr:
  "publish_summary pe ps = Inr ps' \<Longrightarrow>
   sensors ps' = sensors ps \<and> connected (client ps') = connected (client ps) \<and>
   loop_running (client ps') = loop_running (client ps) \<and>
   disconnects (client ps') = disconnects (client ps)"
  by (auto simp: publish_summary_def split: if_splits)

lemma zone_sensors_pairs:
  "map (\<lambda>s. (sensor_zone s, sensor_id s)) (zone_sensors coin z n k) = map (Pair z) [1..n]"
  by (simp add: zone_sensors_def new_sensor_def)

lemma create_sensors_wf: "\<forall>s \<in> set (create_sensors coin cfg k). wf_sensor s"
  by (induction coin cfg k rule: create_sensors.induct)
     (auto simp: zone_sensors_def new_sensor_def wf_sensor_def)

lemma distinct_zone_pairs:
  "distinct (map fst cfg) \<Longrightarrow> distinct (concat (map (\<lambda>(z, n). map (Pair z) [1..n]) cfg))"
  by (induction cfg) (force simp: distinct_map inj_on_def)+

lemma run_simulation_cases:
  obtains (crash) "sensors ps = []" and "run_simulation pe0 se0 dur tes ps = Raised ZeroDivisionError ps"
  | (loop) ps2 where "sensors ps \<noteq> []"
      and "sensors ps2 = sensors ps"
      and "connected (client ps2) = connected (client ps)"
      and "loop_running (client ps2) = loop_running (client ps)"
      and "disconnects (client ps2) = disconnects (client ps)"
      and "run_simulation pe0 se0 dur tes ps =
             (case run_loop dur tes ps2 of
                Running ps3 \<Rightarrow> Running ps3
              | Stopped x ps3 \<Rightarrow> Stopped x (cleanup ps3)
              | Raised e ps3 \<Rightarrow> Raised e (cleanup ps3))"
proof (cases "sensors ps = []")
  case True
  then show ?thesis
    by (intro crash) (simp_all add: run_simulation_def publish_summary_def)
next
  case False
  let ?ps1 = "ps\<lparr>client := publish_all pe0 0 (sensors ps) (client ps)\<rparr>"
  obtain ps2 where ps2: "publish_summary se0 ?ps1 = Inr ps2"
    using False by (simp add: publish_summary_def)
  show ?thesis
  proof (rule loop)
    show "sensors ps \<noteq> []" by (rule False)
    show "sensors ps2 = sensors ps"
      "connected (client ps2) = connected (client ps)"
      "loop_running (client ps2) = loop_running (client ps)"
      "disconnects (client ps2) = disconnects (client ps)"
      using publish_summary_Inr [OF ps2] publish_all_flags [of pe0 0 "sensors ps" "client ps"]
      by simp_all
    show "run_simulation pe0 se0 dur tes ps =
        (case run_loop dur tes ps2 of
           Running ps3 \<Rightarrow> Running ps3
         | Stopped x ps3 \<Rightarrow> Stopped x (cleanup ps3)
         | Raised e ps3 \<Rightarrow> Raised e (cleanup ps3))"
      using ps2 by (simp add: run_simulation_def)
  qed
qed

section \<open>Properties\<close>

text \<open>
  \<open>create_parking_lot\<close> lays the fleet out as the configuration says: for
  each zone in the dictionary's order, places \<open>1 .. n\<close> of that zone.
\<close>

lemma create_sensors_layout:
  "map (\<lambda>s. (sensor_zone s, sensor_id s)) (create_sensors coin cfg k) =
   concat (map (\<lambda>(z, n). map (Pair z) [1..n]) cfg)"
  by (induction coin cfg k rule: create_sensors.induct) (simp_all add: zone_sensors_pairs)

text \<open>
  C14. A fleet created from a dictionary of zones has pairwise distinct topics,
  so no two sensors overwrite each other's retained status.
\<close>

theorem create_sensors_topics_distinct:
  assumes "distinct (map fst cfg)"
  shows "distinct (map sensor_topic (create_sensors coin cfg k))"
proof -
  let ?ss = "create_sensors coin cfg k"
  let ?pair = "\<lambda>s. (sensor_zone s, sensor_id s)"
  have eq: "map sensor_topic ?ss = map (\<lambda>(z, i). sensor_topic_of z i) (map ?pair ?ss)"
    using create_sensors_wf [of coin cfg k] by (auto simp: wf_sensor_def)
  have d: "distinct (map ?pair ?ss)"
    using distinct_zone_pairs [OF assms] by (simp add: create_sensors_layout)
  have inj: "inj_on (\<lambda>(z, i). sensor_topic_of z i) (set (map ?pair ?ss))"
    by (auto simp: inj_on_def dest: sensor_topic_of_inj)
  have "distinct (map (\<lambda>(z, i). sensor_topic_of z i) (map ?pair ?ss))"
    by (rule distinct_map [THEN iffD2]) (use d inj in blast)
  then show ?thesis by (simp only: eq)
qed

theorem create_sensors_topics_distinct_witness:
  "distinct (map fst default_zones) \<and> distinct (map sensor_topic (create_sensors (\<lambda>_. False) default_zones 0))"
proof -
  have d: "distinct (map fst default_zones)" by (simp add: default_zones_def)
  show ?thesis using d create_sensors_topics_distinct [OF d] by simp
qed



text \<open>
  C18. With no duration (\<open>None\<close>, or \<open>0\<close>, which Python's truth test reads the
  same way) and no Ctrl+C, the loop never leaves: after any number of ticks it
  is still running.
\<close>

theorem run_loop_no_limit_runs:
  assumes "dur = None \<or> dur = Some 0" and "\<forall>te \<in> set tes. \<not> interrupted te"
  shows "\<exists>ps'. run_loop dur tes ps = Running ps'"
  using assms(2)
proof (induction tes arbitrary: ps)
  case Nil
  then show ?case by simp
next
  case (Cons te tes)
  obtain ps1 where "tick te ps = Inr ps1" using tick_Inr by blast
  moreover have "\<not> duration_hit dur (elapsed te)"
    using assms(1) by (auto simp: duration_hit_def)
  ultimately show ?case using Cons by simp
qed

theorem run_loop_no_limit_runs_witness:
  "(Some (0::real) = None \<or> Some (0::real) = Some 0) \<and>
   \<not> interrupted \<lparr>draw = \<lambda>_. 1, status_pub = \<lambda>_. \<lparr>pub_time = ''t'', pub_conf = 1, pub_ok = True\<rparr>,
                 summary_pub = \<lparr>pub_time = ''t'', pub_conf = 1, pub_ok = True\<rparr>, elapsed = 1000, interrupted = False\<rparr> \<and>
   (\<exists>ps'. run_loop (Some 0) [\<lparr>draw = \<lambda>_. 1, status_pub = \<lambda>_. \<lparr>pub_time = ''t'', pub_conf = 1, pub_ok = True\<rparr>,
                 summary_pub = \<lparr>pub_time = ''t'', pub_conf = 1, pub_ok = True\<rparr>, elapsed = 1000, interrupted = False\<rparr>]
                 init_system = Running ps')"
  using run_loop_no_limit_runs [of "Some 0"
      "[\<lparr>draw = \<lambda>_. 1, status_pub = \<lambda>_. \<lparr>pub_time = ''t'', pub_conf = 1, pub_ok = True\<rparr>,
         summary_pub = \<lparr>pub_time = ''t'', pub_conf = 1, pub_ok = True\<rparr>, elapsed = 1000, interrupted = False\<rparr>]"
      init_system]
  by simp

text \<open>
  C17. With a non-zero duration, the loop leaves as soon as a tick ends past the
  duration or is interrupted: it cannot keep running through such a tick.
\<close>

theorem run_loop_stops:
  assumes "d \<noteq> 0" and "\<exists>te \<in> set tes. d \<le> elapsed te \<or> interrupted te"
  shows "\<exists>x ps'. run_loop (Some d) tes ps = Stopped x ps'"
  using assms(2)
proof (induction tes arbitrary: ps)
  case Nil
  then show ?case by simp
next
  case (Cons te tes)
  obtain ps1 where t: "tick te ps = Inr ps1" using tick_Inr by blast
  show ?case
  proof (cases "d \<le> elapsed te \<or> interrupted te")
    case True
    with t assms(1) show ?thesis by (auto simp: duration_hit_def)
  next
    case False
    with Cons.prems have "\<exists>te \<in> set tes. d \<le> elapsed te \<or> interrupted te" by auto
    with Cons.IH [of ps1] False t assms(1) show ?thesis by (auto simp: duration_hit_def)
  qed
qed

theorem run_loop_stops_witness:
  "(60::real) \<noteq> 0 \<and>
   (\<exists>te \<in> set [\<lparr>draw = \<lambda>_. 1, status_pub = \<lambda>_. \<lparr>pub_time = ''t'', pub_conf = 1, pub_ok = True\<rparr>,
                 summary_pub = \<lparr>pub_time = ''t'', pub_conf = 1, pub_ok = True\<rparr>, elapsed = 61, interrupted = False\<rparr>].
      60 \<le> elapsed te \<or> interrupted te) \<and>
   (\<exists>x ps'. run_loop (Some 60) [\<lparr>draw = \<lambda>_. 1, status_pub = \<lambda>_. \<lparr>pub_time = ''t'', pub_conf = 1, pub_ok = True\<rparr>,
                 summary_pub = \<lparr>pub_time = ''t'', pub_conf = 1, pub_ok = True\<rparr>, elapsed = 61, interrupted = False\<rparr>]
                 init_system = Stopped x ps')"
  using run_loop_stops [of 60
      "[\<lparr>draw = \<lambda>_. 1, status_pub = \<lambda>_. \<lparr>pub_time = ''t'', pub_conf = 1, pub_ok = True\<rparr>,
         summary_pub = \<lparr>pub_time = ''t'', pub_conf = 1, pub_ok = True\<rparr>, elapsed = 61, interrupted = False\<rparr>]"
      init_system]
  by simp

text \<open>
  C8. Whenever the simulation leaves its loop, by duration or by Ctrl+C, the
  \<open>finally\<close> clause has run \<open>cleanup\<close> exactly once: one more disconnect
  than before the run, and the client is disconnected with its network loop
  stopped.
\<close>

theorem run_simulation_cleanup_once:
  assumes "run_simulation pe0 se0 dur tes ps = Stopped x ps'"
  shows "disconnects (client ps') = Suc (disconnects (client ps)) \<and>
         \<not> connected (client ps') \<and> \<not> loop_running (client ps')"
proof (cases rule: run_simulation_cases [of ps pe0 se0 dur tes])
  case crash
  with assms show ?thesis by simp
next
  case (loop ps2)
  from loop(6) assms obtain ps3 where r: "run_loop dur tes ps2 = Stopped x ps3" and "ps' = cleanup ps3"
    by (auto split: sim_result.splits)
  moreover have "disconnects (client ps3) = disconnects (client ps2)"
    using run_loop_preserves [of dur tes ps2] r by simp
  ultimately show ?thesis using loop(5) by (simp add: cleanup_def)
qed

theorem run_simulation_cleanup_once_witness:
  "run_simulation (\<lambda>_. \<lparr>pub_time = ''t'', pub_conf = 1, pub_ok = True\<rparr>)
      \<lparr>pub_time = ''t'', pub_conf = 1, pub_ok = True\<rparr> None
      [\<lparr>draw = \<lambda>_. 1, status_pub = \<lambda>_. \<lparr>pub_time = ''t'', pub_conf = 1, pub_ok = True\<rparr>,
        summary_pub = \<lparr>pub_time = ''t'', pub_conf = 1, pub_ok = True\<rparr>, elapsed = 2, interrupted = True\<rparr>]
      \<lparr>client = init_client\<lparr>connected := True, loop_running := True\<rparr>, sensors = [new_sensor 1 ''Zone_A'']\<rparr> =
    Stopped Interrupted
      (sim_state (run_simulation (\<lambda>_. \<lparr>pub_time = ''t'', pub_conf = 1, pub_ok = True\<rparr>)
      \<lparr>pub_time = ''t'', pub_conf = 1, pub_ok = True\<rparr> None
      [\<lparr>draw = \<lambda>_. 1, status_pub = \<lambda>_. \<lparr>pub_time = ''t'', pub_conf = 1, pub_ok = True\<rparr>,
        summary_pub = \<lparr>pub_time = ''t'', pub_conf = 1, pub_ok = True\<rparr>, elapsed = 2, interrupted = True\<rparr>]
      \<lparr>client = init_client\<lparr>connected := True, loop_running := True\<rparr>, sensors = [new_sensor 1 ''Zone_A'']\<rparr>)) \<and>
   disconnects (client (sim_state (run_simulation (\<lambda>_. \<lparr>pub_time = ''t'', pub_conf = 1, pub_ok = True\<rparr>)
      \<lparr>pub_time = ''t'', pub_conf = 1, pub_ok = True\<rparr> None
      [\<lparr>draw = \<lambda>_. 1, status_pub = \<lambda>_. \<lparr>pub_time = ''t'', pub_conf = 1, pub_ok = True\<rparr>,
        summary_pub = \<lparr>pub_time = ''t'', pub_conf = 1, pub_ok = True\<rparr>, elapsed = 2, interrupted = True\<rparr>]
      \<lparr>client = init_client\<lparr>connected := True, loop_running := True\<rparr>, sensors = [new_sensor 1 ''Zone_A'']\<rparr>))) = 1"
proof -
  let ?pe = "\<lparr>pub_time = ''t'', pub_conf = 1, pub_ok = True\<rparr> :: pub_env"
  let ?te = "\<lparr>draw = \<lambda>_. 1, status_pub = \<lambda>_. ?pe, summary_pub = ?pe, elapsed = 2, interrupted = True\<rparr>"
  let ?ps = "\<lparr>client = init_client\<lparr>connected := True, loop_running := True\<rparr>, sensors = [new_sensor 1 ''Zone_A'']\<rparr>"
  let ?r = "run_simulation (\<lambda>_. ?pe) ?pe None [?te] ?ps"
  have h: "?r = Stopped Interrupted (sim_state ?r)"
    by (simp add: run_simulation_def publish_summary_def tick_def detect_change_def
        publish_status_def publish_def)
  have "disconnects (client (sim_state ?r)) = Suc (disconnects (client ?ps))"
    using run_simulation_cleanup_once [OF h] by simp
  with h show ?thesis by (simp add: init_client_def)
qed

text \<open>
  C25. On an empty fleet \<open>run_simulation\<close> raises \<open>ZeroDivisionError\<close> from
  the initial \<open>publish_summary\<close>, which is called before the \<open>try\<close>: the
  exception escapes with the state as it was, so \<open>cleanup\<close> never runs and
  the client stays connected with its network loop running.
\<close>

theorem run_simulation_empty_fleet:
  assumes "sensors ps = []"
  shows "run_simulation pe0 se0 dur tes ps = Raised ZeroDivisionError ps"
  using assms by (simp add: run_simulation_def publish_summary_def)

theorem run_simulation_empty_fleet_witness:
  "sensors \<lparr>client = init_client\<lparr>connected := True, loop_running := True\<rparr>, sensors = []\<rparr> = [] \<and>
   run_simulation (\<lambda>_. \<lparr>pub_time = ''t'', pub_conf = 0, pub_ok = True\<rparr>) \<lparr>pub_time = ''t'', pub_conf = 0, pub_ok = True\<rparr>
     None [] \<lparr>client = init_client\<lparr>connected := True, loop_running := True\<rparr>, sensors = []\<rparr> =
   Raised ZeroDivisionError \<lparr>client = init_client\<lparr>connected := True, loop_running := True\<rparr>, sensors = []\<rparr>"
proof -
  have h: "sensors \<lparr>client = init_client\<lparr>connected := True, loop_running := True\<rparr>, sensors = []\<rparr> = []" by simp
  show ?thesis using h run_simulation_empty_fleet [OF h] by blast
qed

text \<open>
  C7. The flip rule over a whole run: \<open>detect_change\<close> flips a sensor
  exactly when its draw is below 0.1, and nothing else changes its
  occupancy, so after a run that is still in its loop each place is occupied
  exactly when it started occupied and an even number of its draws were
  below 0.1, or it started free and an odd number were.
\<close>

theorem run_loop_flips:
  assumes "run_loop dur tes ps = Running ps'"
  shows "length (sensors ps') = length (sensors ps) \<and>
         (\<forall>j < length (sensors ps). is_occupied (sensors ps' ! j) =
            (is_occupied (sensors ps ! j) \<noteq> odd (length (filter (\<lambda>te. draw te j < 1/10) tes))))"
  using assms
proof (induction tes arbitrary: ps)
  case Nil
  then show ?case by simp
next
  case (Cons te tes)
  obtain ps1 where t: "tick te ps = Inr ps1" and r: "run_loop dur tes ps1 = Running ps'"
    using Cons.prems by (auto split: sum.splits if_splits)
  obtain ss' c' n where cs: "check_sensors te 0 (sensors ps) (client ps) = (ss', c', n)"
    and ss: "sensors ps1 = ss'"
    using tick_cases [OF t] by metis
  have "ss' = map (\<lambda>(j, s). snd (detect_change (draw te j) s)) (zip [0..<length (sensors ps)] (sensors ps))"
    using check_sensors_sensors [of te 0 "sensors ps" "client ps"] cs by simp
  then have "length (sensors ps1) = length (sensors ps) \<and>
      (\<forall>j < length (sensors ps). is_occupied (sensors ps1 ! j) = (is_occupied (sensors ps ! j) \<noteq> (draw te j < 1/10)))"
    using ss by (simp add: detect_change_def)
  then show ?case
    using Cons.IH [OF r] by auto
qed

theorem run_loop_flips_witness:
  "\<exists>ps'. run_loop None
      [\<lparr>draw = \<lambda>_. 0, status_pub = \<lambda>_. \<lparr>pub_time = ''t'', pub_conf = 1, pub_ok = True\<rparr>,
        summary_pub = \<lparr>pub_time = ''t'', pub_conf = 1, pub_ok = True\<rparr>, elapsed = 2, interrupted = False\<rparr>,
       \<lparr>draw = \<lambda>_. 0, status_pub = \<lambda>_. \<lparr>pub_time = ''t'', pub_conf = 1, pub_ok = True\<rparr>,
        summary_pub = \<lparr>pub_time = ''t'', pub_conf = 1, pub_ok = True\<rparr>, elapsed = 4, interrupted = False\<rparr>]
      \<lparr>client = init_client, sensors = [new_sensor 1 ''Zone_A'']\<rparr> = Running ps' \<and>
    \<not> is_occupied (sensors ps' ! 0)"
proof -
  obtain ps' where r: "run_loop None
      [\<lparr>draw = \<lambda>_. 0, status_pub = \<lambda>_. \<lparr>pub_time = ''t'', pub_conf = 1, pub_ok = True\<rparr>,
        summary_pub = \<lparr>pub_time = ''t'', pub_conf = 1, pub_ok = True\<rparr>, elapsed = 2, interrupted = False\<rparr>,
       \<lparr>draw = \<lambda>_. 0, status_pub = \<lambda>_. \<lparr>pub_time = ''t'', pub_conf = 1, pub_ok = True\<rparr>,
        summary_pub = \<lparr>pub_time = ''t'', pub_conf = 1, pub_ok = True\<rparr>, elapsed = 4, interrupted = False\<rparr>]
      \<lparr>client = init_client, sensors = [new_sensor 1 ''Zone_A'']\<rparr> = Running ps'"
    by (simp add: tick_def detect_change_def publish_status_def publish_summary_def duration_hit_def)
  show ?thesis
    using r run_loop_flips [OF r] by (simp add: new_sensor_def)
qed

end
