(* ===== verification/Bus.thy ===== *)
theory Bus
  imports Values
begin

text \<open>
  The MQTT broker between the two programs, as far as their code relies on
  it. Neither program implements it: the broker is the environment, and this
  theory states the part of the MQTT 3.1.1 standard the code depends on.
  \<^item> Topic filters (section 4.7): a topic is a list of levels separated by
    \<open>/\<close>; in a filter \<open>+\<close> matches one level and a final \<open>#\<close> matches the
    parent level and any number of child levels; a filter that starts with a
    wildcard does not match a topic that starts with \<open>$\<close>. The backend
    subscribes to \<open>parking/#\<close>; \<open>subscribed\<close> is what a subscription
    receives of a sequence of publications.
  \<^item> Retained messages (section 3.3.1.3): the simulator publishes with
    \<open>retain=True\<close>, so the broker keeps, per topic, the last message
    published on it and hands it to every new subscriber (the dashboard).
  \<^item> The message contract the two programs agree on: a message on
    \<open>parking/summary\<close> carries the four counts as integers and a float, any
    other message on \<open>parking/...\<close> carries a status report whose five fields
    bind to the storage classes the backend's \<open>INSERT\<close> expects. The
    simulator establishes it (theory \<open>Outbox\<close>); the backend relies on it
    (theory \<open>Ingest\<close>).
\<close>

section \<open>Topic filters\<close>

fun split_on :: "char \<Rightarrow> string \<Rightarrow> string list" where
  "split_on c [] = [[]]"
| "split_on c (x # xs) =
     (if x = c then [] # split_on c xs else (let ws = split_on c xs in (x # hd ws) # tl ws))"

definition topic_levels :: "topic \<Rightarrow> string list" where
  "topic_levels t = split_on CHR ''/'' t"

fun levels_match :: "string list \<Rightarrow> string list \<Rightarrow> bool" where
  "levels_match [] ts = (ts = [])"
| "levels_match (f # fs) ts =
     (if f = ''#'' then fs = []
      else (case ts of [] \<Rightarrow> False | t # ts' \<Rightarrow> (f = ''+'' \<or> f = t) \<and> levels_match fs ts'))"

definition topic_matches :: "topic \<Rightarrow> topic \<Rightarrow> bool" where
  "topic_matches flt t \<longleftrightarrow>
     \<not> (t \<noteq> [] \<and> hd t = CHR ''$'' \<and> flt \<noteq> [] \<and> hd flt \<in> {CHR ''#'', CHR ''+''}) \<and>
     levels_match (topic_levels flt) (topic_levels t)"

text \<open>
  The messages a client receives of a sequence of publications: none when it
  has no subscription, the matching ones in order otherwise.
\<close>

definition subscribed :: "topic option \<Rightarrow> mqtt_msg list \<Rightarrow> mqtt_msg list" where
  "subscribed sub ms = (case sub of None \<Rightarrow> [] | Some f \<Rightarrow> filter (\<lambda>m. topic_matches f (msg_topic m)) ms)"

section \<open>Retained messages\<close>

definition retained :: "mqtt_msg list \<Rightarrow> topic \<Rightarrow> payload option" where
  "retained ms t = map_option msg_payload (find (\<lambda>m. msg_topic m = t) (rev ms))"

text \<open>The \<open>status\<close> field a payload reports, when it has one.\<close>

definition payload_status :: "payload \<Rightarrow> string option" where
  "payload_status p =
     (case p of
        Utf8Text (Some j) \<Rightarrow> (case py_get j ''status'' of Inr (JStr st) \<Rightarrow> Some st | _ \<Rightarrow> None)
      | _ \<Rightarrow> None)"

section \<open>The message contract\<close>

definition status_payload_ok :: "json \<Rightarrow> bool" where
  "status_payload_ok j \<longleftrightarrow>
     map (\<lambda>k. bound_type (py_get j k)) [''zone'', ''sensor_id'', ''status'', ''confidence'', ''timestamp''] =
       map Some [TText, TInteger, TText, TReal, TText] \<and>
     py_get j ''status'' \<in> {Inr (JStr ''occupied''), Inr (JStr ''free'')}"

definition summary_payload_ok :: "json \<Rightarrow> bool" where
  "summary_payload_ok j \<longleftrightarrow>
     map (\<lambda>k. bound_type (py_subscript j k)) [''total_places'', ''occupied'', ''free'', ''occupancy_rate''] =
       map Some [TInteger, TInteger, TInteger, TReal]"

definition msg_ok :: "mqtt_msg \<Rightarrow> bool" where
  "msg_ok m \<longleftrightarrow>
     take 8 (msg_topic m) = ''parking/'' \<and>
     (case msg_payload m of
        Utf8Text (Some j) \<Rightarrow> (if msg_topic m = summary_topic then summary_payload_ok j else status_payload_ok j)
      | _ \<Rightarrow> False)"

section \<open>Lemmas\<close>

lemma split_on_nonempty [simp]: "split_on c xs \<noteq> []"
  by (induction xs) (simp_all add: Let_def)

lemma split_on_append:
  "c \<notin> set w \<Longrightarrow> split_on c (w @ c # r) = w # split_on c r"
  by (induction w) (auto simp: Let_def)

text \<open>Every topic under \<open>parking/\<close> matches the backend's filter.\<close>

lemma topic_matches_parking: "topic_matches ''parking/#'' (''parking/'' @ r)"
proof -
  have "topic_levels (''parking/'' @ r) = ''parking'' # split_on CHR ''/'' r"
    using split_on_append [of "CHR ''/''" "''parking''" r] by (simp add: topic_levels_def)
  moreover have "topic_levels ''parking/#'' = [''parking'', ''#'']"
    by (simp add: topic_levels_def)
  ultimately show ?thesis by (simp add: topic_matches_def)
qed

lemma take_parking: "take 8 t = ''parking/'' \<Longrightarrow> t = ''parking/'' @ drop 8 t"
  by (metis append_take_drop_id)

lemma bound_type_Some:
  "bound_type r = Some T \<longleftrightarrow> (\<exists>v x. r = Inr v \<and> bind v = Inr x \<and> sql_type x = T)"
  by (auto simp: bound_type_def split: sum.splits)

lemma retained_Nil [simp]: "retained [] t = None"
  by (simp add: retained_def)

lemma retained_snoc [simp]:
  "retained (ms @ [m]) t = (if msg_topic m = t then Some (msg_payload m) else retained ms t)"
  by (simp add: retained_def)

lemma retained_append_other:
  "\<forall>m \<in> set ms'. msg_topic m \<noteq> t \<Longrightarrow> retained (ms @ ms') t = retained ms t"
  by (induction ms' rule: rev_induct) (simp_all add: append_assoc [symmetric] del: append_assoc)

end
