(* ===== verification/Outbox.thy ===== *)
theory Outbox
  imports Simulator Bus
begin

text \<open>
  What the simulator leaves with the broker. Every message a run publishes is
  a status report of a sensor of the fleet or a summary of the fleet, so any
  property of single messages that holds of both kinds holds of the whole
  outbox (\<open>run_simulation_outbox\<close>); the message contract \<open>msg_ok\<close> of
  theory \<open>Bus\<close> is one such property. The second half follows the retained
  message of each sensor topic and of the summary topic: \<open>lot_synced\<close> says
  that the broker's retained status of every sensor is the sensor's current
  state and that the retained summary has the fleet's current counts, which
  is what a subscriber arriving late (the dashboard) reads.
\<close>

definition sensor_synced :: "mqtt_msg list \<Rightarrow> sensor \<Rightarrow> bool" where
  "sensor_synced ms s \<longleftrightarrow>
     Option.bind (retained ms (sensor_topic s)) payload_status = Some (status_text (is_occupied s))"

definition fleet_synced :: "parking_system \<Rightarrow> bool" where
  "fleet_synced ps \<longleftrightarrow> list_all (sensor_synced (outbox (client ps))) (sensors ps)"

text \<open>
  The retained summary reports the counts of the fleet \<open>ss\<close>: total, occupied
  and free places.
\<close>

definition summary_synced :: "mqtt_msg list \<Rightarrow> sensor list \<Rightarrow> bool" where
  "summary_synced ms ss \<longleftrightarrow>
     (case retained ms summary_topic of
        Some (Utf8Text (Some j)) \<Rightarrow>
          map (py_subscript j) [''total_places'', ''occupied'', ''free''] =
          map (Inr \<circ> JInt) [int (length ss), int (count_occupied ss), int (length ss) - int (count_occupied ss)]
      | _ \<Rightarrow> False)"

text \<open>The retained view of the lot: every sensor's status and the fleet summary.\<close>

definition lot_synced :: "parking_system \<Rightarrow> bool" where
  "lot_synced ps \<longleftrightarrow> fleet_synced ps \<and> summary_synced (outbox (client ps)) (sensors ps)"

text \<open>Every publish of a tick for a fleet of \<open>n\<close> sensors succeeds.\<close>

definition tick_all_ok :: "nat \<Rightarrow> tick_env \<Rightarrow> bool" where
  "tick_all_ok n te \<longleftrightarrow> pub_ok (summary_pub te) \<and> list_all (\<lambda>j. pub_ok (status_pub te j)) [0..<n]"

section \<open>Lemmas: what a run appends\<close>

lemma publish_all_appends:
  "\<exists>ms. outbox (publish_all pe i ss c) = outbox c @ ms \<and> (\<forall>m \<in> set ms. msg_topic m \<in> sensor_topic ` set ss)"
proof (induction ss arbitrary: i c)
  case Nil
  then show ?case by simp
next
  case (Cons s ss)
  obtain ms where "outbox (publish_all pe (Suc i) ss (snd (publish_status (pe i) s c))) =
      outbox (snd (publish_status (pe i) s c)) @ ms" "\<forall>m \<in> set ms. msg_topic m \<in> sensor_topic ` set ss"
    using Cons.IH by blast
  then show ?case by (auto simp: publish_status_def publish_def deliver_def)
qed

lemma tick_wf:
  "tick te ps = Inr ps' \<Longrightarrow> \<forall>s \<in> set (sensors ps). wf_sensor s \<Longrightarrow> \<forall>s \<in> set (sensors ps'). wf_sensor s"
  by (erule tick_cases) (metis check_sensors_wf fst_conv)

lemma tick_topics:
  "tick te ps = Inr ps' \<Longrightarrow> map sensor_topic (sensors ps') = map sensor_topic (sensors ps)"
proof -
  assume "tick te ps = Inr ps'"
  then have "map sensor_ident (sensors ps') = map sensor_ident (sensors ps)" by (rule tick_ident)
  then have "map (\<lambda>x. snd (snd x)) (map sensor_ident (sensors ps')) =
      map (\<lambda>x. snd (snd x)) (map sensor_ident (sensors ps))" by simp
  then show ?thesis by (simp add: sensor_ident_def comp_def)
qed

section \<open>Lemmas: properties of every published message\<close>

text \<open>
  The hypotheses \<open>status\<close> and \<open>summary\<close> of the lemmas below: \<open>P\<close> holds of
  the status report of every well-formed sensor and of every summary of a
  non-empty fleet.
\<close>

lemma publish_all_outbox:
  assumes status: "\<And>s now u. wf_sensor s \<Longrightarrow> P (deliver (sensor_topic s) (get_status now u s))"
  shows "\<forall>s \<in> set ss. wf_sensor s \<Longrightarrow> list_all P (outbox c) \<Longrightarrow> list_all P (outbox (publish_all pe i ss c))"
  by (induction ss arbitrary: i c) (auto simp: publish_status_def publish_def status)

lemma check_sensors_outbox_all:
  assumes status: "\<And>s now u. wf_sensor s \<Longrightarrow> P (deliver (sensor_topic s) (get_status now u s))"
  shows "\<forall>s \<in> set ss. wf_sensor s \<Longrightarrow> list_all P (outbox c) \<Longrightarrow>
         list_all P (outbox (fst (snd (check_sensors te i ss c))))"
proof (induction ss arbitrary: i c)
  case Nil
  then show ?case by simp
next
  case (Cons s ss)
  have "wf_sensor (s\<lparr>is_occupied := b\<rparr>)" for b using Cons.prems(1) by (simp add: wf_sensor_def)
  then have "P (deliver (sensor_topic s) (get_status now u (s\<lparr>is_occupied := b\<rparr>)))" for now u b
    using status by fastforce
  with Cons show ?case by (auto simp: tick_unfold)
qed

lemma tick_outbox:
  assumes status: "\<And>s now u. wf_sensor s \<Longrightarrow> P (deliver (sensor_topic s) (get_status now u s))"
    and summary: "\<And>now ss. ss \<noteq> [] \<Longrightarrow> P (deliver summary_topic (summary_json now ss))"
    and t: "tick te ps = Inr ps'" and wf: "\<forall>s \<in> set (sensors ps). wf_sensor s"
    and ok: "list_all P (outbox (client ps))"
  shows "list_all P (outbox (client ps'))"
  using t
proof (rule tick_cases)
  fix ss' c' n
  assume cs: "check_sensors te 0 (sensors ps) (client ps) = (ss', c', n)"
    and sum: "0 < n \<Longrightarrow> ss' \<noteq> [] \<and> client ps' = publish (pub_ok (summary_pub te)) summary_topic
                                     (summary_json (pub_time (summary_pub te)) ss') c'"
    and nosum: "\<not> 0 < n \<Longrightarrow> client ps' = c'"
  have "list_all P (outbox c')"
    using check_sensors_outbox_all [OF status wf ok, of te 0] cs by simp
  then show ?thesis
    using sum nosum summary by (cases "0 < n") (auto simp: publish_def)
qed

lemma run_loop_outbox:
  assumes status: "\<And>s now u. wf_sensor s \<Longrightarrow> P (deliver (sensor_topic s) (get_status now u s))"
    and summary: "\<And>now ss. ss \<noteq> [] \<Longrightarrow> P (deliver summary_topic (summary_json now ss))"
  shows "\<forall>s \<in> set (sensors ps). wf_sensor s \<Longrightarrow> list_all P (outbox (client ps)) \<Longrightarrow>
         list_all P (outbox (client (sim_state (run_loop dur tes ps))))"
proof (induction tes arbitrary: ps)
  case Nil
  then show ?case by simp
next
  case (Cons te tes)
  obtain ps1 where t: "tick te ps = Inr ps1" using tick_Inr by blast
  have "list_all P (outbox (client ps1))" by (rule tick_outbox [OF status summary t Cons.prems])
  moreover have "\<forall>s \<in> set (sensors ps1). wf_sensor s" using tick_wf [OF t Cons.prems(1)] .
  ultimately show ?case using Cons.IH t by simp
qed

lemma run_simulation_outbox:
  assumes status: "\<And>s now u. wf_sensor s \<Longrightarrow> P (deliver (sensor_topic s) (get_status now u s))"
    and summary: "\<And>now ss. ss \<noteq> [] \<Longrightarrow> P (deliver summary_topic (summary_json now ss))"
    and wf: "\<forall>s \<in> set (sensors ps). wf_sensor s" and ok: "list_all P (outbox (client ps))"
  shows "list_all P (outbox (client (sim_state (run_simulation pe0 se0 dur tes ps))))"
proof -
  let ?ps1 = "ps\<lparr>client := publish_all pe0 0 (sensors ps) (client ps)\<rparr>"
  have ok1: "list_all P (outbox (client ?ps1))" using publish_all_outbox [OF status wf ok] by simp
  show ?thesis
  proof (cases "publish_summary se0 ?ps1")
    case (Inl e)
    with ok1 show ?thesis by (simp add: run_simulation_def)
  next
    case (Inr ps2)
    then have ps2: "sensors ps2 = sensors ps" "list_all P (outbox (client ps2))"
      using ok1 summary by (auto simp: publish_summary_def publish_def split: if_splits)
    then have "list_all P (outbox (client (sim_state (run_loop dur tes ps2))))"
      using run_loop_outbox [OF status summary] wf by simp
    with Inr show ?thesis
      by (auto simp: run_simulation_def cleanup_def split: sim_result.splits)
  qed
qed


section \<open>Lemmas: the message contract\<close>

lemma status_msg_ok: "wf_sensor s \<Longrightarrow> msg_ok (deliver (sensor_topic s) (get_status now u s))"
proof -
  assume wf: "wf_sensor s"
  then have t: "sensor_topic s \<noteq> summary_topic" using sensor_topic_of_neq_summary by (simp add: wf_sensor_def)
  have p: "take 8 (sensor_topic s) = ''parking/''" using wf by (simp add: wf_sensor_def sensor_topic_of_def)
  show ?thesis
    using t p by (simp add: msg_ok_def deliver_def status_payload_ok_def get_status_get bound_type_def status_text_def)
qed

lemma summary_msg_ok: "msg_ok (deliver summary_topic (summary_json now ss))"
  by (simp add: msg_ok_def deliver_def summary_topic_def summary_payload_ok_def summary_json_def
      obj_lookup_def bound_type_def Let_def)

section \<open>Lemmas: retained statuses\<close>

lemma status_text_eq_iff [simp]: "status_text a = status_text b \<longleftrightarrow> a = b"
  by (simp add: status_text_def)

lemma sensor_synced_append:
  "\<forall>m \<in> set ms. msg_topic m \<noteq> sensor_topic s \<Longrightarrow> sensor_synced (xs @ ms) s = sensor_synced xs s"
  by (simp add: sensor_synced_def retained_append_other)

lemma sensor_synced_publish: "sensor_synced (xs @ [deliver (sensor_topic s) (get_status now u s)]) s"
  by (simp add: sensor_synced_def deliver_def payload_status_def get_status_get)

lemma sensor_synced_flip_topic [simp]: "sensor_topic (snd (detect_change r s)) = sensor_topic s"
  by (simp add: detect_change_def)

text \<open>One step of the inner loop, on the sensor and on the client.\<close>

lemma check_sensors_Cons:
  "fst (check_sensors te i (s # ss) c) =
     snd (detect_change (draw te i) s) #
       fst (check_sensors te (Suc i) ss
         (if draw te i < 1/10 then snd (publish_status (status_pub te i) (snd (detect_change (draw te i) s)) c) else c))"
  "fst (snd (check_sensors te i (s # ss) c)) =
     fst (snd (check_sensors te (Suc i) ss
         (if draw te i < 1/10 then snd (publish_status (status_pub te i) (snd (detect_change (draw te i) s)) c) else c)))"
  by (simp_all add: detect_change_def Let_def split_def)

lemma upt_Cons_shift: "[i..<i + length (s # ss)] = i # [Suc i..<Suc i + length ss]"
  by (simp add: upt_conv_Cons del: upt_Suc)

lemma publish_all_synced:
  "distinct (map sensor_topic ss) \<Longrightarrow> list_all (\<lambda>j. pub_ok (pe j)) [i..<i + length ss] \<Longrightarrow>
   list_all (sensor_synced (outbox (publish_all pe i ss c))) ss"
proof (induction ss arbitrary: i c)
  case Nil
  then show ?case by simp
next
  case (Cons s ss)
  let ?c1 = "snd (publish_status (pe i) s c)"
  have ok: "pub_ok (pe i)" "list_all (\<lambda>j. pub_ok (pe j)) [Suc i..<Suc i + length ss]"
    using Cons.prems(2) [unfolded upt_Cons_shift] by simp_all
  obtain ms where ms: "outbox (publish_all pe (Suc i) ss ?c1) = outbox ?c1 @ ms"
      "\<forall>m \<in> set ms. msg_topic m \<in> sensor_topic ` set ss"
    using publish_all_appends by blast
  have "sensor_topic s \<notin> sensor_topic ` set ss" using Cons.prems(1) by simp
  then have other: "\<forall>m \<in> set ms. msg_topic m \<noteq> sensor_topic s" using ms(2) by metis
  have c1: "outbox ?c1 = outbox c @ [deliver (sensor_topic s) (get_status (pub_time (pe i)) (pub_conf (pe i)) s)]"
    using ok(1) by (simp add: publish_status_def publish_def)
  have "sensor_synced (outbox ?c1) s" unfolding c1 by (rule sensor_synced_publish)
  then have "sensor_synced (outbox ?c1 @ ms) s" using sensor_synced_append [OF other, of "outbox ?c1"] by (simp only:)
  then have "sensor_synced (outbox (publish_all pe (Suc i) ss ?c1)) s" using ms(1) by simp
  moreover have "list_all (sensor_synced (outbox (publish_all pe (Suc i) ss ?c1))) ss"
    using Cons.IH Cons.prems(1) ok(2) by simp
  ultimately show ?case by simp
qed


text \<open>
  The inner loop keeps every sensor's retained status in step with the sensor
  when all its publishes succeed: a changed sensor's new report is the last
  message on its topic, and no other sensor publishes on that topic.
\<close>

lemma check_sensors_synced:
  "distinct (map sensor_topic ss) \<Longrightarrow> list_all (\<lambda>j. pub_ok (status_pub te j)) [i..<i + length ss] \<Longrightarrow>
   list_all (sensor_synced (outbox c)) ss \<Longrightarrow>
   list_all (sensor_synced (outbox (fst (snd (check_sensors te i ss c))))) (fst (check_sensors te i ss c))"
proof (induction ss arbitrary: i c)
  case Nil
  then show ?case by simp
next
  case (Cons s ss)
  let ?s' = "snd (detect_change (draw te i) s)"
  let ?c1 = "if draw te i < 1/10 then snd (publish_status (status_pub te i) ?s' c) else c"
  let ?c2 = "fst (snd (check_sensors te (Suc i) ss ?c1))"
  have ok: "pub_ok (status_pub te i)" "list_all (\<lambda>j. pub_ok (status_pub te j)) [Suc i..<Suc i + length ss]"
    using Cons.prems(2) [unfolded upt_Cons_shift] by simp_all
  have notin: "sensor_topic s \<notin> sensor_topic ` set ss" using Cons.prems(1) by simp
  have c1: "outbox ?c1 = outbox c @ (if draw te i < 1/10 then
      [deliver (sensor_topic ?s') (get_status (pub_time (status_pub te i)) (pub_conf (status_pub te i)) ?s')] else [])"
    using ok(1) by (simp add: publish_status_def publish_def)
  have s1: "sensor_synced (outbox ?c1) ?s'"
  proof (cases "draw te i < 1/10")
    case True
    then show ?thesis
      by (simp add: publish_status_def publish_def ok(1) sensor_synced_publish del: sensor_synced_flip_topic)
  next
    case False
    then show ?thesis using Cons.prems(3) by (simp add: detect_change_def)
  qed
  have "\<forall>m \<in> set (if draw te i < 1/10 then
      [deliver (sensor_topic ?s') (get_status (pub_time (status_pub te i)) (pub_conf (status_pub te i)) ?s')] else []).
      msg_topic m \<noteq> sensor_topic s'" if "s' \<in> set ss" for s'
    using that notin by (auto simp: deliver_def)
  then have "list_all (sensor_synced (outbox ?c1)) ss"
    using Cons.prems(3) unfolding c1 by (simp add: list_all_iff sensor_synced_append)
  then have rest: "list_all (sensor_synced (outbox ?c2)) (fst (check_sensors te (Suc i) ss ?c1))"
    using Cons.IH Cons.prems(1) ok(2) by simp
  obtain ms where ms: "outbox ?c2 = outbox ?c1 @ ms"
      "\<forall>m \<in> set ms. \<exists>k < length ss. msg_topic m = sensor_topic (ss ! k) \<and> pub_ok (status_pub te (Suc i + k))"
    using check_sensors_appends by blast
  have "\<forall>m \<in> set ms. msg_topic m \<noteq> sensor_topic ?s'"
    using ms(2) notin by (metis nth_mem image_eqI sensor_synced_flip_topic)
  then have "sensor_synced (outbox ?c2) ?s'" using s1 ms(1) sensor_synced_append by simp
  with rest show ?case unfolding check_sensors_Cons by simp
qed


text \<open>A summary is never the retained message of a sensor topic.\<close>

lemma sensor_synced_summary:
  "wf_sensor s \<Longrightarrow> sensor_synced (outbox (publish b summary_topic j c)) s = sensor_synced (outbox c) s"
proof -
  assume "wf_sensor s"
  then have "sensor_topic s \<noteq> summary_topic" using sensor_topic_of_neq_summary by (simp add: wf_sensor_def)
  then show ?thesis by (simp add: publish_def sensor_synced_def deliver_def)
qed

lemma tick_synced:
  assumes t: "tick te ps = Inr ps'" and wf: "\<forall>s \<in> set (sensors ps). wf_sensor s"
    and d: "distinct (map sensor_topic (sensors ps))" and ok: "tick_all_ok (length (sensors ps)) te"
    and sy: "fleet_synced ps"
  shows "fleet_synced ps'"
  using t
proof (rule tick_cases)
  fix ss' c' n
  assume cs: "check_sensors te 0 (sensors ps) (client ps) = (ss', c', n)" and sens: "sensors ps' = ss'"
    and sum: "0 < n \<Longrightarrow> ss' \<noteq> [] \<and> client ps' = publish (pub_ok (summary_pub te)) summary_topic
                                     (summary_json (pub_time (summary_pub te)) ss') c'"
    and nosum: "\<not> 0 < n \<Longrightarrow> client ps' = c'"
  have a: "list_all (sensor_synced (outbox c')) ss'"
    using check_sensors_synced [of "sensors ps" te 0 "client ps"] d ok sy cs
    by (simp add: tick_all_ok_def fleet_synced_def)
  have wf': "\<forall>s \<in> set ss'. wf_sensor s" using check_sensors_wf [OF wf, of te 0 "client ps"] cs by simp
  then have "list_all (sensor_synced (outbox (publish b summary_topic j c'))) ss'" for b j
    using a by (simp add: list_all_iff sensor_synced_summary)
  then show "fleet_synced ps'" using sens sum nosum a by (cases "0 < n") (simp_all add: fleet_synced_def)
qed

lemma summary_synced_append:
  "\<forall>m \<in> set ms. msg_topic m \<noteq> summary_topic \<Longrightarrow> summary_synced (xs @ ms) ss = summary_synced xs ss"
  by (simp add: summary_synced_def retained_append_other)

lemma summary_synced_publish: "summary_synced (xs @ [deliver summary_topic (summary_json now ss)]) ss"
  by (simp add: summary_synced_def deliver_def summary_json_def obj_lookup_def Let_def)

text \<open>When every status publish succeeds and none was counted, no sensor changed.\<close>

lemma check_sensors_quiet:
  assumes cs: "check_sensors te 0 ss c = (ss', c', 0)"
    and ok: "list_all (\<lambda>j. pub_ok (status_pub te j)) [0..<length ss]"
  shows "ss' = ss"
proof -
  have "\<not> draw te j < 1/10" if "j < length ss" for j
    using check_sensors_count [of te 0 ss c] cs ok that by (auto simp: filter_empty_conv list_all_iff)
  then have "map (\<lambda>(j, s). snd (detect_change (draw te j) s)) (zip [0..<length ss] ss) = ss"
    by (intro nth_equalityI) (auto simp: detect_change_def)
  then show ?thesis using check_sensors_sensors [of te 0 ss c] cs by simp
qed

lemma tick_summary_synced:
  assumes t: "tick te ps = Inr ps'" and wf: "\<forall>s \<in> set (sensors ps). wf_sensor s"
    and ok: "tick_all_ok (length (sensors ps)) te" and sy: "summary_synced (outbox (client ps)) (sensors ps)"
  shows "summary_synced (outbox (client ps')) (sensors ps')"
  using t
proof (rule tick_cases)
  fix ss' c' n
  assume cs: "check_sensors te 0 (sensors ps) (client ps) = (ss', c', n)" and sens: "sensors ps' = ss'"
    and sum: "0 < n \<Longrightarrow> ss' \<noteq> [] \<and> client ps' = publish (pub_ok (summary_pub te)) summary_topic
                                     (summary_json (pub_time (summary_pub te)) ss') c'"
    and nosum: "\<not> 0 < n \<Longrightarrow> client ps' = c'"
  show ?thesis
  proof (cases "0 < n")
    case True
    then show ?thesis
      using sum sens ok by (simp add: publish_def tick_all_ok_def summary_synced_publish)
  next
    case False
    obtain ms where ms: "outbox c' = outbox (client ps) @ ms"
        "\<forall>m \<in> set ms. \<exists>k < length (sensors ps). msg_topic m = sensor_topic (sensors ps ! k) \<and>
                                               pub_ok (status_pub te (0 + k))"
      using check_sensors_appends [of te 0 "sensors ps" "client ps"] cs by auto
    have "\<forall>m \<in> set ms. msg_topic m \<noteq> summary_topic"
      using ms(2) wf sensor_topic_of_neq_summary by (fastforce simp: wf_sensor_def dest: nth_mem)
    moreover have "ss' = sensors ps"
      using check_sensors_quiet [of te "sensors ps" "client ps" ss' c'] cs False ok by (simp add: tick_all_ok_def)
    ultimately show ?thesis
      using False nosum sens ms(1) sy summary_synced_append by simp
  qed
qed

lemma lot_synced_cleanup [simp]: "lot_synced (cleanup ps) = lot_synced ps"
  by (simp add: cleanup_def lot_synced_def fleet_synced_def)

lemma run_loop_synced:
  "\<forall>s \<in> set (sensors ps). wf_sensor s \<Longrightarrow> distinct (map sensor_topic (sensors ps)) \<Longrightarrow>
   list_all (tick_all_ok (length (sensors ps))) tes \<Longrightarrow> lot_synced ps \<Longrightarrow>
   lot_synced (sim_state (run_loop dur tes ps))"
proof (induction tes arbitrary: ps)
  case Nil
  then show ?case by simp
next
  case (Cons te tes)
  obtain ps1 where t: "tick te ps = Inr ps1" using tick_Inr by blast
  have topics: "map sensor_topic (sensors ps1) = map sensor_topic (sensors ps)" by (rule tick_topics [OF t])
  then have len: "length (sensors ps1) = length (sensors ps)" by (metis length_map)
  have "fleet_synced ps1" using tick_synced [OF t] Cons.prems by (simp add: lot_synced_def)
  moreover have "summary_synced (outbox (client ps1)) (sensors ps1)"
    using tick_summary_synced [OF t] Cons.prems by (simp add: lot_synced_def)
  moreover have "\<forall>s \<in> set (sensors ps1). wf_sensor s" using tick_wf [OF t Cons.prems(1)] .
  moreover have "distinct (map sensor_topic (sensors ps1))" using topics Cons.prems(2) by simp
  ultimately show ?case using Cons.IH [of ps1] Cons.prems(3) t len by (simp add: lot_synced_def)
qed

section \<open>Properties\<close>

text \<open>
  C12. Every message a run of the simulator publishes meets the message
  contract of the two programs: it is on a topic under \<open>parking/\<close>, a
  summary carries its four counts as integers and a float, and a status report
  carries its five fields with the storage classes of the event table and a
  status of \<open>occupied\<close> or \<open>free\<close>.
\<close>

theorem run_simulation_outbox_ok:
  assumes "\<forall>s \<in> set (sensors ps). wf_sensor s" and "list_all msg_ok (outbox (client ps))"
  shows "list_all msg_ok (outbox (client (sim_state (run_simulation pe0 se0 dur tes ps))))"
  using run_simulation_outbox [of msg_ok, OF status_msg_ok summary_msg_ok assms] .

theorem run_simulation_outbox_ok_witness:
  "wf_sensor (new_sensor 1 ''Zone_A'') \<and> list_all msg_ok [] \<and>
   list_all msg_ok (outbox (client (sim_state (run_simulation (\<lambda>_. \<lparr>pub_time = ''t'', pub_conf = 1, pub_ok = True\<rparr>)
      \<lparr>pub_time = ''t'', pub_conf = 1, pub_ok = True\<rparr> None []
      \<lparr>client = init_client, sensors = [new_sensor 1 ''Zone_A'']\<rparr>))))"
proof -
  have w: "wf_sensor (new_sensor 1 ''Zone_A'')" by (simp add: wf_sensor_def new_sensor_def)
  show ?thesis
    using w run_simulation_outbox_ok [of "\<lparr>client = init_client, sensors = [new_sensor 1 ''Zone_A'']\<rparr>"
        "\<lambda>_. \<lparr>pub_time = ''t'', pub_conf = 1, pub_ok = True\<rparr>" "\<lparr>pub_time = ''t'', pub_conf = 1, pub_ok = True\<rparr>" None "[]"]
    by (simp add: init_client_def)
qed

text \<open>
  C11. When every publish succeeds, the broker's retained messages describe the
  lot at every point of a run: the retained message of each sensor topic
  reports the sensor's current state, and the retained summary reports the
  fleet's current total, occupied and free counts, after the initial
  publishes, after each tick, and when the run ends. It needs a non-empty
  fleet of well-formed sensors with distinct topics, as
  \<open>create_parking_lot\<close> builds from a dictionary.
\<close>

theorem run_simulation_retained_synced:
  assumes wf: "\<forall>s \<in> set (sensors ps). wf_sensor s" and d: "distinct (map sensor_topic (sensors ps))"
    and ne: "sensors ps \<noteq> []" and ok0: "list_all (\<lambda>j. pub_ok (pe0 j)) [0..<length (sensors ps)]"
    and oks: "pub_ok se0" and ok: "list_all (tick_all_ok (length (sensors ps))) tes"
  shows "lot_synced (sim_state (run_simulation pe0 se0 dur tes ps))"
proof -
  let ?ps1 = "ps\<lparr>client := publish_all pe0 0 (sensors ps) (client ps)\<rparr>"
  have s1: "fleet_synced ?ps1" using publish_all_synced [OF d] ok0 by (simp add: fleet_synced_def)
  obtain ps2 where p2: "publish_summary se0 ?ps1 = Inr ps2" using ne by (simp add: publish_summary_def)
  then have ps2: "sensors ps2 = sensors ps"
      "client ps2 = publish (pub_ok se0) summary_topic (summary_json (pub_time se0) (sensors ps)) (client ?ps1)"
    by (auto simp: publish_summary_def split: if_splits)
  then have "fleet_synced ps2"
    using s1 wf by (simp add: fleet_synced_def list_all_iff sensor_synced_summary)
  moreover have "summary_synced (outbox (client ps2)) (sensors ps2)"
    using ps2 oks by (simp add: publish_def summary_synced_publish)
  ultimately have "lot_synced (sim_state (run_loop dur tes ps2))"
    using run_loop_synced [of ps2] wf d ok ps2(1) by (simp add: lot_synced_def)
  with p2 show ?thesis
    by (cases "run_loop dur tes ps2") (simp_all add: run_simulation_def lot_synced_cleanup)
qed

theorem run_simulation_retained_synced_witness:
  "wf_sensor (new_sensor 1 ''Zone_A'') \<and> wf_sensor (new_sensor 2 ''Zone_A'') \<and>
   distinct (map sensor_topic [new_sensor 1 ''Zone_A'', new_sensor 2 ''Zone_A'']) \<and>
   lot_synced (sim_state (run_simulation (\<lambda>_. \<lparr>pub_time = ''t'', pub_conf = 1, pub_ok = True\<rparr>)
      \<lparr>pub_time = ''t'', pub_conf = 1, pub_ok = True\<rparr> None
      [\<lparr>draw = \<lambda>_. 0, status_pub = \<lambda>_. \<lparr>pub_time = ''t2'', pub_conf = 1, pub_ok = True\<rparr>,
        summary_pub = \<lparr>pub_time = ''t2'', pub_conf = 1, pub_ok = True\<rparr>, elapsed = 2, interrupted = False\<rparr>]
      \<lparr>client = init_client, sensors = [new_sensor 1 ''Zone_A'', new_sensor 2 ''Zone_A'']\<rparr>))"
proof -
  let ?ps = "\<lparr>client = init_client, sensors = [new_sensor 1 ''Zone_A'', new_sensor 2 ''Zone_A'']\<rparr>"
  have w: "wf_sensor (new_sensor 1 ''Zone_A'')" "wf_sensor (new_sensor 2 ''Zone_A'')"
    by (simp_all add: wf_sensor_def new_sensor_def)
  have d: "distinct (map sensor_topic [new_sensor 1 ''Zone_A'', new_sensor 2 ''Zone_A''])"
    by (auto simp: new_sensor_def dest: sensor_topic_of_inj)
  show ?thesis
    using w d run_simulation_retained_synced [of ?ps "\<lambda>_. \<lparr>pub_time = ''t'', pub_conf = 1, pub_ok = True\<rparr>"
        "\<lparr>pub_time = ''t'', pub_conf = 1, pub_ok = True\<rparr>"
        "[\<lparr>draw = \<lambda>_. 0, status_pub = \<lambda>_. \<lparr>pub_time = ''t2'', pub_conf = 1, pub_ok = True\<rparr>,
          summary_pub = \<lparr>pub_time = ''t2'', pub_conf = 1, pub_ok = True\<rparr>, elapsed = 2, interrupted = False\<rparr>]"
        None]
    by (simp add: tick_all_ok_def upt_rec)
qed

end
