(* ===== verification/Database.thy ===== *)
theory Database
  imports Values
begin

text \<open>
  The event store: \<open>ParkingDatabase\<close> of \<open>src/backend/backend_server.py\<close>.
  The SQLite file is the record \<open>db\<close> of its two tables, each a list of rows in
  insertion order. Each row keeps the values as bound by \<open>sqlite3\<close>; the
  \<open>NOT NULL\<close> constraints of the \<open>CREATE TABLE\<close> statements are checked on
  insert, \<open>AUTOINCREMENT\<close> gives the id one above the largest id ever used, and
  the three \<open>SELECT\<close> statements are written as list functions with their
  \<open>WHERE\<close>, \<open>GROUP BY\<close>, \<open>ORDER BY\<close> and \<open>LIMIT\<close> clauses. Column
  affinity conversions of SQLite are not modelled: a row holds the value as
  bound.
\<close>

record event_row =
  ev_id :: nat
  ev_timestamp :: sqlval
  ev_zone :: sqlval
  ev_place :: sqlval
  ev_status :: sqlval
  ev_conf :: sqlval

record stat_row =
  st_id :: nat
  st_timestamp :: iso_time
  st_hour :: nat
  st_total :: sqlval
  st_occ :: sqlval
  st_free :: sqlval
  st_rate :: sqlval

record db =
  events :: "event_row list"
  hourly :: "stat_row list"

section \<open>Schema and inserts\<close>

text \<open>
  \<open>init_database\<close>: \<open>CREATE TABLE IF NOT EXISTS\<close> keeps the rows of a file
  left by an earlier run; a new file starts empty.
\<close>

definition init_database :: "db option \<Rightarrow> db" where
  "init_database old = (case old of None \<Rightarrow> \<lparr>events = [], hourly = []\<rparr> | Some d \<Rightarrow> d)"

definition next_id :: "nat list \<Rightarrow> nat" where
  "next_id ids = Suc (foldr max ids 0)"

text \<open>The first column, in table order, whose \<open>NOT NULL\<close> constraint a row violates.\<close>

definition null_violation :: "(string \<times> sqlval) list \<Rightarrow> string option" where
  "null_violation cols = map_option fst (find (\<lambda>(c, v). v = SNull) cols)"

text \<open>
  The declared types of the columns the \<open>INSERT\<close> statements fill, in the
  order of their column lists, and the values a row holds in those columns.
  SQLite does not enforce a declared type: a column holds whatever value is
  bound.
\<close>

definition event_columns :: "(string \<times> sqltype) list" where
  "event_columns = [(''timestamp'', TText), (''zone'', TText), (''place_id'', TInteger),
                    (''status'', TText), (''confidence'', TReal)]"

definition stat_columns :: "(string \<times> sqltype) list" where
  "stat_columns = [(''total_places'', TInteger), (''occupied'', TInteger), (''free'', TInteger),
                   (''occupancy_rate'', TReal)]"

definition event_values :: "event_row \<Rightarrow> sqlval list" where
  "event_values r = [ev_timestamp r, ev_zone r, ev_place r, ev_status r, ev_conf r]"

definition stat_values :: "stat_row \<Rightarrow> sqlval list" where
  "stat_values r = [st_total r, st_occ r, st_free r, st_rate r]"

text \<open>
  \<open>insert_event(zone, place_id, status, confidence, timestamp)\<close>: the
  parameters are bound in the order of the statement
  \<open>(timestamp, zone, place_id, status, confidence)\<close>; all but
  \<open>confidence\<close> are \<open>NOT NULL\<close>.
\<close>

definition insert_event :: "json \<Rightarrow> json \<Rightarrow> json \<Rightarrow> json \<Rightarrow> json \<Rightarrow> db \<Rightarrow> exc + db" where
  "insert_event zone place_id status confidence timestamp d =
     (case seq_sum (map bind [timestamp, zone, place_id, status, confidence]) of
        Inl e \<Rightarrow> Inl e
      | Inr vs \<Rightarrow>
          (case null_violation (zip [''timestamp'', ''zone'', ''place_id'', ''status''] vs) of
             Some col \<Rightarrow> Inl (IntegrityError col)
           | None \<Rightarrow>
               Inr (d\<lparr>events := events d @
                      [\<lparr>ev_id = next_id (map ev_id (events d)), ev_timestamp = vs ! 0,
                        ev_zone = vs ! 1, ev_place = vs ! 2, ev_status = vs ! 3,
                        ev_conf = vs ! 4\<rparr>]\<rparr>)))"

text \<open>
  \<open>insert_hourly_stat(data)\<close>: the hour and the timestamp are read from the
  clock (\<open>hour\<close>, \<open>now\<close>); the parameter tuple subscripts
  \<open>data\<close> for the four counts, left to right, before anything is bound. Only
  \<open>timestamp\<close> and \<open>hour\<close> are \<open>NOT NULL\<close>, and both come from the clock.
\<close>

definition insert_hourly_stat :: "nat \<Rightarrow> iso_time \<Rightarrow> json \<Rightarrow> db \<Rightarrow> exc + db" where
  "insert_hourly_stat hour now data d =
     (case seq_sum (map (py_subscript data) [''total_places'', ''occupied'', ''free'', ''occupancy_rate'']) of
        Inl e \<Rightarrow> Inl e
      | Inr js \<Rightarrow>
          (case seq_sum (map bind js) of
             Inl e \<Rightarrow> Inl e
           | Inr vs \<Rightarrow>
               Inr (d\<lparr>hourly := hourly d @
                      [\<lparr>st_id = next_id (map st_id (hourly d)), st_timestamp = now, st_hour = hour,
                        st_total = vs ! 0, st_occ = vs ! 1, st_free = vs ! 2, st_rate = vs ! 3\<rparr>]\<rparr>)))"

section \<open>Queries\<close>

text \<open>\<open>LIMIT n\<close>: a negative limit means no limit in SQLite.\<close>

definition sql_limit :: "int \<Rightarrow> 'a list \<Rightarrow> 'a list" where
  "sql_limit n xs = (if n < 0 then xs else take (nat n) xs)"

definition event_view :: "event_row \<Rightarrow> sqlval \<times> sqlval \<times> sqlval \<times> sqlval" where
  "event_view r = (ev_timestamp r, ev_zone r, ev_place r, ev_status r)"

text \<open>\<open>get_recent_events(limit)\<close>: \<open>ORDER BY id DESC LIMIT ?\<close>.\<close>

definition get_recent_events :: "int \<Rightarrow> db \<Rightarrow> (sqlval \<times> sqlval \<times> sqlval \<times> sqlval) list" where
  "get_recent_events limit d = map event_view (sql_limit limit (rev (sort_key ev_id (events d))))"

text \<open>
  \<open>AVG\<close> skips \<open>NULL\<close>s and is \<open>NULL\<close> over a group without a value; a text
  value counts as 0 (SQLite reads its numeric prefix, which is not modelled).
\<close>

fun sql_num :: "sqlval \<Rightarrow> real" where
  "sql_num (SInt i) = of_int i"
| "sql_num (SReal r) = r"
| "sql_num _ = 0"

definition sql_avg :: "sqlval list \<Rightarrow> sqlval" where
  "sql_avg vs =
     (let xs = filter (\<lambda>v. v \<noteq> SNull) vs in
      if xs = [] then SNull else SReal (sum_list (map sql_num xs) / of_nat (length xs)))"

text \<open>\<open>round(row[1], 2)\<close>: \<open>round(None, 2)\<close> raises \<open>TypeError\<close>.\<close>

fun py_round_sql :: "sqlval \<Rightarrow> exc + real" where
  "py_round_sql SNull = Inl TypeError"
| "py_round_sql (SReal r) = Inr (py_round2 r)"
| "py_round_sql (SInt i) = Inr (of_int i)"
| "py_round_sql (SText s) = Inl TypeError"

definition hour_rows :: "db \<Rightarrow> nat \<Rightarrow> stat_row list" where
  "hour_rows d h = filter (\<lambda>r. st_hour r = h) (hourly d)"

text \<open>
  \<open>get_statistics_by_hour()\<close>: \<open>GROUP BY hour ORDER BY hour\<close>, then the
  Python comprehension rounds each average.
\<close>

definition get_statistics_by_hour :: "db \<Rightarrow> exc + (nat \<times> real \<times> nat) list" where
  "get_statistics_by_hour d =
     seq_sum (map (\<lambda>h. case py_round_sql (sql_avg (map st_rate (hour_rows d h))) of
                         Inl e \<Rightarrow> Inl e
                       | Inr a \<Rightarrow> Inr (h, a, length (hour_rows d h)))
                  (sort (remdups (map st_hour (hourly d)))))"

text \<open>
  \<open>timestamp > datetime('now', '-1 day')\<close>: the right side is SQLite's text
  \<open>YYYY-MM-DD HH:MM:SS\<close>; a text timestamp is compared byte-wise, a number is
  below every text, \<open>NULL\<close> never satisfies the condition.
\<close>

fun in_window :: "string \<Rightarrow> sqlval \<Rightarrow> bool" where
  "in_window cutoff (SText t) = (cutoff < t)"
| "in_window cutoff _ = False"

definition window_rows :: "string \<Rightarrow> db \<Rightarrow> event_row list" where
  "window_rows cutoff d = filter (\<lambda>r. in_window cutoff (ev_timestamp r)) (events d)"

text \<open>
  \<open>get_zone_statistics()\<close>: one row per zone among the rows of the window;
  the statement has no \<open>ORDER BY\<close>, so the order of the zones is not
  specified and the model lists them by first appearance.
\<close>

definition get_zone_statistics :: "string \<Rightarrow> db \<Rightarrow> (sqlval \<times> nat \<times> nat \<times> nat) list" where
  "get_zone_statistics cutoff d =
     (let rs = window_rows cutoff d in
      map (\<lambda>z. let zr = filter (\<lambda>r. ev_zone r = z) rs in
                (z, length (filter (\<lambda>r. ev_status r = SText ''occupied'') zr),
                    length (filter (\<lambda>r. ev_status r = SText ''free'') zr),
                    length zr))
          (remdups (map ev_zone rs)))"

text \<open>Well-formed tables: ids strictly increasing, \<open>NOT NULL\<close> columns non-null.\<close>

definition wf_db :: "db \<Rightarrow> bool" where
  "wf_db d \<longleftrightarrow>
     sorted_wrt (<) (map ev_id (events d)) \<and> sorted_wrt (<) (map st_id (hourly d)) \<and>
     (\<forall>r \<in> set (events d). ev_timestamp r \<noteq> SNull \<and> ev_zone r \<noteq> SNull \<and>
                           ev_place r \<noteq> SNull \<and> ev_status r \<noteq> SNull)"

text \<open>Every column of every row holds a value of its declared type, none of them \<open>NULL\<close>.\<close>

definition db_typed :: "db \<Rightarrow> bool" where
  "db_typed d \<longleftrightarrow>
     list_all (\<lambda>r. map sql_type (event_values r) = map snd event_columns) (events d) \<and>
     list_all (\<lambda>r. map sql_type (stat_values r) = map snd stat_columns) (hourly d)"

section \<open>Lemmas\<close>

lemma next_id_greater: "i \<in> set ids \<Longrightarrow> i < next_id ids"
proof -
  have "\<forall>i \<in> set ids. i \<le> foldr max ids 0" by (induction ids) auto
  then show "i \<in> set ids \<Longrightarrow> i < next_id ids" by (auto simp: next_id_def less_Suc_eq_le)
qed

lemma sorted_wrt_snoc_next_id:
  "sorted_wrt (<) ids \<Longrightarrow> sorted_wrt (<) (ids @ [next_id ids])"
  by (auto simp: sorted_wrt_append next_id_greater)

text \<open>What a successful \<open>insert_event\<close> does: it appends one row, the bound values with a fresh id.\<close>

lemma insert_event_Inr:
  assumes "insert_event z p st c ts d = Inr d'"
  obtains vt vz vp vs vc where
    "bind ts = Inr vt" "bind z = Inr vz" "bind p = Inr vp" "bind st = Inr vs" "bind c = Inr vc"
    "vt \<noteq> SNull" "vz \<noteq> SNull" "vp \<noteq> SNull" "vs \<noteq> SNull"
    "d' = d\<lparr>events := events d @ [\<lparr>ev_id = next_id (map ev_id (events d)), ev_timestamp = vt,
              ev_zone = vz, ev_place = vp, ev_status = vs, ev_conf = vc\<rparr>]\<rparr>"
proof -
  obtain vs' where b: "seq_sum (map bind [ts, z, p, st, c]) = Inr vs'"
    and n: "null_violation (zip [''timestamp'', ''zone'', ''place_id'', ''status''] vs') = None"
    and d': "d' = d\<lparr>events := events d @ [\<lparr>ev_id = next_id (map ev_id (events d)), ev_timestamp = vs' ! 0,
              ev_zone = vs' ! 1, ev_place = vs' ! 2, ev_status = vs' ! 3, ev_conf = vs' ! 4\<rparr>]\<rparr>"
    using assms by (auto simp: insert_event_def split: sum.splits option.splits)
  from b obtain vt vz vp vs vc where vs': "vs' = [vt, vz, vp, vs, vc]"
    and "bind ts = Inr vt" "bind z = Inr vz" "bind p = Inr vp" "bind st = Inr vs" "bind c = Inr vc"
    by (auto simp: seq_sum_Inr_iff)
  moreover from n vs' have "vt \<noteq> SNull" "vz \<noteq> SNull" "vp \<noteq> SNull" "vs \<noteq> SNull"
    by (auto simp: null_violation_def split: if_splits)
  ultimately show ?thesis using that d' by simp
qed

lemma insert_hourly_stat_Inr:
  assumes "insert_hourly_stat h now data d = Inr d'"
  obtains vs where "length vs = 4"
    "d' = d\<lparr>hourly := hourly d @ [\<lparr>st_id = next_id (map st_id (hourly d)), st_timestamp = now, st_hour = h,
              st_total = vs ! 0, st_occ = vs ! 1, st_free = vs ! 2, st_rate = vs ! 3\<rparr>]\<rparr>"
proof -
  obtain js vs where "seq_sum (map (py_subscript data) [''total_places'', ''occupied'', ''free'', ''occupancy_rate'']) = Inr js"
    and b: "seq_sum (map bind js) = Inr vs"
    and d': "d' = d\<lparr>hourly := hourly d @ [\<lparr>st_id = next_id (map st_id (hourly d)), st_timestamp = now, st_hour = h,
              st_total = vs ! 0, st_occ = vs ! 1, st_free = vs ! 2, st_rate = vs ! 3\<rparr>]\<rparr>"
    using assms by (auto simp: insert_hourly_stat_def split: sum.splits)
  moreover from this(1) have "length js = 4"
    by (auto simp: seq_sum_Inr_iff dest: arg_cong [where f = length])
  moreover from b have "length vs = length js"
    by (auto simp: seq_sum_Inr_iff dest: arg_cong [where f = length])
  ultimately show ?thesis using that by simp
qed

lemma insert_event_wf: "wf_db d \<Longrightarrow> insert_event z p st c ts d = Inr d' \<Longrightarrow> wf_db d'"
  by (erule insert_event_Inr) (auto simp: wf_db_def sorted_wrt_snoc_next_id [of "map ev_id (events d)", simplified])

lemma insert_hourly_stat_wf: "wf_db d \<Longrightarrow> insert_hourly_stat h now data d = Inr d' \<Longrightarrow> wf_db d'"
  by (erule insert_hourly_stat_Inr) (auto simp: wf_db_def sorted_wrt_snoc_next_id [of "map st_id (hourly d)", simplified])

lemma sort_key_events_wf: "wf_db d \<Longrightarrow> sort_key ev_id (events d) = events d"
  by (rule sort_key_id_if_sorted) (simp add: wf_db_def strict_sorted_imp_sorted)

lemma sql_avg_cases: "sql_avg vs = SNull \<or> (\<exists>r. sql_avg vs = SReal r)"
  by (simp add: sql_avg_def Let_def)

lemma sql_avg_SNull: "sql_avg vs = SNull \<longleftrightarrow> (\<forall>v \<in> set vs. v = SNull)"
  by (auto simp: sql_avg_def Let_def filter_empty_conv)

lemma round_avg_Inl: "(\<exists>e. py_round_sql (sql_avg vs) = Inl e) \<longleftrightarrow> sql_avg vs = SNull"
  using sql_avg_cases [of vs] by auto

section \<open>Properties\<close>

text \<open>
  C9. On a well-formed store, \<open>ORDER BY id DESC LIMIT n\<close> is the event log
  read backwards from the newest row, cut to \<open>n\<close> rows.
\<close>

theorem get_recent_events_desc:
  assumes "wf_db d"
  shows "get_recent_events n d = map event_view (sql_limit n (rev (events d)))"
  using sort_key_events_wf [OF assms] by (simp add: get_recent_events_def)

theorem get_recent_events_desc_witness:
  "wf_db \<lparr>events = map (\<lambda>i. \<lparr>ev_id = i, ev_timestamp = SText ''t'', ev_zone = SText ''Zone_A'',
                               ev_place = SInt (int i), ev_status = SText ''free'', ev_conf = SNull\<rparr>) [1, 2, 3, 4],
         hourly = []\<rparr> \<and>
   get_recent_events 3
     \<lparr>events = map (\<lambda>i. \<lparr>ev_id = i, ev_timestamp = SText ''t'', ev_zone = SText ''Zone_A'',
                               ev_place = SInt (int i), ev_status = SText ''free'', ev_conf = SNull\<rparr>) [1, 2, 3, 4],
      hourly = []\<rparr> =
   [(SText ''t'', SText ''Zone_A'', SInt 4, SText ''free''),
    (SText ''t'', SText ''Zone_A'', SInt 3, SText ''free''),
    (SText ''t'', SText ''Zone_A'', SInt 2, SText ''free'')]"
proof -
  let ?d = "\<lparr>events = map (\<lambda>i. \<lparr>ev_id = i, ev_timestamp = SText ''t'', ev_zone = SText ''Zone_A'',
                               ev_place = SInt (int i), ev_status = SText ''free'', ev_conf = SNull\<rparr>) [1, 2, 3, 4],
         hourly = []\<rparr> :: db"
  have wf: "wf_db ?d" by (simp add: wf_db_def)
  show ?thesis
    using wf get_recent_events_desc [OF wf, of 3]
    by (simp add: sql_limit_def event_view_def)
qed

text \<open>
  C5. \<open>insert_event\<close> stores a row exactly when the five values are bindable
  and none of timestamp, zone, place id and status is null; the row holds the
  bound values under a fresh id. A missing field is therefore rejected by the
  \<open>NOT NULL\<close> constraint, except \<open>confidence\<close>.
\<close>

theorem insert_event_spec:
  "insert_event z p st c ts d = Inr d' \<longleftrightarrow>
   (\<exists>vt vz vp vs vc.
      bind ts = Inr vt \<and> bind z = Inr vz \<and> bind p = Inr vp \<and> bind st = Inr vs \<and> bind c = Inr vc \<and>
      vt \<noteq> SNull \<and> vz \<noteq> SNull \<and> vp \<noteq> SNull \<and> vs \<noteq> SNull \<and>
      d' = d\<lparr>events := events d @ [\<lparr>ev_id = next_id (map ev_id (events d)), ev_timestamp = vt,
              ev_zone = vz, ev_place = vp, ev_status = vs, ev_conf = vc\<rparr>]\<rparr>)"
  (is "?l \<longleftrightarrow> ?r")
proof
  assume ?l
  then show ?r by (rule insert_event_Inr) blast
next
  assume "\<exists>vt vz vp vs vc. bind ts = Inr vt \<and> bind z = Inr vz \<and> bind p = Inr vp \<and> bind st = Inr vs \<and>
      bind c = Inr vc \<and> vt \<noteq> SNull \<and> vz \<noteq> SNull \<and> vp \<noteq> SNull \<and> vs \<noteq> SNull \<and>
      d' = d\<lparr>events := events d @ [\<lparr>ev_id = next_id (map ev_id (events d)), ev_timestamp = vt,
              ev_zone = vz, ev_place = vp, ev_status = vs, ev_conf = vc\<rparr>]\<rparr>"
  then show "insert_event z p st c ts d = Inr d'"
    by (auto simp: insert_event_def null_violation_def seq_sum.simps)
qed

text \<open>
  C24. \<open>get_statistics_by_hour\<close> raises exactly when some hour has only
  \<open>NULL\<close> occupancy rates (a summary whose \<open>occupancy_rate\<close> was JSON
  \<open>null\<close>): \<open>AVG\<close> is then \<open>NULL\<close> and \<open>round(None, 2)\<close> raises
  \<open>TypeError\<close>, so the hourly endpoint fails for good.
\<close>

theorem get_statistics_by_hour_error:
  "(\<exists>e. get_statistics_by_hour d = Inl e) \<longleftrightarrow>
   (\<exists>h \<in> set (map st_hour (hourly d)). \<forall>r \<in> set (hour_rows d h). st_rate r = SNull)"
proof -
  let ?f = "\<lambda>h. case py_round_sql (sql_avg (map st_rate (hour_rows d h))) of
                  Inl e \<Rightarrow> Inl e | Inr a \<Rightarrow> Inr (h, a, length (hour_rows d h))"
  have fail: "(\<exists>e. ?f h = Inl e) \<longleftrightarrow> (\<forall>r \<in> set (hour_rows d h). st_rate r = SNull)" for h
    using round_avg_Inl [of "map st_rate (hour_rows d h)"] sql_avg_SNull [of "map st_rate (hour_rows d h)"]
    by (auto split: sum.splits)
  have "(\<exists>e. seq_sum (map ?f hs) = Inl e) \<longleftrightarrow> (\<exists>h \<in> set hs. \<exists>e. ?f h = Inl e)" for hs
    by (simp add: seq_sum_Inl_iff)
  then show ?thesis using fail by (simp add: get_statistics_by_hour_def)
qed

theorem get_statistics_by_hour_error_witness:
  "(\<exists>h \<in> set (map st_hour [\<lparr>st_id = 1, st_timestamp = ''a'', st_hour = 10, st_total = SInt 24,
                             st_occ = SInt 6, st_free = SInt 18, st_rate = SNull\<rparr>]).
      \<forall>r \<in> set (hour_rows \<lparr>events = [], hourly = [\<lparr>st_id = 1, st_timestamp = ''a'', st_hour = 10, st_total = SInt 24,
                             st_occ = SInt 6, st_free = SInt 18, st_rate = SNull\<rparr>]\<rparr> h). st_rate r = SNull) \<and>
   (\<exists>e. get_statistics_by_hour \<lparr>events = [], hourly = [\<lparr>st_id = 1, st_timestamp = ''a'', st_hour = 10,
          st_total = SInt 24, st_occ = SInt 6, st_free = SInt 18, st_rate = SNull\<rparr>]\<rparr> = Inl e)"
  using get_statistics_by_hour_error [of "\<lparr>events = [], hourly = [\<lparr>st_id = 1, st_timestamp = ''a'', st_hour = 10,
          st_total = SInt 24, st_occ = SInt 6, st_free = SInt 18, st_rate = SNull\<rparr>]\<rparr>"]
  by (simp add: hour_rows_def)

end
