(* ===== verification/Backend.thy ===== *)
theory Backend
  imports Database
begin

text \<open>
  The ingestion service: \<open>MQTTBackend\<close> of \<open>src/backend/backend_server.py\<close>.
  Its state is the store and the watermark \<open>last_hourly_save\<close>. The two clock
  readings one message can make are inputs: \<open>datetime.now().hour\<close> in
  \<open>on_message\<close> (line 191) and the hour and timestamp read again inside
  \<open>insert_hourly_stat\<close> (lines 77--78). The subscription to \<open>parking/#\<close> hands
  every message to \<open>on_message\<close> in arrival order; an exception that escapes
  the callback stops paho's network thread, after which no message is handled.
\<close>

record backend =
  database :: db
  last_hourly_save :: nat

record msg_clock =
  hour_at_check :: nat
  hour_at_insert :: nat
  time_at_insert :: iso_time

datatype consumer = Listening backend | Crashed exc backend

definition init_backend :: "nat \<Rightarrow> db option \<Rightarrow> backend" where
  "init_backend h0 old = \<lparr>database = init_database old, last_hourly_save = h0\<rparr>"

text \<open>
  \<open>on_connect\<close>: with return code 0 the backend subscribes to
  \<open>parking/#\<close>; any other code is only printed, and the client has no
  subscription.
\<close>

definition backend_filter :: topic where
  "backend_filter = ''parking/#''"

definition backend_on_connect :: "int \<Rightarrow> topic option" where
  "backend_on_connect rc = (if rc = 0 then Some backend_filter else None)"

text \<open>The body of the \<open>try\<close> block, once the payload is parsed.\<close>

definition handle_data :: "msg_clock \<Rightarrow> topic \<Rightarrow> json \<Rightarrow> backend \<Rightarrow> exc + backend" where
  "handle_data clk t data b =
     (if t = summary_topic then
        (if hour_at_check clk \<noteq> last_hourly_save b then
           (case insert_hourly_stat (hour_at_insert clk) (time_at_insert clk) data (database b) of
              Inl e \<Rightarrow> Inl e
            | Inr d' \<Rightarrow> Inr (b\<lparr>database := d', last_hourly_save := hour_at_check clk\<rparr>))
         else Inr b)
      else
        (case seq_sum (map (py_get data) [''zone'', ''sensor_id'', ''status'', ''confidence'', ''timestamp'']) of
           Inl e \<Rightarrow> Inl e
         | Inr vs \<Rightarrow>
             (case insert_event (vs ! 0) (vs ! 1) (vs ! 2) (vs ! 3) (vs ! 4) (database b) of
                Inl e \<Rightarrow> Inl e
              | Inr d' \<Rightarrow> Inr (b\<lparr>database := d'\<rparr>))))"

text \<open>
  \<open>on_message\<close>: \<open>msg.payload.decode()\<close> runs before the \<open>try\<close>, so an
  undecodable payload raises out of the callback (\<open>Inl\<close>); inside the
  \<open>try\<close>, a \<open>json.loads\<close> failure or any exception of the body is caught,
  logged, and leaves the state as the failed statement left it (no insert was
  committed).
\<close>

definition on_message :: "msg_clock \<Rightarrow> mqtt_msg \<Rightarrow> backend \<Rightarrow> exc + backend" where
  "on_message clk m b =
     (case msg_payload m of
        BadUtf8 \<Rightarrow> Inl UnicodeDecodeError
      | Utf8Text None \<Rightarrow> Inr b
      | Utf8Text (Some data) \<Rightarrow>
          Inr (case handle_data clk (msg_topic m) data b of Inl e \<Rightarrow> b | Inr b' \<Rightarrow> b'))"

fun consume :: "(msg_clock \<times> mqtt_msg) list \<Rightarrow> backend \<Rightarrow> consumer" where
  "consume [] b = Listening b"
| "consume ((clk, m) # ms) b =
     (case on_message clk m b of Inl e \<Rightarrow> Crashed e b | Inr b' \<Rightarrow> consume ms b')"

text \<open>A clock that does not cross an hour boundary while one message is handled.\<close>

definition steady_clock :: "msg_clock \<Rightarrow> bool" where
  "steady_clock clk \<longleftrightarrow> hour_at_check clk = hour_at_insert clk"

text \<open>A summary payload whose four counts can be read and bound.\<close>

definition summary_ok :: "json \<Rightarrow> bool" where
  "summary_ok data \<longleftrightarrow>
     (\<forall>k \<in> set [''total_places'', ''occupied'', ''free'', ''occupancy_rate''].
        \<exists>j v. py_subscript data k = Inr j \<and> bind j = Inr v)"

text \<open>
  The states reachable from a start state \<open>b0\<close> by messages handled under a
  steady clock.
\<close>

inductive reach :: "backend \<Rightarrow> backend \<Rightarrow> bool" for b0 :: backend where
  start: "reach b0 b0"
| step: "reach b0 b \<Longrightarrow> steady_clock clk \<Longrightarrow> on_message clk m b = Inr b' \<Longrightarrow> reach b0 b'"

text \<open>The snapshots a run from \<open>b0\<close> has added.\<close>

definition new_stats :: "backend \<Rightarrow> backend \<Rightarrow> stat_row list" where
  "new_stats b0 b = drop (length (hourly (database b0))) (hourly (database b))"

fun consumer_state :: "consumer \<Rightarrow> backend" where
  "consumer_state (Listening b) = b"
| "consumer_state (Crashed e b) = b"

text \<open>The run invariant on snapshots: the table grows at the end, consecutive
  new snapshots have distinct hours, the first differs from the start hour and
  the last is the current watermark.\<close>

definition hour_inv :: "backend \<Rightarrow> backend \<Rightarrow> bool" where
  "hour_inv b0 b \<longleftrightarrow>
     (let ns = new_stats b0 b in
      take (length (hourly (database b0))) (hourly (database b)) = hourly (database b0) \<and>
      successively (\<noteq>) (map st_hour ns) \<and>
      (ns = [] \<longrightarrow> last_hourly_save b = last_hourly_save b0) \<and>
      (ns \<noteq> [] \<longrightarrow> st_hour (hd ns) \<noteq> last_hourly_save b0 \<and> st_hour (last ns) = last_hourly_save b))"

section \<open>Lemmas\<close>

inductive_cases reach_stepE: "reach b0 b'"

lemma summary_ok_iff: "summary_ok data \<longleftrightarrow> (\<exists>d'. insert_hourly_stat h now data d = Inr d')"
proof -
  let ?ks = "[''total_places'', ''occupied'', ''free'', ''occupancy_rate'']"
  have "summary_ok data \<longleftrightarrow>
      (\<exists>js. map (py_subscript data) ?ks = map Inr js \<and> (\<forall>j \<in> set js. \<exists>v. bind j = Inr v))"
  proof -
    have "summary_ok data \<longleftrightarrow>
        (\<forall>k \<in> set ?ks. \<exists>j. py_subscript data k = Inr j \<and> (\<exists>v. bind j = Inr v))"
      unfolding summary_ok_def by blast
    then show ?thesis by (simp only: map_Inr_exists)
  qed
  also have "\<dots> \<longleftrightarrow> (\<exists>d'. insert_hourly_stat h now data d = Inr d')"
  proof
    assume "\<exists>js. map (py_subscript data) ?ks = map Inr js \<and> (\<forall>j \<in> set js. \<exists>v. bind j = Inr v)"
    then obtain js where m: "map (py_subscript data) ?ks = map Inr js"
      and b: "\<forall>j \<in> set js. \<exists>v. bind j = Inr v"
      by blast
    from m have js: "seq_sum (map (py_subscript data) ?ks) = Inr js"
      by (simp only: m seq_sum_map_Inr)
    from b obtain vs where "seq_sum (map bind js) = Inr vs"
      using seq_sum_Inr_ex [of "map bind js"] by auto
    with js show "\<exists>d'. insert_hourly_stat h now data d = Inr d'"
      by (simp add: insert_hourly_stat_def)
  next
    assume "\<exists>d'. insert_hourly_stat h now data d = Inr d'"
    then obtain js vs where js: "seq_sum (map (py_subscript data) ?ks) = Inr js"
      and vs: "seq_sum (map bind js) = Inr vs"
      by (auto simp: insert_hourly_stat_def split: sum.splits)
    from vs have "\<forall>j \<in> set js. \<exists>v. bind j = Inr v"
      using seq_sum_Inr_ex [of "map bind js"] by auto
    with js show "\<exists>js. map (py_subscript data) ?ks = map Inr js \<and> (\<forall>j \<in> set js. \<exists>v. bind j = Inr v)"
      by (auto simp: seq_sum_Inr_iff)
  qed
  finally show ?thesis .
qed

text \<open>The two branches of \<open>handle_data\<close>: a summary and a status message.\<close>

lemma handle_data_summary:
  assumes "handle_data clk summary_topic data b = Inr b'"
  shows "b' = b \<or>
         (hour_at_check clk \<noteq> last_hourly_save b \<and> events (database b') = events (database b) \<and>
          last_hourly_save b' = hour_at_check clk \<and>
          (\<exists>r. hourly (database b') = hourly (database b) @ [r] \<and> st_hour r = hour_at_insert clk))"
proof (cases "hour_at_check clk = last_hourly_save b")
  case True
  with assms show ?thesis by (simp add: handle_data_def)
next
  case False
  with assms obtain d' where
    d': "insert_hourly_stat (hour_at_insert clk) (time_at_insert clk) data (database b) = Inr d'"
    and b': "b' = b\<lparr>database := d', last_hourly_save := hour_at_check clk\<rparr>"
    by (auto simp: handle_data_def split: sum.splits)
  from d' show ?thesis
    by (rule insert_hourly_stat_Inr) (use False b' in simp)
qed

lemma handle_data_event:
  assumes "t \<noteq> summary_topic" and "handle_data clk t data b = Inr b'"
  shows "hourly (database b') = hourly (database b) \<and> last_hourly_save b' = last_hourly_save b \<and>
         (\<exists>r. events (database b') = events (database b) @ [r])"
proof -
  from assms obtain vs d' where
    d': "insert_event (vs ! 0) (vs ! 1) (vs ! 2) (vs ! 3) (vs ! 4) (database b) = Inr d'"
    and b': "b' = b\<lparr>database := d'\<rparr>"
    by (auto simp: handle_data_def split: sum.splits)
  from d' show ?thesis by (rule insert_event_Inr) (use b' in simp)
qed

text \<open>The effect of one handled message: nothing, one snapshot, or one event.\<close>

lemma on_message_effect:
  assumes "on_message clk m b = Inr b'"
  shows "b' = b \<or>
         (msg_topic m = summary_topic \<and> hour_at_check clk \<noteq> last_hourly_save b \<and>
          events (database b') = events (database b) \<and>
          last_hourly_save b' = hour_at_check clk \<and>
          (\<exists>r. hourly (database b') = hourly (database b) @ [r] \<and> st_hour r = hour_at_insert clk)) \<or>
         (msg_topic m \<noteq> summary_topic \<and> hourly (database b') = hourly (database b) \<and>
          last_hourly_save b' = last_hourly_save b \<and>
          (\<exists>r. events (database b') = events (database b) @ [r]))"
proof -
  consider "b' = b" | data where "handle_data clk (msg_topic m) data b = Inr b'"
  proof (cases "msg_payload m")
    case BadUtf8
    with assms show ?thesis by (simp add: on_message_def)
  next
    case (Utf8Text x)
    show ?thesis
    proof (cases x)
      case None
      with assms Utf8Text show ?thesis using that(1) by (simp add: on_message_def)
    next
      case (Some data)
      with assms Utf8Text that show ?thesis
        by (cases "handle_data clk (msg_topic m) data b") (auto simp: on_message_def)
    qed
  qed
  then show ?thesis
  proof cases
    case 1
    then show ?thesis by simp
  next
    case (2 data)
    show ?thesis
    proof (cases "msg_topic m = summary_topic")
      case True
      with 2 handle_data_summary [of clk data b b'] show ?thesis by auto
    next
      case False
      with 2 handle_data_event [OF False] show ?thesis by auto
    qed
  qed
qed

lemma handle_data_wf:
  "wf_db (database b) \<Longrightarrow> handle_data clk t data b = Inr b' \<Longrightarrow> wf_db (database b')"
  unfolding handle_data_def
  by (auto split: if_splits sum.splits intro: insert_event_wf insert_hourly_stat_wf)

lemma on_message_wf: "wf_db (database b) \<Longrightarrow> on_message clk m b = Inr b' \<Longrightarrow> wf_db (database b')"
  by (auto simp: on_message_def split: payload.splits option.splits sum.splits intro: handle_data_wf)

lemma on_message_summary_same_hour:
  "hour_at_check clk = last_hourly_save b \<Longrightarrow> on_message clk (deliver summary_topic data) b = Inr b"
  by (simp add: on_message_def deliver_def handle_data_def)

lemma on_message_summary_new_hour:
  "hour_at_check clk \<noteq> last_hourly_save b \<Longrightarrow> summary_ok data \<Longrightarrow>
   \<exists>d'. on_message clk (deliver summary_topic data) b =
          Inr (b\<lparr>database := d', last_hourly_save := hour_at_check clk\<rparr>) \<and>
        length (hourly d') = Suc (length (hourly (database b)))"
proof -
  assume h: "hour_at_check clk \<noteq> last_hourly_save b" and ok: "summary_ok data"
  obtain d' where d': "insert_hourly_stat (hour_at_insert clk) (time_at_insert clk) data (database b) = Inr d'"
    using ok summary_ok_iff by blast
  have "length (hourly d') = Suc (length (hourly (database b)))"
    by (rule insert_hourly_stat_Inr [OF d']) simp
  with h d' show ?thesis by (auto simp: on_message_def deliver_def handle_data_def)
qed

text \<open>The invariant as a statement about the suffix of new snapshots.\<close>

lemma hour_inv_iff:
  "hour_inv b0 b \<longleftrightarrow>
     (\<exists>ns. hourly (database b) = hourly (database b0) @ ns \<and>
           successively (\<noteq>) (map st_hour ns) \<and>
           (ns = [] \<longrightarrow> last_hourly_save b = last_hourly_save b0) \<and>
           (ns \<noteq> [] \<longrightarrow> st_hour (hd ns) \<noteq> last_hourly_save b0 \<and> st_hour (last ns) = last_hourly_save b))"
    (is "?l \<longleftrightarrow> (\<exists>ns. ?r ns)")
proof
  assume ?l
  then show "\<exists>ns. ?r ns"
    by (intro exI [of _ "new_stats b0 b"])
       (auto simp: hour_inv_def new_stats_def Let_def simp del: append_take_drop_id
             intro: append_take_drop_id [symmetric, THEN trans])
next
  assume "\<exists>ns. ?r ns"
  then show ?l by (auto simp: hour_inv_def new_stats_def Let_def)
qed

lemma hour_inv_step:
  assumes inv: "hour_inv b0 b" and clk: "steady_clock clk" and m: "on_message clk m b = Inr b'"
  shows "hour_inv b0 b'"
proof -
  obtain ns where ns: "hourly (database b) = hourly (database b0) @ ns"
    "successively (\<noteq>) (map st_hour ns)"
    "ns = [] \<longrightarrow> last_hourly_save b = last_hourly_save b0"
    "ns \<noteq> [] \<longrightarrow> st_hour (hd ns) \<noteq> last_hourly_save b0 \<and> st_hour (last ns) = last_hourly_save b"
    using inv by (auto simp: hour_inv_iff)
  from on_message_effect [OF m] show ?thesis
  proof (elim disjE conjE exE)
    assume "b' = b" with inv show ?thesis by simp
  next
    fix r
    assume neq: "hour_at_check clk \<noteq> last_hourly_save b"
      and w: "last_hourly_save b' = hour_at_check clk"
      and r: "hourly (database b') = hourly (database b) @ [r]" "st_hour r = hour_at_insert clk"
    from clk r(2) have hr: "st_hour r = hour_at_check clk" by (simp add: steady_clock_def)
    have "hourly (database b') = hourly (database b0) @ (ns @ [r])" using ns(1) r(1) by simp
    moreover have "successively (\<noteq>) (map st_hour (ns @ [r]))"
      using ns(2,4) neq hr by (cases "ns = []") (auto simp: successively_append_iff last_map)
    moreover have "st_hour (hd (ns @ [r])) \<noteq> last_hourly_save b0"
      using ns(3,4) neq hr by (cases "ns = []") auto
    moreover have "st_hour (last (ns @ [r])) = last_hourly_save b'" using w hr by simp
    ultimately show ?thesis unfolding hour_inv_iff by blast
  next
    assume "hourly (database b') = hourly (database b)" "last_hourly_save b' = last_hourly_save b"
    with ns show ?thesis unfolding hour_inv_iff by metis
  qed
qed

lemma reach_hour_inv: "reach b0 b \<Longrightarrow> hour_inv b0 b"
proof (induction rule: reach.induct)
  case start
  show ?case by (simp add: hour_inv_def new_stats_def)
next
  case (step b clk m b')
  then show ?case by (blast intro: hour_inv_step)
qed

lemma hour_inv_new_stats: "hour_inv b0 b \<Longrightarrow>
   successively (\<noteq>) (map st_hour (new_stats b0 b)) \<and>
   (new_stats b0 b \<noteq> [] \<longrightarrow> st_hour (hd (new_stats b0 b)) \<noteq> last_hourly_save b0)"
  by (simp add: hour_inv_def Let_def)

section \<open>Properties\<close>

text \<open>
  C2. Under a clock that does not cross an hour boundary within a message, the
  snapshots a run adds have pairwise different hours from one to the next, and
  the first differs from the hour the service started in: at most one snapshot
  per hour transition.
\<close>

theorem reach_snapshot_hours:
  assumes "reach b0 b"
  shows "successively (\<noteq>) (map st_hour (new_stats b0 b)) \<and>
         (new_stats b0 b \<noteq> [] \<longrightarrow> st_hour (hd (new_stats b0 b)) \<noteq> last_hourly_save b0)"
  using reach_hour_inv [OF assms] by (rule hour_inv_new_stats)

theorem reach_snapshot_hours_witness:
  "reach (init_backend 9 None)
     (init_backend 9 None\<lparr>database := \<lparr>events = [], hourly = [\<lparr>st_id = 1, st_timestamp = ''t'', st_hour = 10,
        st_total = SInt 24, st_occ = SInt 6, st_free = SInt 18, st_rate = SReal 25\<rparr>]\<rparr>,
        last_hourly_save := 10\<rparr>) \<and>
   successively (\<noteq>) (map st_hour (new_stats (init_backend 9 None)
     (init_backend 9 None\<lparr>database := \<lparr>events = [], hourly = [\<lparr>st_id = 1, st_timestamp = ''t'', st_hour = 10,
        st_total = SInt 24, st_occ = SInt 6, st_free = SInt 18, st_rate = SReal 25\<rparr>]\<rparr>,
        last_hourly_save := 10\<rparr>)))"
proof -
  let ?b0 = "init_backend 9 None"
  let ?data = "JObj [(''total_places'', JInt 24), (''occupied'', JInt 6), (''free'', JInt 18),
                     (''occupancy_rate'', JFloat 25)]"
  let ?clk = "\<lparr>hour_at_check = 10, hour_at_insert = 10, time_at_insert = ''t''\<rparr>"
  let ?b1 = "?b0\<lparr>database := \<lparr>events = [], hourly = [\<lparr>st_id = 1, st_timestamp = ''t'', st_hour = 10,
        st_total = SInt 24, st_occ = SInt 6, st_free = SInt 18, st_rate = SReal 25\<rparr>]\<rparr>,
        last_hourly_save := 10\<rparr>"
  have m: "on_message ?clk (deliver summary_topic ?data) ?b0 = Inr ?b1"
    by (simp add: on_message_def deliver_def handle_data_def insert_hourly_stat_def init_backend_def
        init_database_def obj_lookup_def next_id_def seq_sum.simps)
  have r: "reach ?b0 ?b1"
    by (rule reach.step [OF reach.start _ m]) (simp add: steady_clock_def)
  show ?thesis using r reach_snapshot_hours [OF r] by blast
qed

text \<open>
  C1. For a sequence of well-formed summaries handled under a steady clock,
  the service stays up and adds exactly as many snapshots as there are hour
  changes along the watermark and the messages' hours.
\<close>

theorem consume_summaries_count:
  assumes "\<forall>cm \<in> set ms. steady_clock (fst cm) \<and>
             (\<exists>data. snd cm = deliver summary_topic data \<and> summary_ok data)"
  shows "\<exists>b'. consume ms b = Listening b' \<and>
           length (hourly (database b')) =
             length (hourly (database b)) + changes (last_hourly_save b) (map (hour_at_check \<circ> fst) ms)"
  using assms
proof (induction ms arbitrary: b)
  case Nil
  then show ?case by simp
next
  case (Cons cm ms)
  obtain clk m where cm: "cm = (clk, m)" by (cases cm)
  from Cons.prems cm obtain data where m: "m = deliver summary_topic data" and ok: "summary_ok data"
    by auto
  from Cons.prems have rest: "\<forall>cm \<in> set ms. steady_clock (fst cm) \<and>
             (\<exists>data. snd cm = deliver summary_topic data \<and> summary_ok data)" by simp
  show ?case
  proof (cases "hour_at_check clk = last_hourly_save b")
    case True
    with on_message_summary_same_hour have "on_message clk m b = Inr b" unfolding m by blast
    with Cons.IH [OF rest, of b] cm True show ?thesis by simp
  next
    case False
    with on_message_summary_new_hour [OF False ok] obtain d' where
      om: "on_message clk m b = Inr (b\<lparr>database := d', last_hourly_save := hour_at_check clk\<rparr>)"
      and len: "length (hourly d') = Suc (length (hourly (database b)))"
      unfolding m by blast
    with Cons.IH [OF rest, of "b\<lparr>database := d', last_hourly_save := hour_at_check clk\<rparr>"] cm False
    show ?thesis by auto
  qed
qed

theorem consume_summaries_count_witness:
  "\<exists>b'. consume (map (\<lambda>h. (\<lparr>hour_at_check = h, hour_at_insert = h, time_at_insert = ''t''\<rparr>,
                            deliver summary_topic (JObj [(''total_places'', JInt 24), (''occupied'', JInt 6),
                               (''free'', JInt 18), (''occupancy_rate'', JFloat 25)])))
                    [10, 10, 10, 11, 11, 12])
               (init_backend 9 None) = Listening b' \<and>
        length (hourly (database b')) = 3"
proof -
  let ?data = "JObj [(''total_places'', JInt 24), (''occupied'', JInt 6), (''free'', JInt 18),
                     (''occupancy_rate'', JFloat 25)]"
  let ?ms = "map (\<lambda>h. (\<lparr>hour_at_check = h, hour_at_insert = h, time_at_insert = ''t''\<rparr>,
                      deliver summary_topic ?data)) [10, 10, 10, 11, 11, 12::nat]"
  have ok: "summary_ok ?data" by (simp add: summary_ok_def obj_lookup_def)
  have h: "\<forall>cm \<in> set ?ms. steady_clock (fst cm) \<and> (\<exists>data. snd cm = deliver summary_topic data \<and> summary_ok data)"
    using ok by (auto simp: steady_clock_def)
  obtain b' where c: "consume ?ms (init_backend 9 None) = Listening b'"
    and l: "length (hourly (database b')) =
              length (hourly (database (init_backend 9 None))) +
              changes (last_hourly_save (init_backend 9 None)) (map (hour_at_check \<circ> fst) ?ms)"
    using consume_summaries_count [OF h, of "init_backend 9 None"] by blast
  from l have "length (hourly (database b')) = 3"
    by (simp add: init_backend_def init_database_def)
  with c show ?thesis by blast
qed

text \<open>
  C20. A summary that arrives in a new hour but cannot be stored (a missing
  count, or a count that is a list or an object) changes nothing, not even the
  watermark: the next good summary of the same hour is still snapshotted.
\<close>

theorem on_message_bad_summary:
  assumes "hour_at_check clk \<noteq> last_hourly_save b" and "\<not> summary_ok data"
  shows "on_message clk (deliver summary_topic data) b = Inr b"
proof -
  obtain e where "insert_hourly_stat (hour_at_insert clk) (time_at_insert clk) data (database b) = Inl e"
    using assms(2) summary_ok_iff [of data "hour_at_insert clk" "time_at_insert clk" "database b"]
    by (metis sum.exhaust)
  with assms(1) show ?thesis by (simp add: on_message_def deliver_def handle_data_def)
qed

theorem on_message_bad_summary_witness:
  "(10::nat) \<noteq> last_hourly_save (init_backend 9 None) \<and> \<not> summary_ok (JObj []) \<and>
   on_message \<lparr>hour_at_check = 10, hour_at_insert = 10, time_at_insert = ''t''\<rparr>
     (deliver summary_topic (JObj [])) (init_backend 9 None) = Inr (init_backend 9 None)"
proof -
  have h: "hour_at_check \<lparr>hour_at_check = 10, hour_at_insert = 10, time_at_insert = ''t''\<rparr>
             \<noteq> last_hourly_save (init_backend 9 None)" "\<not> summary_ok (JObj [])"
    by (auto simp: init_backend_def summary_ok_def obj_lookup_def)
  show ?thesis using h on_message_bad_summary [OF h] by simp
qed

text \<open>
  C21. A payload that is not valid UTF-8 is decoded outside the \<open>try\<close>: the
  exception escapes the callback, the consumer stops, and every later message
  is lost.
\<close>

theorem consume_bad_utf8:
  "consume ((clk, \<lparr>msg_topic = t, msg_payload = BadUtf8\<rparr>) # ms) b = Crashed UnicodeDecodeError b"
  by (simp add: on_message_def)

lemma on_message_summary_snapshot:
  assumes "hour_at_check clk \<noteq> last_hourly_save b" and "summary_ok data"
  shows "\<exists>r. on_message clk (deliver summary_topic data) b =
           Inr (b\<lparr>database := (database b)\<lparr>hourly := hourly (database b) @ [r]\<rparr>,
                  last_hourly_save := hour_at_check clk\<rparr>) \<and> st_hour r = hour_at_insert clk"
proof -
  obtain d' where d': "insert_hourly_stat (hour_at_insert clk) (time_at_insert clk) data (database b) = Inr d'"
    using assms(2) summary_ok_iff by blast
  obtain vs where "d' = (database b)\<lparr>hourly := hourly (database b) @
      [\<lparr>st_id = next_id (map st_id (hourly (database b))), st_timestamp = time_at_insert clk,
        st_hour = hour_at_insert clk, st_total = vs ! 0, st_occ = vs ! 1, st_free = vs ! 2, st_rate = vs ! 3\<rparr>]\<rparr>"
    by (rule insert_hourly_stat_Inr [OF d'])
  with d' assms(1) show ?thesis
    by (simp add: on_message_def deliver_def handle_data_def) (rule exI, rule conjI, rule refl, simp)
qed

text \<open>
  C22. When the clock crosses an hour boundary between the watermark check
  (line 191) and the insert (line 77), two consecutive snapshots get the same
  hour: a summary checked in hour \<open>h\<close> is stored as hour \<open>h'\<close> and moves
  the watermark only to \<open>h\<close>, so the next summary, in hour \<open>h'\<close>, is
  snapshotted again with hour \<open>h'\<close>.
\<close>

theorem consume_clock_race:
  assumes ok: "summary_ok data" and new: "last_hourly_save b \<noteq> h" and cross: "h \<noteq> h'"
  shows "\<exists>b'. consume [(\<lparr>hour_at_check = h, hour_at_insert = h', time_at_insert = t1\<rparr>, deliver summary_topic data),
                      (\<lparr>hour_at_check = h', hour_at_insert = h', time_at_insert = t2\<rparr>, deliver summary_topic data)] b =
              Listening b' \<and>
              map st_hour (hourly (database b')) = map st_hour (hourly (database b)) @ [h', h'] \<and>
              last_hourly_save b' = h'"
proof -
  obtain r1 where r1: "on_message \<lparr>hour_at_check = h, hour_at_insert = h', time_at_insert = t1\<rparr> (deliver summary_topic data) b =
      Inr (b\<lparr>database := (database b)\<lparr>hourly := hourly (database b) @ [r1]\<rparr>, last_hourly_save := h\<rparr>)"
      "st_hour r1 = h'"
    using on_message_summary_snapshot [OF _ ok, of "\<lparr>hour_at_check = h, hour_at_insert = h', time_at_insert = t1\<rparr>" b] new
    by auto
  let ?b1 = "b\<lparr>database := (database b)\<lparr>hourly := hourly (database b) @ [r1]\<rparr>, last_hourly_save := h\<rparr>"
  obtain r2 where r2: "on_message \<lparr>hour_at_check = h', hour_at_insert = h', time_at_insert = t2\<rparr> (deliver summary_topic data) ?b1 =
      Inr (?b1\<lparr>database := (database ?b1)\<lparr>hourly := hourly (database ?b1) @ [r2]\<rparr>, last_hourly_save := h'\<rparr>)"
      "st_hour r2 = h'"
    using on_message_summary_snapshot [OF _ ok, of "\<lparr>hour_at_check = h', hour_at_insert = h', time_at_insert = t2\<rparr>" ?b1] cross
    by auto
  show ?thesis using r1 r2 by simp
qed

theorem consume_clock_race_witness:
  "summary_ok (JObj [(''total_places'', JInt 24), (''occupied'', JInt 6), (''free'', JInt 18), (''occupancy_rate'', JFloat 25)]) \<and>
   last_hourly_save (init_backend 9 None) \<noteq> 10 \<and> (10 :: nat) \<noteq> 11 \<and>
   (\<exists>b'. consume [(\<lparr>hour_at_check = 10, hour_at_insert = 11, time_at_insert = ''t1''\<rparr>,
                     deliver summary_topic (JObj [(''total_places'', JInt 24), (''occupied'', JInt 6),
                        (''free'', JInt 18), (''occupancy_rate'', JFloat 25)])),
                    (\<lparr>hour_at_check = 11, hour_at_insert = 11, time_at_insert = ''t2''\<rparr>,
                     deliver summary_topic (JObj [(''total_places'', JInt 24), (''occupied'', JInt 6),
                        (''free'', JInt 18), (''occupancy_rate'', JFloat 25)]))] (init_backend 9 None) = Listening b' \<and>
          map st_hour (hourly (database b')) = [11, 11] \<and> last_hourly_save b' = 11)"
proof -
  have ok: "summary_ok (JObj [(''total_places'', JInt 24), (''occupied'', JInt 6), (''free'', JInt 18),
      (''occupancy_rate'', JFloat 25)])"
    by (simp add: summary_ok_def obj_lookup_def)
  have new: "last_hourly_save (init_backend 9 None) \<noteq> 10" by (simp add: init_backend_def)
  have cross: "(10 :: nat) \<noteq> 11" by simp
  show ?thesis
    using ok new cross consume_clock_race [OF ok new cross, of "''t1''" "''t2''"]
    by (simp add: init_backend_def init_database_def)
qed

end
