(* ===== verification/Ingest.thy ===== *)
theory Ingest
  imports Backend Bus
begin

text \<open>
  The backend's side of the message contract of theory \<open>Bus\<close>. On messages
  that meet the contract, \<open>on_message\<close> never fails: a status report becomes
  one event row whose columns hold values of their declared types, and a
  summary at most one snapshot row of the declared types. An abstract
  specification of ingestion, \<open>ingest_spec\<close>, says what the event table
  holds: the values of the status reports, in the order of arrival, the
  summaries skipped. \<open>consume\<close> refines it (\<open>consume_refines_log\<close>).
\<close>

text \<open>The decoded payload of a message (\<open>JNull\<close> when there is none).\<close>

definition msg_json :: "mqtt_msg \<Rightarrow> json" where
  "msg_json m = (case msg_payload m of Utf8Text (Some j) \<Rightarrow> j | _ \<Rightarrow> JNull)"

text \<open>
  The values a status report stores, in the column order of
  \<open>parking_events\<close>: each field as \<open>data.get\<close> reads it and \<open>sqlite3\<close>
  binds it.
\<close>

definition report :: "json \<Rightarrow> sqlval list" where
  "report j =
     map (\<lambda>k. case py_get j k of Inr v \<Rightarrow> (case bind v of Inr x \<Rightarrow> x | Inl e \<Rightarrow> SNull) | Inl e \<Rightarrow> SNull)
       [''timestamp'', ''zone'', ''sensor_id'', ''status'', ''confidence'']"

text \<open>The abstract event log: the event table without its ids.\<close>

definition event_log :: "db \<Rightarrow> sqlval list list" where
  "event_log d = map event_values (events d)"

definition ingest_spec :: "mqtt_msg list \<Rightarrow> sqlval list list" where
  "ingest_spec ms = map (report \<circ> msg_json) (filter (\<lambda>m. msg_topic m \<noteq> summary_topic) ms)"

section \<open>Lemmas\<close>

lemma bound_type_SomeE:
  assumes "bound_type r = Some T"
  obtains v x where "r = Inr v" "bind v = Inr x" "sql_type x = T"
  using assms by (auto simp: bound_type_Some)

lemma sql_type_not_null: "sql_type x \<noteq> TNull \<Longrightarrow> x \<noteq> SNull"
  by auto

lemma status_payload_handle:
  assumes ok: "status_payload_ok j" and t: "t \<noteq> summary_topic"
  shows "\<exists>r. handle_data clk t j b = Inr (b\<lparr>database := (database b)\<lparr>events := events (database b) @ [r]\<rparr>\<rparr>) \<and>
             event_values r = report j \<and> map sql_type (event_values r) = map snd event_columns"
proof -
  have "bound_type (py_get j ''zone'') = Some TText" "bound_type (py_get j ''sensor_id'') = Some TInteger"
    "bound_type (py_get j ''status'') = Some TText" "bound_type (py_get j ''confidence'') = Some TReal"
    "bound_type (py_get j ''timestamp'') = Some TText"
    using ok by (simp_all add: status_payload_ok_def)
  then obtain vz xz vi xi vs xs vc xc vt xt where
    z: "py_get j ''zone'' = Inr vz" "bind vz = Inr xz" "sql_type xz = TText" and
    i: "py_get j ''sensor_id'' = Inr vi" "bind vi = Inr xi" "sql_type xi = TInteger" and
    s: "py_get j ''status'' = Inr vs" "bind vs = Inr xs" "sql_type xs = TText" and
    c: "py_get j ''confidence'' = Inr vc" "bind vc = Inr xc" "sql_type xc = TReal" and
    ts: "py_get j ''timestamp'' = Inr vt" "bind vt = Inr xt" "sql_type xt = TText"
    by (elim bound_type_SomeE) blast
  have nn: "xz \<noteq> SNull" "xi \<noteq> SNull" "xs \<noteq> SNull" "xt \<noteq> SNull"
    using z(3) i(3) s(3) ts(3) by (auto intro: sql_type_not_null)
  show ?thesis
    using t z i s c ts nn
    by (simp add: handle_data_def insert_event_def seq_sum.simps null_violation_def report_def
        event_values_def event_columns_def) force
qed

lemma summary_payload_insert:
  assumes ok: "summary_payload_ok j"
  shows "\<exists>r. insert_hourly_stat h now j d = Inr (d\<lparr>hourly := hourly d @ [r]\<rparr>) \<and>
             map sql_type (stat_values r) = map snd stat_columns"
proof -
  have "bound_type (py_subscript j ''total_places'') = Some TInteger"
    "bound_type (py_subscript j ''occupied'') = Some TInteger"
    "bound_type (py_subscript j ''free'') = Some TInteger"
    "bound_type (py_subscript j ''occupancy_rate'') = Some TReal"
    using ok by (simp_all add: summary_payload_ok_def)
  then obtain vt xt vo xo vf xf vr xr where
    "py_subscript j ''total_places'' = Inr vt" "bind vt = Inr xt" "sql_type xt = TInteger"
    "py_subscript j ''occupied'' = Inr vo" "bind vo = Inr xo" "sql_type xo = TInteger"
    "py_subscript j ''free'' = Inr vf" "bind vf = Inr xf" "sql_type xf = TInteger"
    "py_subscript j ''occupancy_rate'' = Inr vr" "bind vr = Inr xr" "sql_type xr = TReal"
    by (elim bound_type_SomeE) blast
  then show ?thesis
    by (simp add: insert_hourly_stat_def seq_sum.simps stat_values_def stat_columns_def) force
qed

text \<open>A status report that meets the contract adds one typed event row with the report's values.\<close>

lemma on_message_status:
  assumes "msg_ok m" and t: "msg_topic m \<noteq> summary_topic"
  shows "\<exists>r. on_message clk m b = Inr (b\<lparr>database := (database b)\<lparr>events := events (database b) @ [r]\<rparr>\<rparr>) \<and>
             event_values r = report (msg_json m) \<and> map sql_type (event_values r) = map snd event_columns"
proof -
  obtain j where p: "msg_payload m = Utf8Text (Some j)" and ok: "status_payload_ok j"
    using assms by (auto simp: msg_ok_def split: payload.splits option.splits)
  show ?thesis
    using status_payload_handle [OF ok t, of clk b] p by (auto simp: on_message_def msg_json_def)
qed

text \<open>A summary that meets the contract leaves the events and adds at most one typed snapshot.\<close>

lemma on_message_summary:
  assumes "msg_ok m" and t: "msg_topic m = summary_topic"
  shows "\<exists>b'. on_message clk m b = Inr b' \<and> events (database b') = events (database b) \<and>
              (hourly (database b') = hourly (database b) \<or>
               (\<exists>r. hourly (database b') = hourly (database b) @ [r] \<and>
                    map sql_type (stat_values r) = map snd stat_columns))"
proof -
  obtain j where p: "msg_payload m = Utf8Text (Some j)" and ok: "summary_payload_ok j"
    using assms by (auto simp: msg_ok_def split: payload.splits option.splits)
  obtain r where r: "insert_hourly_stat (hour_at_insert clk) (time_at_insert clk) j (database b) =
      Inr ((database b)\<lparr>hourly := hourly (database b) @ [r]\<rparr>)"
      "map sql_type (stat_values r) = map snd stat_columns"
    using summary_payload_insert [OF ok] by blast
  show ?thesis
    using p t r by (auto simp: on_message_def handle_data_def)
qed

lemma consume_contract:
  "list_all msg_ok (map snd cms) \<Longrightarrow>
   \<exists>b'. consume cms b = Listening b' \<and>
        event_log (database b') = event_log (database b) @ ingest_spec (map snd cms) \<and>
        (db_typed (database b) \<longrightarrow> db_typed (database b'))"
proof (induction cms arbitrary: b)
  case Nil
  then show ?case by (simp add: ingest_spec_def)
next
  case (Cons cm cms)
  obtain clk m where cm: "cm = (clk, m)" by (cases cm)
  have ok: "msg_ok m" and oks: "list_all msg_ok (map snd cms)" using Cons.prems cm by simp_all
  show ?case
  proof (cases "msg_topic m = summary_topic")
    case True
    obtain b1 where b1: "on_message clk m b = Inr b1" "events (database b1) = events (database b)"
        "hourly (database b1) = hourly (database b) \<or>
         (\<exists>r. hourly (database b1) = hourly (database b) @ [r] \<and> map sql_type (stat_values r) = map snd stat_columns)"
      using on_message_summary [OF ok True] by blast
    have "db_typed (database b) \<longrightarrow> db_typed (database b1)"
      using b1(2,3) by (auto simp: db_typed_def)
    then show ?thesis
      using Cons.IH [OF oks, of b1] b1(1,2) cm True by (auto simp: event_log_def ingest_spec_def)
  next
    case False
    obtain r where r: "on_message clk m b = Inr (b\<lparr>database := (database b)\<lparr>events := events (database b) @ [r]\<rparr>\<rparr>)"
        "event_values r = report (msg_json m)" "map sql_type (event_values r) = map snd event_columns"
      using on_message_status [OF ok False] by blast
    show ?thesis
      using Cons.IH [OF oks, of "b\<lparr>database := (database b)\<lparr>events := events (database b) @ [r]\<rparr>\<rparr>"] r cm False
      by (auto simp: event_log_def ingest_spec_def db_typed_def)
  qed
qed

lemma length_filter_event_values:
  "length (filter (\<lambda>r. Q (event_values r)) rs) = length (filter Q (map event_values rs))"
  by (simp add: filter_map comp_def)

lemma report_status_contract:
  assumes "msg_ok m" and "msg_topic m \<noteq> summary_topic"
  shows "report (msg_json m) ! 3 \<in> {SText ''occupied'', SText ''free''}"
proof -
  obtain j where j: "msg_payload m = Utf8Text (Some j)" and ok: "status_payload_ok j"
    using assms by (auto simp: msg_ok_def split: payload.splits option.splits)
  then show ?thesis by (auto simp: status_payload_ok_def report_def msg_json_def)
qed

lemma ingest_spec_status:
  "list_all msg_ok ms \<Longrightarrow> v \<in> set (ingest_spec ms) \<Longrightarrow> v ! 3 \<in> {SText ''occupied'', SText ''free''}"
  using report_status_contract by (fastforce simp: ingest_spec_def list_all_iff)

lemma length_filter_split:
  assumes "\<And>x. x \<in> set xs \<Longrightarrow> P x \<Longrightarrow> Q x \<or> R x" and "\<And>x. \<not> (Q x \<and> R x)"
  shows "length (filter (\<lambda>x. P x \<and> Q x) xs) + length (filter (\<lambda>x. P x \<and> R x) xs) = length (filter P xs)"
  using assms by (induction xs) auto

lemma msg_ok_topic_matches: "msg_ok m \<Longrightarrow> topic_matches backend_filter (msg_topic m)"
  by (auto simp: msg_ok_def backend_filter_def intro: take_parking [THEN ssubst] topic_matches_parking)


section \<open>Properties\<close>

text \<open>
  C10. Refinement of the abstract ingestion specification: on any sequence of
  messages that meet the contract, with any clock readings, the backend keeps
  listening, and its event table, read without ids, is the table it started
  with followed by the values of the status reports in arrival order;
  summaries add no event.
\<close>

theorem consume_refines_log:
  assumes "list_all msg_ok (map snd cms)"
  shows "\<exists>b'. consume cms b = Listening b' \<and>
              event_log (database b') = event_log (database b) @ ingest_spec (map snd cms)"
  using assms
proof (induction cms arbitrary: b)
  case Nil
  then show ?case by (simp add: ingest_spec_def)
next
  case (Cons cm cms)
  obtain clk m where cm: "cm = (clk, m)" by (cases cm)
  have ok: "msg_ok m" and oks: "list_all msg_ok (map snd cms)" using Cons.prems cm by simp_all
  show ?case
  proof (cases "msg_topic m = summary_topic")
    case True
    obtain b1 where "on_message clk m b = Inr b1" "events (database b1) = events (database b)"
      using on_message_summary [OF ok True] by blast
    then show ?thesis
      using Cons.IH [OF oks, of b1] cm True by (auto simp: event_log_def ingest_spec_def)
  next
    case False
    obtain r where "on_message clk m b = Inr (b\<lparr>database := (database b)\<lparr>events := events (database b) @ [r]\<rparr>\<rparr>)"
        "event_values r = report (msg_json m)"
      using on_message_status [OF ok False] by blast
    then show ?thesis
      using Cons.IH [OF oks, of "b\<lparr>database := (database b)\<lparr>events := events (database b) @ [r]\<rparr>\<rparr>"] cm False
      by (auto simp: event_log_def ingest_spec_def)
  qed
qed

theorem consume_refines_log_witness:
  "list_all msg_ok [\<lparr>msg_topic = ''parking/A/place_1'', msg_payload = Utf8Text (Some (JObj
      [(''sensor_id'', JInt 1), (''zone'', JStr ''A''), (''status'', JStr ''free''),
       (''timestamp'', JStr ''T''), (''confidence'', JFloat 1)]))\<rparr>] \<and>
   (\<exists>b'. consume [(\<lparr>hour_at_check = 9, hour_at_insert = 9, time_at_insert = ''t''\<rparr>,
          \<lparr>msg_topic = ''parking/A/place_1'', msg_payload = Utf8Text (Some (JObj
            [(''sensor_id'', JInt 1), (''zone'', JStr ''A''), (''status'', JStr ''free''),
             (''timestamp'', JStr ''T''), (''confidence'', JFloat 1)]))\<rparr>)] (init_backend 9 None) = Listening b' \<and>
        event_log (database b') = [[SText ''T'', SText ''A'', SInt 1, SText ''free'', SReal 1]])"
proof -
  let ?m = "\<lparr>msg_topic = ''parking/A/place_1'', msg_payload = Utf8Text (Some (JObj
      [(''sensor_id'', JInt 1), (''zone'', JStr ''A''), (''status'', JStr ''free''),
       (''timestamp'', JStr ''T''), (''confidence'', JFloat 1)]))\<rparr>"
  have ok: "list_all msg_ok [?m]"
    by (simp add: msg_ok_def summary_topic_def status_payload_ok_def obj_lookup_def bound_type_def)
  show ?thesis
    using ok consume_refines_log [of "[(\<lparr>hour_at_check = 9, hour_at_insert = 9, time_at_insert = ''t''\<rparr>, ?m)]"
        "init_backend 9 None"]
    by (simp add: init_backend_def init_database_def event_log_def ingest_spec_def msg_json_def report_def
        summary_topic_def obj_lookup_def)
qed

text \<open>
  C13. The backend's subscription receives the simulator's traffic: after a
  successful connection (\<open>rc = 0\<close>) the filter \<open>parking/#\<close> matches every
  message that meets the contract, so all of them reach \<open>on_message\<close> in
  order; after a failed connection nothing is subscribed and nothing arrives.
\<close>

theorem backend_subscription_receives:
  assumes "list_all msg_ok ms"
  shows "subscribed (backend_on_connect rc) ms = (if rc = 0 then ms else [])"
proof (cases "rc = 0")
  case True
  have "\<forall>m \<in> set ms. topic_matches backend_filter (msg_topic m)"
    using assms by (simp add: list_all_iff msg_ok_topic_matches)
  with True show ?thesis by (simp add: subscribed_def backend_on_connect_def)
next
  case False
  then show ?thesis by (simp add: subscribed_def backend_on_connect_def)
qed

theorem backend_subscription_receives_witness:
  "list_all msg_ok [\<lparr>msg_topic = ''parking/summary'', msg_payload = Utf8Text (Some (JObj
      [(''total_places'', JInt 2), (''occupied'', JInt 1), (''free'', JInt 1), (''occupancy_rate'', JFloat 50)]))\<rparr>] \<and>
   subscribed (backend_on_connect 0) [\<lparr>msg_topic = ''parking/summary'', msg_payload = Utf8Text (Some (JObj
      [(''total_places'', JInt 2), (''occupied'', JInt 1), (''free'', JInt 1), (''occupancy_rate'', JFloat 50)]))\<rparr>] =
   [\<lparr>msg_topic = ''parking/summary'', msg_payload = Utf8Text (Some (JObj
      [(''total_places'', JInt 2), (''occupied'', JInt 1), (''free'', JInt 1), (''occupancy_rate'', JFloat 50)]))\<rparr>]"
proof -
  let ?m = "\<lparr>msg_topic = ''parking/summary'', msg_payload = Utf8Text (Some (JObj
      [(''total_places'', JInt 2), (''occupied'', JInt 1), (''free'', JInt 1), (''occupancy_rate'', JFloat 50)]))\<rparr>"
  have ok: "list_all msg_ok [?m]"
    by (simp add: msg_ok_def summary_topic_def summary_payload_ok_def obj_lookup_def bound_type_def)
  show ?thesis using ok backend_subscription_receives [OF ok, of 0] by simp
qed

end
