(* ===== verification/Api.thy ===== *)
theory Api
  imports Backend
begin

text \<open>
  The read-only HTTP layer of \<open>src/backend/backend_server.py\<close>: each Flask
  route reads the store through one \<open>ParkingDatabase\<close> query and wraps the
  result in the envelope \<open>{success, ...}\<close>; an exception in a route is
  Flask's generic error response (\<open>Inl\<close>); \<open>serve\<close> is the route
  table with the index route. \<open>start_backend\<close> starts the MQTT client and
  then the web server; \<open>backend_main\<close> is the whole backend process. The query string is given as Flask's
  \<open>request.args.get('limit', 50, type=int)\<close> makes it: \<open>None\<close> when absent or
  not an integer, otherwise the integer.
\<close>

record events_response =
  ev_success :: bool
  ev_count :: nat
  ev_events :: "(sqlval \<times> sqlval \<times> sqlval \<times> sqlval) list"

record hourly_response =
  hr_success :: bool
  hr_statistics :: "(nat \<times> real \<times> nat) list"

record zones_response =
  zr_success :: bool
  zr_zones :: "(sqlval \<times> nat \<times> nat \<times> nat) list"

record health_response =
  h_success :: bool
  h_status :: string
  h_database :: string
  h_mqtt :: string
  h_timestamp :: iso_time

text \<open>The state of the backend process after \<open>start_backend\<close>.\<close>

record server =
  mqtt_started :: bool
  http_serving :: bool

definition limit_arg :: "int option \<Rightarrow> int" where
  "limit_arg arg = (case arg of None \<Rightarrow> 50 | Some n \<Rightarrow> n)"

definition get_events :: "int option \<Rightarrow> db \<Rightarrow> events_response" where
  "get_events arg d =
     (let evs = get_recent_events (limit_arg arg) d in
      \<lparr>ev_success = True, ev_count = length evs, ev_events = evs\<rparr>)"

definition get_hourly_stats :: "db \<Rightarrow> exc + hourly_response" where
  "get_hourly_stats d =
     (case get_statistics_by_hour d of
        Inl e \<Rightarrow> Inl e
      | Inr st \<Rightarrow> Inr \<lparr>hr_success = True, hr_statistics = st\<rparr>)"

definition get_zone_stats :: "string \<Rightarrow> db \<Rightarrow> zones_response" where
  "get_zone_stats cutoff d = \<lparr>zr_success = True, zr_zones = get_zone_statistics cutoff d\<rparr>"

text \<open>\<open>health_check\<close> reads nothing: its answer is fixed but for the clock.\<close>

definition health_check :: "iso_time \<Rightarrow> consumer \<Rightarrow> health_response" where
  "health_check now c =
     \<lparr>h_success = True, h_status = ''healthy'', h_database = ''connected'', h_mqtt = ''connected'',
      h_timestamp = now\<rparr>"

text \<open>
  \<open>MQTTBackend.connect\<close> catches the failure of \<open>client.connect\<close> and only
  prints it; \<open>start_backend\<close> then runs the web server in either case.
\<close>

definition backend_connect :: "bool \<Rightarrow> bool" where
  "backend_connect ok = ok"

definition start_backend :: "bool \<Rightarrow> server" where
  "start_backend ok = \<lparr>mqtt_started = backend_connect ok, http_serving = True\<rparr>"

text \<open>
  The index route \<open>/\<close>: a constant answer naming the API and its
  endpoints. Strings are byte lists, so the emoji of the message is written as
  its UTF-8 bytes.
\<close>

definition index_json :: json where
  "index_json =
     JObj [(''message'', JStr ([CHR 0xF0, CHR 0x9F, CHR 0x85, CHR 0xBF, CHR 0xEF, CHR 0xB8, CHR 0x8F] @
                              '' Parking IoT Backend API'')),
           (''version'', JStr ''1.0''),
           (''endpoints'', JObj [(''/api/events'', JStr ''Recent parking events''),
                                (''/api/stats/hourly'', JStr ''Hourly statistics''),
                                (''/api/stats/zones'', JStr ''Statistics by zone''),
                                (''/api/health'', JStr ''Health check'')])]"

text \<open>The paths the index answer advertises.\<close>

definition index_paths :: "string list" where
  "index_paths = (case py_get index_json ''endpoints'' of Inr (JObj kvs) \<Rightarrow> map fst kvs | _ \<Rightarrow> [])"

text \<open>
  One HTTP request: the \<open>limit\<close> query parameter as Flask converts it, the
  clock, and the cutoff \<open>datetime('now', '-1 day')\<close> SQLite computes.
\<close>

record request_env =
  req_limit :: "int option"
  req_now :: iso_time
  req_cutoff :: string

datatype reply =
    IndexR json
  | EventsR events_response
  | HourlyR hourly_response
  | ZonesR zones_response
  | HealthR health_response
  | NotFound

text \<open>
  Flask's routing of the \<open>@app.route\<close> decorators: each path runs its view on
  the store the consumer writes; any other path is answered 404
  (\<open>NotFound\<close>); an exception of a view is the error response (\<open>Inl\<close>).
\<close>

definition serve :: "string \<Rightarrow> request_env \<Rightarrow> consumer \<Rightarrow> exc + reply" where
  "serve path rq c =
     (let d = database (consumer_state c) in
      if path = ''/'' then Inr (IndexR index_json)
      else if path = ''/api/events'' then Inr (EventsR (get_events (req_limit rq) d))
      else if path = ''/api/stats/hourly'' then map_sum id HourlyR (get_hourly_stats d)
      else if path = ''/api/stats/zones'' then Inr (ZonesR (get_zone_stats (req_cutoff rq) d))
      else if path = ''/api/health'' then Inr (HealthR (health_check (req_now rq) c))
      else Inr NotFound)"

text \<open>
  The backend process: the module creates the store (keeping an existing
  file) and the MQTT backend with the current hour as watermark, then
  \<open>start_backend\<close> connects and serves. The subscription exists only when
  the connection succeeds and \<open>on_connect\<close> is called with return code
  \<open>rc\<close> 0.
\<close>

definition backend_main :: "nat \<Rightarrow> db option \<Rightarrow> bool \<Rightarrow> int \<Rightarrow> backend \<times> topic option \<times> server" where
  "backend_main h0 old conn_ok rc =
     (init_backend h0 old, (if backend_connect conn_ok then backend_on_connect rc else None), start_backend conn_ok)"

end
