(* ===== verification/Clock.thy ===== *)
theory Clock
  imports Database "HOL-Library.Product_Lexorder"
begin

text \<open>
  The clocks behind the timestamps the two programs write and compare.
  \<open>datetime.now().isoformat()\<close> (simulator, \<open>sensor_simulator.py\<close> lines
  29 and 107; backend, \<open>backend_server.py\<close> lines 78 and 272) prints
  \<open>YYYY-MM-DDTHH:MM:SS\<close>, followed by \<open>.ffffff\<close> when the microseconds are
  not zero (\<open>py_isoformat\<close>). SQLite's \<open>datetime('now', '-1 day')\<close>
  (\<open>get_zone_statistics\<close>, line 149) prints \<open>YYYY-MM-DD HH:MM:SS\<close>
  (\<open>sqlite_datetime\<close>) of the instant one day earlier (\<open>minus_day\<close>, the same
  time on the previous calendar date). Both print fields zero-padded to a
  fixed width (\<open>zpad\<close>, Python's \<open>%04d\<close>/\<open>%02d\<close>), so on valid datetimes
  (\<open>dt_valid\<close>, the range \<open>datetime\<close> enforces) text order on the date part
  is calendar order (\<open>iso_date_less\<close>). The theorem \<open>zone_window_dates\<close>
  characterises the zone window exactly: an event is in it when its calendar
  date is on or after the date of yesterday, whatever the times of day.
  Both clocks are read in the same time zone (SQLite's \<open>'now'\<close> is UTC,
  \<open>datetime.now()\<close> local time: the model assumes a host running on UTC).
\<close>

record datetime =
  dt_year :: nat
  dt_month :: nat
  dt_day :: nat
  dt_hour :: nat
  dt_minute :: nat
  dt_second :: nat
  dt_micro :: nat

definition zpad :: "nat \<Rightarrow> nat \<Rightarrow> string" where
  "zpad w n = replicate (w - length (nat_digits n)) (CHR ''0'') @ nat_digits n"

definition iso_date :: "datetime \<Rightarrow> string" where
  "iso_date t = zpad 4 (dt_year t) @ CHR ''-'' # zpad 2 (dt_month t) @ CHR ''-'' # zpad 2 (dt_day t)"

definition iso_clock :: "datetime \<Rightarrow> string" where
  "iso_clock t = zpad 2 (dt_hour t) @ CHR '':'' # zpad 2 (dt_minute t) @ CHR '':'' # zpad 2 (dt_second t)"

definition py_isoformat :: "datetime \<Rightarrow> string" where
  "py_isoformat t =
     iso_date t @ CHR ''T'' # iso_clock t @ (if dt_micro t = 0 then [] else CHR ''.'' # zpad 6 (dt_micro t))"

definition sqlite_datetime :: "datetime \<Rightarrow> string" where
  "sqlite_datetime t = iso_date t @ CHR '' '' # iso_clock t"

definition is_leap :: "nat \<Rightarrow> bool" where
  "is_leap y \<longleftrightarrow> (4 dvd y \<and> \<not> 100 dvd y) \<or> 400 dvd y"

definition days_in_month :: "nat \<Rightarrow> nat \<Rightarrow> nat" where
  "days_in_month y m =
     (if m = 2 then (if is_leap y then 29 else 28) else if m \<in> {4, 6, 9, 11} then 30 else 31)"

definition dt_valid :: "datetime \<Rightarrow> bool" where
  "dt_valid t \<longleftrightarrow>
     1 \<le> dt_year t \<and> dt_year t \<le> 9999 \<and> 1 \<le> dt_month t \<and> dt_month t \<le> 12 \<and>
     1 \<le> dt_day t \<and> dt_day t \<le> days_in_month (dt_year t) (dt_month t) \<and>
     dt_hour t < 24 \<and> dt_minute t < 60 \<and> dt_second t < 60 \<and> dt_micro t < 1000000"

definition dt_date :: "datetime \<Rightarrow> nat \<times> nat \<times> nat" where
  "dt_date t = (dt_year t, dt_month t, dt_day t)"

fun prev_date :: "nat \<times> nat \<times> nat \<Rightarrow> nat \<times> nat \<times> nat" where
  "prev_date (y, m, d) =
     (if 1 < d then (y, m, d - 1)
      else if 1 < m then (y, m - 1, days_in_month y (m - 1))
      else (y - 1, 12, 31))"

definition minus_day :: "datetime \<Rightarrow> datetime" where
  "minus_day t =
     (case prev_date (dt_date t) of (y, m, d) \<Rightarrow> t\<lparr>dt_year := y, dt_month := m, dt_day := d\<rparr>)"

text \<open>
  The last \<open>w\<close> decimal digits of \<open>n\<close>: the digit string of a number below
  \<open>10 ^ w\<close> zero-padded to width \<open>w\<close> (\<open>zpad_fixed_digits\<close>).
\<close>

fun fixed_digits :: "nat \<Rightarrow> nat \<Rightarrow> string" where
  "fixed_digits 0 n = []"
| "fixed_digits (Suc w) n = fixed_digits w (n div 10) @ [digit_chars ! (n mod 10)]"

text \<open>The date fields fit their printed widths.\<close>

definition date_fits :: "datetime \<Rightarrow> bool" where
  "date_fits t \<longleftrightarrow> dt_year t < 10 ^ 4 \<and> dt_month t < 10 ^ 2 \<and> dt_day t < 10 ^ 2"

section \<open>Lemmas\<close>

lemma length_fixed_digits [simp]: "length (fixed_digits w n) = w"
  by (induction w arbitrary: n) simp_all

lemma fixed_digits_zero: "fixed_digits w 0 = replicate w (CHR ''0'')"
  by (induction w) (simp_all add: digit_chars_def replicate_append_same)

lemma length_nat_digits_le: "n < 10 ^ w \<Longrightarrow> 0 < w \<Longrightarrow> length (nat_digits n) \<le> w"
proof (induction n arbitrary: w rule: nat_digits.induct)
  case (1 n)
  show ?case
  proof (cases "n < 10")
    case True
    then show ?thesis using "1.prems" by (simp add: nat_digits.simps)
  next
    case False
    obtain w' where w0: "w = Suc w'" using "1.prems" by (cases w) auto
    have "w \<noteq> 1" using "1.prems" False by auto
    then have w: "w = Suc w'" "0 < w'" using w0 by simp_all
    have "n div 10 < 10 ^ w'" using "1.prems" w by (simp add: less_mult_imp_div_less mult.commute)
    then show ?thesis using "1.IH" [OF False] w False by (simp add: nat_digits.simps [of n])
  qed
qed

lemma zpad_fixed_digits: "n < 10 ^ w \<Longrightarrow> 0 < w \<Longrightarrow> zpad w n = fixed_digits w n"
proof (induction w arbitrary: n)
  case 0
  then show ?case by simp
next
  case (Suc w)
  show ?case
  proof (cases "n < 10")
    case True
    then show ?thesis
      by (simp add: zpad_def nat_digits.simps fixed_digits_zero replicate_append_same [symmetric])
  next
    case False
    then have w: "0 < w" using Suc.prems by (cases w) simp_all
    have lt: "n div 10 < 10 ^ w" using Suc.prems by (simp add: less_mult_imp_div_less mult.commute)
    have "length (nat_digits (n div 10)) \<le> w" by (rule length_nat_digits_le [OF lt w])
    then show ?thesis using Suc.IH [OF lt w] False
      by (simp add: zpad_def nat_digits.simps [of n])
  qed
qed

lemma digit_chars_less: "i < 10 \<Longrightarrow> j < 10 \<Longrightarrow> digit_chars ! i < digit_chars ! j \<longleftrightarrow> i < j"
  by (simp add: less_char_def digit_chars_of_char)

lemma div_mod_less_iff:
  "(n :: nat) < m \<longleftrightarrow> n div 10 < m div 10 \<or> n div 10 = m div 10 \<and> n mod 10 < m mod 10"
proof -
  have "n = 10 * (n div 10) + n mod 10" "m = 10 * (m div 10) + m mod 10" "n mod 10 < 10" "m mod 10 < 10"
    by simp_all
  then show ?thesis by linarith
qed

lemma fixed_digits_less:
  "n < 10 ^ w \<Longrightarrow> m < 10 ^ w \<Longrightarrow> fixed_digits w n < fixed_digits w m \<longleftrightarrow> n < m"
proof (induction w arbitrary: n m)
  case 0
  then show ?case by simp
next
  case (Suc w)
  have lt: "n div 10 < 10 ^ w" "m div 10 < 10 ^ w"
    using Suc.prems by (simp_all add: less_mult_imp_div_less mult.commute)
  have eq: "fixed_digits w (n div 10) = fixed_digits w (m div 10) \<longleftrightarrow> n div 10 = m div 10"
    using Suc.IH [OF lt] Suc.IH [OF lt(2,1)]
    by (cases "n div 10" "m div 10" rule: linorder_cases) (auto dest: order.strict_implies_not_eq)
  show ?case
    using Suc.IH [OF lt] eq div_mod_less_iff [of n m] by (simp add: list_less_append_iff digit_chars_less)
qed

lemma fixed_digits_eq:
  "n < 10 ^ w \<Longrightarrow> m < 10 ^ w \<Longrightarrow> fixed_digits w n = fixed_digits w m \<longleftrightarrow> n = m"
  using fixed_digits_less [of n w m] fixed_digits_less [of m w n]
  by (cases n m rule: linorder_cases) (auto dest: order.strict_implies_not_eq)

lemma iso_date_fixed:
  "date_fits t \<Longrightarrow> iso_date t =
     fixed_digits 4 (dt_year t) @ CHR ''-'' # fixed_digits 2 (dt_month t) @ CHR ''-'' # fixed_digits 2 (dt_day t)"
  by (simp add: date_fits_def iso_date_def zpad_fixed_digits)

lemma iso_date_less:
  assumes "date_fits a" and "date_fits b"
  shows "iso_date a < iso_date b \<longleftrightarrow> dt_date a < dt_date b"
  using assms
  by (auto simp: iso_date_fixed list_less_append_iff fixed_digits_less fixed_digits_eq dt_date_def
        less_prod_def date_fits_def)

lemma iso_date_eq:
  assumes "date_fits a" and "date_fits b"
  shows "iso_date a = iso_date b \<longleftrightarrow> dt_date a = dt_date b"
  using assms
  by (simp add: iso_date_fixed fixed_digits_eq dt_date_def date_fits_def)

lemma length_iso_date: "date_fits t \<Longrightarrow> length (iso_date t) = 10"
  by (simp add: iso_date_fixed)

lemma in_window_iso:
  assumes "date_fits c" and "date_fits e"
  shows "in_window (sqlite_datetime c) (SText (py_isoformat e)) \<longleftrightarrow> dt_date c \<le> dt_date e"
proof -
  have "[CHR '' ''] < [CHR ''T'']" by simp
  then have "CHR '' '' # iso_clock c < CHR ''T'' # (iso_clock e @ r)" for r by simp
  then show ?thesis
    using assms
    by (simp add: sqlite_datetime_def py_isoformat_def list_less_append_iff length_iso_date
          iso_date_less iso_date_eq order_le_less)
qed

lemma days_in_month_le: "days_in_month y m \<le> 31"
  by (simp add: days_in_month_def)

lemma dt_valid_fits: "dt_valid t \<Longrightarrow> date_fits t"
  using days_in_month_le [of "dt_year t" "dt_month t"] by (simp add: dt_valid_def date_fits_def)

lemma minus_day_fits: "dt_valid t \<Longrightarrow> date_fits (minus_day t)"
  using days_in_month_le [of "dt_year t" "dt_month t"] days_in_month_le [of "dt_year t" "dt_month t - 1"]
  by (auto simp: dt_valid_def date_fits_def minus_day_def dt_date_def)

lemma dt_date_minus_day [simp]: "dt_date (minus_day t) = prev_date (dt_date t)"
  by (simp add: minus_day_def dt_date_def split: prod.splits)

section \<open>Properties\<close>

text \<open>
  C23. The zone window of \<open>get_zone_statistics\<close> is not the trailing 24
  hours: with the cutoff \<open>datetime('now', '-1 day')\<close> and event timestamps
  from \<open>isoformat()\<close> compared as text, an event is in the window exactly
  when its calendar date is on or after yesterday's date, whatever the times
  of day (\<open>T\<close> sorts after the space). An event of 00:00 yesterday, up to 48
  hours old, is counted; one of 23:59 the day before, 24 hours and one
  minute old at 00:00, is not.
\<close>

theorem zone_window_dates:
  assumes "dt_valid now" and "dt_valid e"
  shows "in_window (sqlite_datetime (minus_day now)) (SText (py_isoformat e)) \<longleftrightarrow>
         prev_date (dt_date now) \<le> dt_date e"
  using in_window_iso [OF minus_day_fits [OF assms(1)] dt_valid_fits [OF assms(2)]] by simp

theorem zone_window_dates_witness:
  "dt_valid \<lparr>dt_year = 2025, dt_month = 3, dt_day = 1, dt_hour = 9, dt_minute = 5, dt_second = 7, dt_micro = 0\<rparr> \<and>
   dt_valid \<lparr>dt_year = 2025, dt_month = 2, dt_day = 28, dt_hour = 0, dt_minute = 0, dt_second = 0, dt_micro = 0\<rparr> \<and>
   in_window (sqlite_datetime (minus_day \<lparr>dt_year = 2025, dt_month = 3, dt_day = 1, dt_hour = 9, dt_minute = 5,
                                          dt_second = 7, dt_micro = 0\<rparr>))
     (SText (py_isoformat \<lparr>dt_year = 2025, dt_month = 2, dt_day = 28, dt_hour = 0, dt_minute = 0,
                            dt_second = 0, dt_micro = 0\<rparr>))"
proof -
  have v: "dt_valid \<lparr>dt_year = 2025, dt_month = 3, dt_day = 1, dt_hour = 9, dt_minute = 5, dt_second = 7, dt_micro = 0\<rparr>"
          "dt_valid \<lparr>dt_year = 2025, dt_month = 2, dt_day = 28, dt_hour = 0, dt_minute = 0, dt_second = 0, dt_micro = 0\<rparr>"
    by (simp_all add: dt_valid_def days_in_month_def is_leap_def)
  show ?thesis
    using v zone_window_dates [OF v] by (simp add: dt_date_def days_in_month_def is_leap_def)
qed

end
