(* ===== verification/Console.thy ===== *)
theory Console
  imports Simulator Clock
begin

text \<open>
  What the simulator prints. The console is the operator's view of the run:
  the connection callbacks \<open>on_connect\<close> and \<open>on_disconnect\<close>,
  \<open>display_initial_state\<close>, and in each loop iteration one line per
  published change followed by a count. Printing changes no state, so each
  output is a function of the same inputs as the operation that prints it:
  \<open>check_sensors_lines\<close> is the printing side of the loop that
  \<open>check_sensors\<close> models, \<open>tick_lines\<close> that of one iteration. A
  line is the string passed to \<open>print\<close>, without the newline \<open>print\<close>
  adds; strings are byte lists, so emoji and accented letters are written
  as their UTF-8 bytes. The clock read by \<open>strftime('%H:%M:%S')\<close> for the
  change line of sensor \<open>i\<close> is \<open>clk i\<close>.
\<close>

definition icon_car :: string where
  "icon_car = [CHR 0xF0, CHR 0x9F, CHR 0x9A, CHR 0x97]"

definition icon_check :: string where
  "icon_check = [CHR 0xE2, CHR 0x9C, CHR 0x85]"

definition icon_cross :: string where
  "icon_cross = [CHR 0xE2, CHR 0x9D, CHR 0x8C]"

definition icon_chart :: string where
  "icon_chart = [CHR 0xF0, CHR 0x9F, CHR 0x93, CHR 0x8A]"

definition icon_warning :: string where
  "icon_warning = [CHR 0xE2, CHR 0x9A, CHR 0xA0, CHR 0xEF, CHR 0xB8, CHR 0x8F]"

definition arrow :: string where
  "arrow = [CHR 0xE2, CHR 0x86, CHR 0x92]"

definition e_acute :: string where
  "e_acute = [CHR 0xC3, CHR 0xA9]"

definition E_acute :: string where
  "E_acute = [CHR 0xC3, CHR 0x89]"

text \<open>\<open>on_connect\<close> and \<open>on_disconnect\<close> of \<open>ParkingSystem\<close>.\<close>

definition sim_on_connect :: "int \<Rightarrow> string" where
  "sim_on_connect rc =
     (if rc = 0 then icon_check @ '' Connect'' @ e_acute @ '' au broker MQTT avec succ'' @ [CHR 0xC3, CHR 0xA8] @ ''s!''
      else icon_cross @ '' '' @ E_acute @ ''chec de connexion, code: '' @ py_str_int rc)"

definition sim_on_disconnect :: string where
  "sim_on_disconnect = icon_warning @ ''  D'' @ e_acute @ ''connect'' @ e_acute @ '' du broker MQTT''"

text \<open>The icon of a place: a car when occupied, a check mark when free.\<close>

definition status_icon :: "sensor \<Rightarrow> string" where
  "status_icon s = (if is_occupied s then icon_car else icon_check)"

definition place_name :: "sensor \<Rightarrow> string" where
  "place_name s = sensor_zone s @ ''/Place_'' @ py_str_int (sensor_id s)"

definition dashes :: "nat \<Rightarrow> string" where
  "dashes n = replicate n (CHR ''-'')"

definition display_initial_state :: "sensor list \<Rightarrow> string list" where
  "display_initial_state ss =
     [icon_chart @ '' '' @ E_acute @ ''tat Initial du Parking:'', dashes 50] @
     map (\<lambda>s. ''   '' @ status_icon s @ '' '' @ place_name s @ '': '' @ status_text (is_occupied s)) ss @
     [dashes 50 @ ''\<newline>'']"

text \<open>The line of a published change, and the count line after the loop.\<close>

definition change_line :: "datetime \<Rightarrow> sensor \<Rightarrow> string" where
  "change_line now s =
     status_icon s @ '' ['' @ iso_clock now @ ''] '' @ place_name s @ '' '' @ arrow @ '' '' @
     (if is_occupied s then ''OCCUP'' @ E_acute @ ''E'' else ''LIBRE'')"

definition count_line :: "nat \<Rightarrow> string" where
  "count_line n =
     ''   '' @ icon_chart @ '' '' @ py_str_int (int n) @ '' changement(s) d'' @ e_acute @ ''tect'' @ e_acute @
     ''(s)\<newline>''"

fun check_sensors_lines :: "tick_env \<Rightarrow> (nat \<Rightarrow> datetime) \<Rightarrow> nat \<Rightarrow> sensor list \<Rightarrow> string list" where
  "check_sensors_lines te clk i [] = []"
| "check_sensors_lines te clk i (s # ss) =
     (let (changed, s') = detect_change (draw te i) s in
      (if changed \<and> pub_ok (status_pub te i) then [change_line (clk i) s'] else []) @
      check_sensors_lines te clk (Suc i) ss)"

definition tick_lines :: "tick_env \<Rightarrow> (nat \<Rightarrow> datetime) \<Rightarrow> parking_system \<Rightarrow> string list" where
  "tick_lines te clk ps =
     (let (ss', c', n) = check_sensors te 0 (sensors ps) (client ps)
      in check_sensors_lines te clk 0 (sensors ps) @ (if 0 < n then [count_line n] else []))"

text \<open>
  The changes a pass of the loop publishes: the positions and new states of
  the sensors whose draw flipped them and whose status publish succeeded.
\<close>

definition published_changes :: "tick_env \<Rightarrow> sensor list \<Rightarrow> (nat \<times> sensor) list" where
  "published_changes te ss' = filter (\<lambda>(k, s). draw te k < 1/10 \<and> pub_ok (status_pub te k)) (enumerate 0 ss')"

definition status_message :: "tick_env \<Rightarrow> nat \<times> sensor \<Rightarrow> mqtt_msg" where
  "status_message te ks =
     (case ks of (k, s) \<Rightarrow> deliver (sensor_topic s) (get_status (pub_time (status_pub te k)) (pub_conf (status_pub te k)) s))"

section \<open>Lemmas\<close>

text \<open>
  The changes a pass of the loop publishes, as the positions and new states
  of the sensors whose draw flipped them and whose publish succeeded.
\<close>

lemma publish_status_outbox:
  "publish_status pe s c = (ok, c') \<Longrightarrow>
   ok = pub_ok pe \<and>
   outbox c' = outbox c @ (if pub_ok pe then [deliver (sensor_topic s) (get_status (pub_time pe) (pub_conf pe) s)] else [])"
  by (auto simp: publish_status_def publish_def)

lemma detect_change_pair:
  "detect_change r s = (b, s') \<Longrightarrow> (b \<longleftrightarrow> r < 1/10) \<and> (\<not> b \<longrightarrow> s' = s)"
  by (auto simp: detect_change_def split: if_splits)

lemma check_sensors_published:
  assumes "check_sensors te i ss c = (ss', c', n)"
  shows "outbox c' = outbox c @
           map (\<lambda>(k, s). deliver (sensor_topic s) (get_status (pub_time (status_pub te k)) (pub_conf (status_pub te k)) s))
             (filter (\<lambda>(k, s). draw te k < 1/10 \<and> pub_ok (status_pub te k)) (enumerate i ss')) \<and>
         check_sensors_lines te clk i ss =
           map (\<lambda>(k, s). change_line (clk k) s)
             (filter (\<lambda>(k, s). draw te k < 1/10 \<and> pub_ok (status_pub te k)) (enumerate i ss')) \<and>
         n = length (filter (\<lambda>(k, s). draw te k < 1/10 \<and> pub_ok (status_pub te k)) (enumerate i ss'))"
  using assms
proof (induction ss arbitrary: i c ss' c' n)
  case Nil
  then show ?case by simp
next
  case (Cons s ss)
  obtain b s1 where d: "detect_change (draw te i) s = (b, s1)" by (cases "detect_change (draw te i) s")
  have b: "b \<longleftrightarrow> draw te i < 1/10" and same: "\<not> b \<Longrightarrow> s1 = s" using detect_change_pair [OF d] by simp_all
  show ?case
  proof (cases b)
    case True
    obtain ok c0 where p: "publish_status (status_pub te i) s1 c = (ok, c0)"
      by (cases "publish_status (status_pub te i) s1 c")
    obtain ss1 c1 n1 where r: "check_sensors te (Suc i) ss c0 = (ss1, c1, n1)"
      by (cases "check_sensors te (Suc i) ss c0")
    have out: "ss' = s1 # ss1" "c' = c1" "n = (if ok then Suc n1 else n1)"
      using Cons.prems d p r True by simp_all
    show ?thesis
      using Cons.IH [OF r] publish_status_outbox [OF p] d b True out by simp
  next
    case False
    obtain ss1 c1 n1 where r: "check_sensors te (Suc i) ss c = (ss1, c1, n1)"
      by (cases "check_sensors te (Suc i) ss c")
    have out: "ss' = s1 # ss1" "c' = c1" "n = n1"
      using Cons.prems d r False by simp_all
    show ?thesis
      using Cons.IH [OF r] d b False out by simp
  qed
qed

section \<open>Properties\<close>



end
