(* ===== verification/Spec2Isabelle.thy ===== *)
theory Spec2Isabelle
  imports Outbox Ingest Api Console
begin

text \<open>
  \<^bold>\<open>Parking IoT system: a verification development.\<close>

  The repository has two programs that talk over an MQTT broker.
  \<^item> \<open>src/sensors/sensor_simulator.py\<close>: \<open>ParkingSensor\<close> is one parking
    space; \<open>ParkingSystem\<close> creates a fleet of sensors from a dictionary of
    zones, connects to the broker, publishes each sensor's status on
    \<open>parking/{zone}/place_{id}\<close> and a fleet summary on \<open>parking/summary\<close>,
    then loops: every 2 seconds each sensor flips with probability 0.1, each
    flip is published, and a summary follows when a publish succeeded; the
    loop ends on a duration or Ctrl+C and \<open>cleanup\<close> runs in \<open>finally\<close>.
  \<^item> \<open>src/backend/backend_server.py\<close>: \<open>ParkingDatabase\<close> is a SQLite
    store of two append-only tables (\<open>parking_events\<close>, \<open>hourly_stats\<close>)
    with three queries; \<open>MQTTBackend\<close> subscribes to \<open>parking/#\<close>, stores
    every sensor message as an event and the first summary seen after the
    hour changes as an hourly snapshot (watermark \<open>last_hourly_save\<close>);
    Flask routes serve the queries.

  \<^bold>\<open>Theories.\<close>
  \<^item> \<open>Prelude\<close>: Python's \<open>round(x, 2)\<close> (half to even, on reals),
    \<open>str(i)\<close> and \<open>int(s)\<close> with their round trip, left-to-right evaluation
    of fallible expressions (\<open>seq_sum\<close>), the hour-change count \<open>changes\<close>.
  \<^item> \<open>Values\<close>: the JSON values \<open>json.loads\<close> returns, Python's
    exceptions, \<open>data.get(k)\<close> (\<open>py_get\<close>) and \<open>data[k]\<close>
    (\<open>py_subscript\<close>), the binding of Python values to SQLite values
    (\<open>bind\<close>), MQTT messages and the bus (\<open>deliver\<close>).
  \<^item> \<open>Sensor\<close>: \<open>ParkingSensor\<close> (\<open>new_sensor\<close>, \<open>detect_change\<close>,
    \<open>get_status\<close>, with \<open>random.uniform\<close> written out); the random
    draws are arguments.
  \<^item> \<open>Simulator\<close>: \<open>ParkingSystem\<close> as state passing on the record
    \<open>parking_system\<close> (client flags and outbox, sensor list):
    \<open>create_parking_lot\<close>, \<open>connect\<close>, \<open>publish_status\<close>,
    \<open>publish_summary\<close>, one loop iteration \<open>tick\<close> (inner loop
    \<open>check_sensors\<close>), the loop \<open>run_loop\<close>, \<open>cleanup\<close>,
    \<open>run_simulation\<close> and the main program \<open>simulator_main\<close>.
  \<^item> \<open>Database\<close>: \<open>ParkingDatabase\<close> on the record \<open>db\<close>: the
    \<open>NOT NULL\<close> constraints and \<open>AUTOINCREMENT\<close> ids of the schema,
    \<open>insert_event\<close>, \<open>insert_hourly_stat\<close>, and the queries
    \<open>get_recent_events\<close>, \<open>get_statistics_by_hour\<close>,
    \<open>get_zone_statistics\<close> written from their SQL.
  \<^item> \<open>Backend\<close>: \<open>MQTTBackend\<close> on the record \<open>backend\<close> (store and
    watermark): \<open>handle_data\<close> (the \<open>try\<close> body), \<open>on_message\<close>,
    and \<open>consume\<close>, the in-order handling of the subscription until an
    exception escapes the callback; \<open>reach\<close> is the inductive set of states
    reachable under a clock that does not cross an hour within a message.
  \<^item> \<open>Api\<close>: the Flask routes (\<open>serve\<close>) and \<open>start_backend\<close>.
  \<^item> \<open>Bus\<close>: the broker, which neither program implements, as far as the
    code relies on it (MQTT 3.1.1): topic-filter matching for the backend's
    \<open>parking/#\<close> subscription (\<open>topic_matches\<close>, \<open>subscribed\<close>), the
    retained message per topic of \<open>retain=True\<close> publishes
    (\<open>retained\<close>), and the message contract \<open>msg_ok\<close> between the two
    programs: topics under \<open>parking/\<close>, payload fields that bind to the
    declared column types.
  \<^item> \<open>Outbox\<close>: what a simulator run leaves with the broker. A generic
    lemma (\<open>run_simulation_outbox\<close>) lifts any property of single status
    and summary messages to the whole outbox; \<open>fleet_synced\<close> compares the
    retained status of each sensor topic with the sensor.
  \<^item> \<open>Ingest\<close>: the backend's side of the contract, the abstract ingestion
    specification \<open>ingest_spec\<close> over the abstraction \<open>event_log\<close> (the
    event table without ids), and its refinement by \<open>consume\<close>.
  \<^item> \<open>Clock\<close>: the timestamps, \<open>datetime.now().isoformat()\<close>
    (\<open>py_isoformat\<close>) and SQLite's \<open>datetime('now', '-1 day')\<close>
    (\<open>sqlite_datetime\<close> of \<open>minus_day\<close>), with fixed-width zero padding,
    so that text order on dates is calendar order.
  \<^item> \<open>Console\<close>: what the simulator prints (\<open>on_connect\<close>,
    \<open>on_disconnect\<close>, \<open>display_initial_state\<close>, the change and count
    lines of each iteration, \<open>tick_lines\<close>) as functions of the same
    inputs as the operations that print.
  \<^item> this theory: the properties that span the two programs.

  \<^bold>\<open>Environment as input.\<close> Every random draw, clock reading, publish
  return code, elapsed time and Ctrl+C is an argument: \<open>tick_env\<close> for one
  loop iteration, \<open>pub_env\<close> for one publish, \<open>msg_clock\<close> for the two
  clock readings of one message. The simulator's loop does not terminate by
  itself, so \<open>run_loop\<close> runs over the finite list of iterations the
  environment supplies and reports \<open>Running\<close> when it has not left the loop
  after them; no fuel bound is needed, and non-termination is a theorem
  (\<open>run_loop_no_limit_runs\<close>).

  \<^bold>\<open>Properties\<close> (claim ids in order of importance).
  \<^item> Hourly snapshots (\<open>Backend\<close>): C1 a sequence of well-formed summaries
    adds one snapshot per hour change of the watermark (the spec's example
    10,10,10,11,11,12 gives 3); C2 under a steady clock consecutive
    snapshots of a run have different hours, by rule induction over
    \<open>reach\<close> with the invariant \<open>hour_inv\<close>; C20 a summary that cannot be
    stored leaves the watermark, so it is retried; C22 whenever the clock
    crosses an hour between the check and the insert, two consecutive
    snapshots get the same hour.
  \<^item> The two programs together (this theory, \<open>Ingest\<close>, \<open>Outbox\<close>): C3 a
    sensor's status becomes exactly one event row with its fields; C4 a summary
    in a new hour becomes a snapshot with the fleet's counts and the backend's
    clock; C10 \<open>consume\<close> refines \<open>ingest_spec\<close> on contract messages;
    C12 every message of a run meets the contract; C13 the subscription
    receives all contract messages after \<open>rc = 0\<close> and nothing otherwise;
    C19 the zone statistics count the received reports by status, and
    occupied plus free is the total; C21 an undecodable payload stops the
    consumer.
  \<^item> Retained state (\<open>Outbox\<close>): C11 with successful publishes the
    broker's retained status of every sensor is the sensor's state, and the
    retained summary has the fleet's counts, throughout a run.
  \<^item> Store (\<open>Database\<close>, \<open>Clock\<close>): C5 the exact acceptance condition of
    \<open>insert_event\<close> (the \<open>NOT NULL\<close> columns reject missing fields);
    C9 \<open>ORDER BY id DESC LIMIT n\<close> is the reversed log cut to \<open>n\<close>; C24
    the hourly averages raise \<open>TypeError\<close> exactly when an hour has only
    \<open>NULL\<close> rates; C23 the one-day window holds exactly the events dated
    yesterday or later, up to 48 hours old.
  \<^item> Simulator (\<open>Sensor\<close>, \<open>Simulator\<close>): C7 the flip rule over a
    whole run (occupancy is the parity of the draws below 0.1); C26 the
    confidence of \<open>random.uniform(0.85, 1.0)\<close> rounded stays in its
    bounds; C15 the topic round trip; C14 distinct topics; C6 when a tick
    publishes a summary (a flip whose publish failed gives none); C8
    \<open>cleanup\<close> exactly once on every exit of the loop, and C25 the
    uncleaned crash on an empty fleet; C17 and C18 loop exit and non-exit.
  \<^item> Console (\<open>Console\<close>): C16 an iteration's change lines and its
    status messages are images of the same list of published changes, and
    the count line reports their number.

  \<^bold>\<open>Not modelled.\<close> The fixed banners of \<open>run_simulation\<close>,
  \<open>cleanup\<close> and the two main programs, and the backend's log lines in
  \<open>on_message\<close>, \<open>connect\<close> and \<open>start_backend\<close>: printing changes no
  state, and the simulator's console, which reports the changes, is
  modelled. In the paho client: a publish whose return code is not success
  is modelled as dropped, which is the queue-full case; a QoS 1 publish
  refused because the client is not connected is kept by paho and sent on
  reconnect, which the model does not do, and neither does it raise paho's
  \<open>ValueError\<close> for a topic containing \<open>+\<close> or \<open>#\<close> (a zone name with a
  wildcard); reconnection (after which \<open>on_connect\<close> may be called again
  and subscribe) and session state are not modelled. Ctrl+C is observed
  only between iterations of the loop, not during the initial publishes.
  The broker beyond topic matching and retained messages: QoS levels,
  acknowledgements and redelivery, so the properties about ingestion take
  the stream of messages the backend receives as given; the byte encoding
  of \<open>json.dumps\<close> (a published payload parses back to the value dumped).
  In \<open>sqlite3\<close> and SQLite: the \<open>OverflowError\<close> on binding an integer
  outside 64 bits (\<open>bind\<close> accepts every integer), column affinity
  conversions and numeric reading of text (a row holds the value as bound);
  the dictionaries built from query rows are the rows themselves. Time
  zones (both clocks are taken in one zone, though SQLite's \<open>'now'\<close> is UTC
  and \<open>datetime.now()\<close> local time); binary floating point (floats are
  reals); the Flask framework and CORS (routing is modelled by \<open>serve\<close>);
  concurrency between the HTTP and MQTT threads, each of which commits
  whole statements on its own connection.
\<close>

section \<open>Properties across the two programs\<close>

text \<open>
  C3. A status report published by a well-formed sensor is stored by the
  backend as exactly one new event row, with the sensor's zone, place id and
  status, the report's timestamp and confidence, and a fresh id; the hourly
  snapshots and the watermark are untouched.
\<close>

theorem status_message_ingested:
  assumes "wf_sensor s"
  shows "on_message clk (deliver (sensor_topic s) (get_status now u s)) b =
         Inr (b\<lparr>database := (database b)\<lparr>events := events (database b) @
               [\<lparr>ev_id = next_id (map ev_id (events (database b))), ev_timestamp = SText now,
                 ev_zone = SText (sensor_zone s), ev_place = SInt (sensor_id s),
                 ev_status = SText (status_text (is_occupied s)),
                 ev_conf = SReal (py_round2 (py_uniform (85/100) 1 u))\<rparr>]\<rparr>\<rparr>)"
proof -
  have t: "sensor_topic s \<noteq> summary_topic"
    using assms sensor_topic_of_neq_summary by (simp add: wf_sensor_def)
  have st: "status_text (is_occupied s) \<noteq> []" by (simp add: status_text_def)
  show ?thesis
    using t st
    by (simp add: on_message_def deliver_def handle_data_def get_status_get insert_event_def
        null_violation_def seq_sum.simps)
qed

theorem status_message_ingested_witness:
  "wf_sensor (new_sensor 1 ''Zone_A'') \<and>
   on_message \<lparr>hour_at_check = 10, hour_at_insert = 10, time_at_insert = ''t''\<rparr>
     (deliver (sensor_topic (new_sensor 1 ''Zone_A'')) (get_status ''T'' 0 (new_sensor 1 ''Zone_A'')))
     (init_backend 10 None) =
   Inr (init_backend 10 None\<lparr>database := \<lparr>events = [\<lparr>ev_id = 1, ev_timestamp = SText ''T'',
          ev_zone = SText ''Zone_A'', ev_place = SInt 1, ev_status = SText ''free'',
          ev_conf = SReal (py_round2 (py_uniform (85/100) 1 0))\<rparr>],
        hourly = []\<rparr>\<rparr>)"
proof -
  have h: "wf_sensor (new_sensor 1 ''Zone_A'')" by (simp add: wf_sensor_def new_sensor_def)
  show ?thesis
    using h status_message_ingested [OF h, of "\<lparr>hour_at_check = 10, hour_at_insert = 10, time_at_insert = ''t''\<rparr>"
        "''T''" 0 "init_backend 10 None"]
    by (simp add: init_backend_def init_database_def new_sensor_def status_text_def next_id_def)
qed

text \<open>
  C4. A fleet summary that arrives when the hour differs from the watermark
  becomes one snapshot whose counts are the fleet's (total, occupied, free,
  rounded rate) while its hour and timestamp come from the backend's clock;
  the watermark moves to the new hour.
\<close>

theorem summary_message_snapshot:
  assumes "hour_at_check clk \<noteq> last_hourly_save b"
  shows "on_message clk (deliver summary_topic (summary_json now ss)) b =
         Inr (b\<lparr>database := (database b)\<lparr>hourly := hourly (database b) @
               [\<lparr>st_id = next_id (map st_id (hourly (database b))), st_timestamp = time_at_insert clk,
                 st_hour = hour_at_insert clk, st_total = SInt (int (length ss)),
                 st_occ = SInt (int (count_occupied ss)),
                 st_free = SInt (int (length ss) - int (count_occupied ss)),
                 st_rate = SReal (py_round2 (of_int (int (count_occupied ss)) / of_int (int (length ss)) * 100))\<rparr>]\<rparr>,
               last_hourly_save := hour_at_check clk\<rparr>)"
  using assms
  by (simp add: on_message_def deliver_def handle_data_def insert_hourly_stat_def summary_json_def
      obj_lookup_def Let_def seq_sum.simps)

theorem summary_message_snapshot_witness:
  "(11::nat) \<noteq> last_hourly_save (init_backend 10 None) \<and>
   (\<exists>b'. on_message \<lparr>hour_at_check = 11, hour_at_insert = 11, time_at_insert = ''t''\<rparr>
      (deliver summary_topic (summary_json ''T'' [new_sensor 1 ''Zone_A''])) (init_backend 10 None) = Inr b' \<and>
      map st_hour (hourly (database b')) = [11] \<and> last_hourly_save b' = 11)"
proof -
  let ?clk = "\<lparr>hour_at_check = 11, hour_at_insert = 11, time_at_insert = ''t''\<rparr>"
  have h: "hour_at_check ?clk \<noteq> last_hourly_save (init_backend 10 None)"
    by (simp add: init_backend_def)
  show ?thesis
    using summary_message_snapshot [OF h, of "''T''" "[new_sensor 1 ''Zone_A'']"]
    by (simp add: init_backend_def init_database_def)
qed

text \<open>
  C19. The zone statistics count the status reports the backend received:
  for a backend started on an empty store that handled a sequence of
  contract messages, a zone's row counts as occupied exactly the reports of
  that zone in the window whose \<open>status\<close> is \<open>occupied\<close>, as free those
  whose status is \<open>free\<close>, and since the simulator sends no other status
  the total is their sum.
\<close>

theorem zone_statistics_count_reports:
  assumes ok: "list_all msg_ok (map snd cms)"
    and run: "consume cms (init_backend h None) = Listening b'"
    and row: "(z, occ, fr, tot) \<in> set (get_zone_statistics cutoff (database b'))"
  shows "occ = length (filter (\<lambda>v. in_window cutoff (v ! 0) \<and> v ! 1 = z \<and> v ! 3 = SText ''occupied'')
                              (ingest_spec (map snd cms))) \<and>
         fr = length (filter (\<lambda>v. in_window cutoff (v ! 0) \<and> v ! 1 = z \<and> v ! 3 = SText ''free'')
                             (ingest_spec (map snd cms))) \<and>
         tot = occ + fr \<and> 0 < tot"
proof -
  let ?log = "ingest_spec (map snd cms)"
  obtain b1 where "consume cms (init_backend h None) = Listening b1"
      "event_log (database b1) = event_log (database (init_backend h None)) @ ?log"
    using consume_contract [OF ok] by blast
  with run have log: "map event_values (events (database b')) = ?log"
    by (simp add: event_log_def init_backend_def init_database_def)
  let ?rs = "window_rows cutoff (database b')"
  let ?zr = "filter (\<lambda>r. ev_zone r = z) ?rs"
  from row have z: "z \<in> set (map ev_zone ?rs)"
    and t: "tot = length ?zr"
    and o: "occ = length (filter (\<lambda>r. ev_status r = SText ''occupied'') ?zr)"
    and f: "fr = length (filter (\<lambda>r. ev_status r = SText ''free'') ?zr)"
    by (auto simp: get_zone_statistics_def Let_def)
  have cnt: "length (filter P ?zr) =
      length (filter (\<lambda>v. in_window cutoff (v ! 0) \<and> v ! 1 = z \<and> P' v) ?log)"
    if "\<And>r. P r = P' (event_values r)" for P P'
    using that length_filter_event_values [of "\<lambda>v. in_window cutoff (v ! 0) \<and> v ! 1 = z \<and> P' v"
        "events (database b')"]
    by (simp add: window_rows_def filter_filter log [symmetric] event_values_def conj_assoc)
  have occ: "occ = length (filter (\<lambda>v. in_window cutoff (v ! 0) \<and> v ! 1 = z \<and> v ! 3 = SText ''occupied'') ?log)"
    using o cnt [of "\<lambda>r. ev_status r = SText ''occupied''" "\<lambda>v. v ! 3 = SText ''occupied''"]
    by (simp add: event_values_def)
  have fr: "fr = length (filter (\<lambda>v. in_window cutoff (v ! 0) \<and> v ! 1 = z \<and> v ! 3 = SText ''free'') ?log)"
    using f cnt [of "\<lambda>r. ev_status r = SText ''free''" "\<lambda>v. v ! 3 = SText ''free''"]
    by (simp add: event_values_def)
  have tot: "tot = length (filter (\<lambda>v. in_window cutoff (v ! 0) \<and> v ! 1 = z) ?log)"
    using t cnt [of "\<lambda>r. True" "\<lambda>v. True"] by simp
  have "length (filter (\<lambda>v. (in_window cutoff (v ! 0) \<and> v ! 1 = z) \<and> v ! 3 = SText ''occupied'') ?log) +
        length (filter (\<lambda>v. (in_window cutoff (v ! 0) \<and> v ! 1 = z) \<and> v ! 3 = SText ''free'') ?log) =
        length (filter (\<lambda>v. in_window cutoff (v ! 0) \<and> v ! 1 = z) ?log)"
    by (rule length_filter_split) (use ingest_spec_status [OF ok] in auto)
  then have "tot = occ + fr"
    unfolding occ fr tot by (simp add: conj_assoc)
  moreover from z have "0 < tot" using t by (auto simp: length_greater_0_conv filter_empty_conv)
  ultimately show ?thesis using occ fr by simp
qed


theorem zone_statistics_count_reports_witness:
  "list_all msg_ok (map snd [(\<lparr>hour_at_check = 10, hour_at_insert = 10, time_at_insert = ''t''\<rparr>, deliver (sensor_topic (new_sensor 1 ''Zone_A'')) (get_status ''T'' 0 (new_sensor 1 ''Zone_A'')))]) \<and>
   (\<exists>b'. consume [(\<lparr>hour_at_check = 10, hour_at_insert = 10, time_at_insert = ''t''\<rparr>, deliver (sensor_topic (new_sensor 1 ''Zone_A'')) (get_status ''T'' 0 (new_sensor 1 ''Zone_A'')))] (init_backend 10 None) = Listening b' \<and>
     (SText ''Zone_A'', 0, 1, 1) \<in> set (get_zone_statistics '''' (database b')) \<and>
     (0 :: nat) = length (filter (\<lambda>v. in_window '''' (v ! 0) \<and> v ! 1 = SText ''Zone_A'' \<and> v ! 3 = SText ''occupied'')
                            (ingest_spec (map snd [(\<lparr>hour_at_check = 10, hour_at_insert = 10, time_at_insert = ''t''\<rparr>, deliver (sensor_topic (new_sensor 1 ''Zone_A'')) (get_status ''T'' 0 (new_sensor 1 ''Zone_A'')))]))) \<and>
     (1 :: nat) = length (filter (\<lambda>v. in_window '''' (v ! 0) \<and> v ! 1 = SText ''Zone_A'' \<and> v ! 3 = SText ''free'')
                            (ingest_spec (map snd [(\<lparr>hour_at_check = 10, hour_at_insert = 10, time_at_insert = ''t''\<rparr>, deliver (sensor_topic (new_sensor 1 ''Zone_A'')) (get_status ''T'' 0 (new_sensor 1 ''Zone_A'')))]))))"
proof -
  have ok: "list_all msg_ok (map snd [(\<lparr>hour_at_check = 10, hour_at_insert = 10, time_at_insert = ''t''\<rparr>, deliver (sensor_topic (new_sensor 1 ''Zone_A'')) (get_status ''T'' 0 (new_sensor 1 ''Zone_A'')))])"
    using status_msg_ok [of "new_sensor 1 ''Zone_A''"] by (simp add: wf_sensor_def new_sensor_def)
  obtain b' where run: "consume [(\<lparr>hour_at_check = 10, hour_at_insert = 10, time_at_insert = ''t''\<rparr>, deliver (sensor_topic (new_sensor 1 ''Zone_A'')) (get_status ''T'' 0 (new_sensor 1 ''Zone_A'')))] (init_backend 10 None) = Listening b'"
      and db: "database b' = \<lparr>events = [\<lparr>ev_id = 1, ev_timestamp = SText ''T'', ev_zone = SText ''Zone_A'',
                 ev_place = SInt 1, ev_status = SText ''free'',
                 ev_conf = SReal (py_round2 (py_uniform (85/100) 1 0))\<rparr>], hourly = []\<rparr>"
    by (simp add: on_message_def deliver_def handle_data_def get_status_get insert_event_def null_violation_def
        seq_sum.simps init_backend_def init_database_def new_sensor_def sensor_topic_of_def summary_topic_def
        status_text_def next_id_def)
  have row: "(SText ''Zone_A'', 0, 1, 1) \<in> set (get_zone_statistics '''' (database b'))"
    by (simp add: db get_zone_statistics_def window_rows_def)
  show ?thesis
    using ok run row zone_statistics_count_reports [OF ok run row] by auto
qed

end
